(* ===== verification/PF_Prelude.thy ===== *)
theory PF_Prelude
  imports Main "HOL-Library.Word"
begin

text \<open>
  Shared vocabulary of the development: machine integer types, the typed error result of
  \<open>include/pciefabric/result.hpp\<close>, the ordered map that stands for \<open>std::map\<close>, and the
  generic list and map lemmas the component theories use.

  \<open>std::map\<close> is an association list kept in ascending key order (\<open>om_wf\<close>); \<open>om_insert\<close> is
  \<open>m[k] = v\<close>, \<open>om_lookup\<close> is \<open>find\<close>, \<open>om_erase\<close> is \<open>erase\<close>, and iterating the list from the
  front is iterating the map from \<open>begin()\<close>. The locale \<open>keyed_store\<close> states what the components
  rely on.
\<close>

unbundle bit_operations_syntax

type_synonym u8 = "8 word"
type_synonym u16 = "16 word"
type_synonym u32 = "32 word"
type_synonym u64 = "64 word"
type_synonym bytes = "8 word list"

named_theorems omap_simps \<open>laws of the ordered map\<close>

section \<open>Typed errors\<close>

datatype ErrorCode =
    EC_OK | EC_INVALID_ARGUMENT | EC_INVALID_BDF | EC_INVALID_ENUM | EC_INVALID_GENERATION
  | EC_INVALID_VALUE | EC_DUPLICATE_IDENTITY | EC_DUPLICATE_CURRENT | EC_NOT_FOUND
  | EC_ALREADY_EXISTS | EC_STALE_AUTHORITY | EC_STALE_EPOCH | EC_STALE_BOOT
  | EC_GENERATION_ROLLBACK | EC_HIERARCHY_CYCLE | EC_INVALID_RELATIONSHIP | EC_OVERCOMMIT
  | EC_DOUBLE_RELEASE | EC_DUPLICATE_RELEASE | EC_ACCOUNTING_DRIFT | EC_PATH_INVALID
  | EC_REVALIDATION_REQUIRED | EC_UNKNOWN_CAPABILITY | EC_PROTOCOL_MALFORMED
  | EC_PROTOCOL_CHECKSUM | EC_PROTOCOL_VERSION | EC_PROTOCOL_OVERFLOW | EC_TRUNCATED
  | EC_IO_ERROR | EC_NETWORK_ERROR | EC_PEER_LOST | EC_TIMEOUT | EC_NOT_IMPLEMENTED
  | EC_CUDA_ERROR | EC_WINDOWS_ERROR | EC_SERIALIZATION_ERROR | EC_INTERNAL | EC_CONFLICT
  | EC_LIMIT_EXCEEDED

text \<open>\<open>Result<T>\<close>: a value, or an error code with its message; \<open>Result<void>\<close> is at type \<open>unit\<close>.\<close>

datatype 'a Result = Success 'a | Err ErrorCode string

definition res_ok :: "'a Result \<Rightarrow> bool" where
  "res_ok r = (case r of Success _ \<Rightarrow> True | Err c _ \<Rightarrow> False)"

definition res_code :: "'a Result \<Rightarrow> ErrorCode" where
  "res_code r = (case r of Success _ \<Rightarrow> EC_OK | Err c _ \<Rightarrow> c)"

definition res_message :: "'a Result \<Rightarrow> string" where
  "res_message r = (case r of Success _ \<Rightarrow> [] | Err _ m \<Rightarrow> m)"

definition res_value_or :: "'a Result \<Rightarrow> 'a \<Rightarrow> 'a" where
  "res_value_or r fallback = (case r of Success v \<Rightarrow> v | Err _ _ \<Rightarrow> fallback)"

text \<open>\<open>value()\<close> throws on an error, which is \<open>None\<close>.\<close>

definition res_value :: "'a Result \<Rightarrow> 'a option" where
  "res_value r = (case r of Success v \<Rightarrow> Some v | Err c m \<Rightarrow> None)"

definition res_map :: "('a \<Rightarrow> 'b) \<Rightarrow> 'a Result \<Rightarrow> 'b Result" where
  "res_map f r = (case r of Success v \<Rightarrow> Success (f v) | Err c m \<Rightarrow> Err c m)"

lemma res_simps [simp]:
  "res_ok (Success v)" "\<not> res_ok (Err c m)"
  "res_code (Success v) = EC_OK" "res_code (Err c m) = c"
  "res_message (Success v) = []" "res_message (Err c m) = m"
  "res_value (Success v) = Some v" "res_value (Err c m) = None"
  by (simp_all add: res_ok_def res_code_def res_message_def res_value_def)

text \<open>
  \<open>Result<void>\<close> as it is: a code, which is \<open>OK\<close> for success, and a message. What it tells is what the
  \<open>unit Result\<close> of its fields tells.
\<close>

record ResultVoid =
  rv_code :: ErrorCode
  rv_message :: string

definition rv_success :: ResultVoid where
  "rv_success = \<lparr>rv_code = EC_OK, rv_message = []\<rparr>"

definition rv_err :: "ErrorCode \<Rightarrow> string \<Rightarrow> ResultVoid" where
  "rv_err c m = \<lparr>rv_code = c, rv_message = m\<rparr>"

definition rv_ok :: "ResultVoid \<Rightarrow> bool" where
  "rv_ok r = (rv_code r = EC_OK)"

definition rv_result :: "ResultVoid \<Rightarrow> unit Result" where
  "rv_result r = (if rv_ok r then Success () else Err (rv_code r) (rv_message r))"

lemma rv_result_props:
  "rv_result rv_success = Success ()" "c \<noteq> EC_OK \<Longrightarrow> rv_result (rv_err c m) = Err c m"
  "res_ok (rv_result r) = rv_ok r" "res_code (rv_result r) = rv_code r"
  by (auto simp: rv_result_def rv_success_def rv_err_def rv_ok_def)

lemma res_ok_iff: "res_ok r \<longleftrightarrow> (\<exists>v. r = Success v)"
  by (cases r) auto

definition ErrorCode_to_string :: "ErrorCode \<Rightarrow> string" where
  "ErrorCode_to_string c = (case c of
      EC_OK \<Rightarrow> ''OK'' | EC_INVALID_ARGUMENT \<Rightarrow> ''INVALID_ARGUMENT''
    | EC_INVALID_BDF \<Rightarrow> ''INVALID_BDF'' | EC_INVALID_ENUM \<Rightarrow> ''INVALID_ENUM''
    | EC_INVALID_GENERATION \<Rightarrow> ''INVALID_GENERATION'' | EC_INVALID_VALUE \<Rightarrow> ''INVALID_VALUE''
    | EC_DUPLICATE_IDENTITY \<Rightarrow> ''DUPLICATE_IDENTITY''
    | EC_DUPLICATE_CURRENT \<Rightarrow> ''DUPLICATE_CURRENT'' | EC_NOT_FOUND \<Rightarrow> ''NOT_FOUND''
    | EC_ALREADY_EXISTS \<Rightarrow> ''ALREADY_EXISTS'' | EC_STALE_AUTHORITY \<Rightarrow> ''STALE_AUTHORITY''
    | EC_STALE_EPOCH \<Rightarrow> ''STALE_EPOCH'' | EC_STALE_BOOT \<Rightarrow> ''STALE_BOOT''
    | EC_GENERATION_ROLLBACK \<Rightarrow> ''GENERATION_ROLLBACK''
    | EC_HIERARCHY_CYCLE \<Rightarrow> ''HIERARCHY_CYCLE''
    | EC_INVALID_RELATIONSHIP \<Rightarrow> ''INVALID_RELATIONSHIP'' | EC_OVERCOMMIT \<Rightarrow> ''OVERCOMMIT''
    | EC_DOUBLE_RELEASE \<Rightarrow> ''DOUBLE_RELEASE'' | EC_DUPLICATE_RELEASE \<Rightarrow> ''DUPLICATE_RELEASE''
    | EC_ACCOUNTING_DRIFT \<Rightarrow> ''ACCOUNTING_DRIFT'' | EC_PATH_INVALID \<Rightarrow> ''PATH_INVALID''
    | EC_REVALIDATION_REQUIRED \<Rightarrow> ''REVALIDATION_REQUIRED''
    | EC_UNKNOWN_CAPABILITY \<Rightarrow> ''UNKNOWN_CAPABILITY''
    | EC_PROTOCOL_MALFORMED \<Rightarrow> ''PROTOCOL_MALFORMED''
    | EC_PROTOCOL_CHECKSUM \<Rightarrow> ''PROTOCOL_CHECKSUM'' | EC_PROTOCOL_VERSION \<Rightarrow> ''PROTOCOL_VERSION''
    | EC_PROTOCOL_OVERFLOW \<Rightarrow> ''PROTOCOL_OVERFLOW'' | EC_TRUNCATED \<Rightarrow> ''TRUNCATED''
    | EC_IO_ERROR \<Rightarrow> ''IO_ERROR'' | EC_NETWORK_ERROR \<Rightarrow> ''NETWORK_ERROR''
    | EC_PEER_LOST \<Rightarrow> ''PEER_LOST'' | EC_TIMEOUT \<Rightarrow> ''TIMEOUT''
    | EC_NOT_IMPLEMENTED \<Rightarrow> ''NOT_IMPLEMENTED'' | EC_CUDA_ERROR \<Rightarrow> ''CUDA_ERROR''
    | EC_WINDOWS_ERROR \<Rightarrow> ''WINDOWS_ERROR'' | EC_SERIALIZATION_ERROR \<Rightarrow> ''SERIALIZATION_ERROR''
    | EC_INTERNAL \<Rightarrow> ''INTERNAL'' | EC_CONFLICT \<Rightarrow> ''CONFLICT''
    | EC_LIMIT_EXCEEDED \<Rightarrow> ''LIMIT_EXCEEDED'')"

text \<open>The number of a code, \<open>static_cast<int>\<close>.\<close>

definition ErrorCode_value :: "ErrorCode \<Rightarrow> int" where
  "ErrorCode_value c = (case c of
      EC_OK \<Rightarrow> 0 | EC_INVALID_ARGUMENT \<Rightarrow> 1 | EC_INVALID_BDF \<Rightarrow> 2
    | EC_INVALID_ENUM \<Rightarrow> 3 | EC_INVALID_GENERATION \<Rightarrow> 4 | EC_INVALID_VALUE \<Rightarrow> 5
    | EC_DUPLICATE_IDENTITY \<Rightarrow> 6 | EC_DUPLICATE_CURRENT \<Rightarrow> 7 | EC_NOT_FOUND \<Rightarrow> 8
    | EC_ALREADY_EXISTS \<Rightarrow> 9 | EC_STALE_AUTHORITY \<Rightarrow> 10 | EC_STALE_EPOCH \<Rightarrow> 11
    | EC_STALE_BOOT \<Rightarrow> 12 | EC_GENERATION_ROLLBACK \<Rightarrow> 13 | EC_HIERARCHY_CYCLE \<Rightarrow> 14
    | EC_INVALID_RELATIONSHIP \<Rightarrow> 15 | EC_OVERCOMMIT \<Rightarrow> 16 | EC_DOUBLE_RELEASE \<Rightarrow> 17
    | EC_DUPLICATE_RELEASE \<Rightarrow> 18 | EC_ACCOUNTING_DRIFT \<Rightarrow> 19 | EC_PATH_INVALID \<Rightarrow> 20
    | EC_REVALIDATION_REQUIRED \<Rightarrow> 21 | EC_UNKNOWN_CAPABILITY \<Rightarrow> 22 | EC_PROTOCOL_MALFORMED \<Rightarrow> 23
    | EC_PROTOCOL_CHECKSUM \<Rightarrow> 24 | EC_PROTOCOL_VERSION \<Rightarrow> 25 | EC_PROTOCOL_OVERFLOW \<Rightarrow> 26
    | EC_TRUNCATED \<Rightarrow> 27 | EC_IO_ERROR \<Rightarrow> 28 | EC_NETWORK_ERROR \<Rightarrow> 29
    | EC_PEER_LOST \<Rightarrow> 30 | EC_TIMEOUT \<Rightarrow> 31 | EC_NOT_IMPLEMENTED \<Rightarrow> 32
    | EC_CUDA_ERROR \<Rightarrow> 33 | EC_WINDOWS_ERROR \<Rightarrow> 34 | EC_SERIALIZATION_ERROR \<Rightarrow> 35
    | EC_INTERNAL \<Rightarrow> 36 | EC_CONFLICT \<Rightarrow> 37 | EC_LIMIT_EXCEEDED \<Rightarrow> 38)"

section \<open>Ordered maps\<close>

type_synonym ('k, 'v) omap = "('k \<times> 'v) list"

definition om_lookup :: "('k, 'v) omap \<Rightarrow> 'k \<Rightarrow> 'v option" where
  "om_lookup m k = map_of m k"

fun om_insert :: "'k::linorder \<Rightarrow> 'v \<Rightarrow> ('k, 'v) omap \<Rightarrow> ('k, 'v) omap" where
  "om_insert k v [] = [(k, v)]"
| "om_insert k v ((k', v') # m) =
     (if k < k' then (k, v) # (k', v') # m
      else if k = k' then (k, v) # m
      else (k', v') # om_insert k v m)"

definition om_erase :: "'k \<Rightarrow> ('k, 'v) omap \<Rightarrow> ('k, 'v) omap" where
  "om_erase k m = filter (\<lambda>kv. fst kv \<noteq> k) m"

definition om_contains :: "('k, 'v) omap \<Rightarrow> 'k \<Rightarrow> bool" where
  "om_contains m k = (om_lookup m k \<noteq> None)"

definition om_wf :: "('k::linorder, 'v) omap \<Rightarrow> bool" where
  "om_wf m = sorted_wrt (<) (map fst m)"

lemma om_lookup_simps [simp]:
  "om_lookup [] k = None"
  "om_lookup ((k', v) # m) k = (if k' = k then Some v else om_lookup m k)"
  by (simp_all add: om_lookup_def)

lemma om_lookup_insert [simp, omap_simps]:
  "om_lookup (om_insert k v m) k' = (if k' = k then Some v else om_lookup m k')"
  by (induction m) auto

lemma om_lookup_erase [simp, omap_simps]:
  "om_lookup (om_erase k m) k' = (if k' = k then None else om_lookup m k')"
  by (induction m) (auto simp: om_erase_def)

lemma om_contains_iff: "om_contains m k \<longleftrightarrow> (\<exists>v. om_lookup m k = Some v)"
  by (auto simp: om_contains_def)

lemma om_insert_mem: "x \<in> set (om_insert k v m) \<Longrightarrow> x = (k, v) \<or> x \<in> set m"
  by (induction k v m rule: om_insert.induct) (auto split: if_splits)

lemma set_fst_om_insert [simp]: "fst ` set (om_insert k v m) = insert k (fst ` set m)"
  by (induction k v m rule: om_insert.induct) (simp_all add: insert_commute)

lemma om_wf_Nil [simp, intro]: "om_wf []"
  by (simp add: om_wf_def)

lemma om_wf_insert [simp, intro]: "om_wf m \<Longrightarrow> om_wf (om_insert k v m)"
  unfolding om_wf_def
proof (induction m)
  case (Cons a m)
  obtain k' v' where a: "a = (k', v')" by (cases a)
  have "set (map fst (om_insert k v m)) = insert k (set (map fst m))"
    by simp
  with Cons a show ?case by auto
qed simp

lemma om_wf_erase [simp, intro]: "om_wf m \<Longrightarrow> om_wf (om_erase k m)"
  unfolding om_wf_def om_erase_def
  by (induction m) auto

lemma om_wf_distinct: "om_wf m \<Longrightarrow> distinct (map fst m)"
  by (simp add: om_wf_def strict_sorted_iff)

lemma om_lookup_in_set: "om_lookup m k = Some v \<Longrightarrow> (k, v) \<in> set m"
  by (simp add: om_lookup_def map_of_SomeD)

lemma om_in_set_lookup: "om_wf m \<Longrightarrow> (k, v) \<in> set m \<Longrightarrow> om_lookup m k = Some v"
  by (simp add: om_lookup_def om_wf_distinct)

lemma om_in_set_iff: "om_wf m \<Longrightarrow> (k, v) \<in> set m \<longleftrightarrow> om_lookup m k = Some v"
  by (blast intro: om_lookup_in_set om_in_set_lookup)

lemma om_lookup_None_iff: "om_lookup m k = None \<longleftrightarrow> k \<notin> fst ` set m"
  by (simp add: om_lookup_def map_of_eq_None_iff)

lemma om_length_insert:
  "length (om_insert k v m) = (if om_contains m k then length m else Suc (length m))"
  if "om_wf m"
  using that
proof (induction m)
  case (Cons a m)
  obtain k' v' where a: "a = (k', v')" by (cases a)
  have wf: "om_wf m" using Cons.prems by (simp add: om_wf_def)
  have "k < k' \<Longrightarrow> om_lookup m k = None"
    using Cons.prems a by (force simp: om_wf_def om_lookup_None_iff)
  with Cons.IH [OF wf] a show ?case by (auto simp: om_contains_def)
qed (simp add: om_contains_def)

subsection \<open>The contract of a keyed store\<close>

text \<open>
  What the components rely on when they keep records in a \<open>std::map\<close>: a lookup after an update
  or an erase, and the well-formedness every update keeps.
\<close>

locale keyed_store =
  fixes look :: "'m \<Rightarrow> 'k \<Rightarrow> 'v option"
    and upd :: "'k \<Rightarrow> 'v \<Rightarrow> 'm \<Rightarrow> 'm"
    and del :: "'k \<Rightarrow> 'm \<Rightarrow> 'm"
    and wf :: "'m \<Rightarrow> bool"
  assumes look_upd: "look (upd k v m) k' = (if k' = k then Some v else look m k')"
    and look_del: "look (del k m) k' = (if k' = k then None else look m k')"
    and wf_upd: "wf m \<Longrightarrow> wf (upd k v m)"
    and wf_del: "wf m \<Longrightarrow> wf (del k m)"
begin

lemma upd_keeps: "k' \<noteq> k \<Longrightarrow> look (upd k v m) k' = look m k'"
  by (simp add: look_upd)

lemma all_upd:
  "(\<forall>k v. look m k = Some v \<longrightarrow> P k v) \<Longrightarrow> P k0 v0 \<Longrightarrow>
   look (upd k0 v0 m) k = Some v \<Longrightarrow> P k v"
  by (auto simp: look_upd split: if_splits)

lemma dom_upd: "dom (look (upd k v m)) = insert k (dom (look m))"
  by (auto simp: dom_def look_upd)

end

interpretation om: keyed_store om_lookup om_insert om_erase om_wf
  by unfold_locales auto

subsection \<open>Sums over ordered maps\<close>

definition om_sum :: "('k \<Rightarrow> 'v \<Rightarrow> nat) \<Rightarrow> ('k, 'v) omap \<Rightarrow> nat" where
  "om_sum f m = sum_list (map (\<lambda>kv. f (fst kv) (snd kv)) m)"

lemma om_sum_simps [simp]:
  "om_sum f [] = 0"
  "om_sum f ((k, v) # m) = f k v + om_sum f m"
  by (simp_all add: om_sum_def)

lemma om_sum_insert_new:
  "om_lookup m k = None \<Longrightarrow> om_sum f (om_insert k v m) = f k v + om_sum f m"
  by (induction m) (auto split: if_splits)

lemma om_sum_insert_old:
  assumes "om_wf m" and "om_lookup m k = Some v0"
  shows "om_sum f (om_insert k v m) + f k v0 = om_sum f m + f k v"
  using assms
proof (induction m)
  case (Cons a m)
  obtain k' v' where a: "a = (k', v')" by (cases a)
  have wf: "om_wf m" using Cons.prems by (simp add: om_wf_def)
  have "k < k' \<Longrightarrow> om_lookup m k = None"
    using Cons.prems(1) a by (force simp: om_wf_def om_lookup_None_iff)
  with Cons.IH [OF wf] Cons.prems(2) a show ?case by (auto split: if_splits)
qed simp

lemma om_sum_ge: "om_lookup m k = Some v \<Longrightarrow> f k v \<le> om_sum f m"
  by (induction m) (auto split: if_splits)

lemma om_sum_cong:
  "(\<And>k v. (k, v) \<in> set m \<Longrightarrow> f k v = g k v) \<Longrightarrow> om_sum f m = om_sum g m"
  unfolding om_sum_def by (rule arg_cong [where f = sum_list]) (rule map_cong, auto)

section \<open>State machines\<close>

text \<open>
  The states a component can be in: those its steps lead to from an initial state. An invariant is
  a predicate every initial state has and every step keeps.
\<close>

inductive reachable :: "('s \<Rightarrow> bool) \<Rightarrow> ('s \<Rightarrow> 's \<Rightarrow> bool) \<Rightarrow> 's \<Rightarrow> bool"
  for init :: "'s \<Rightarrow> bool" and step :: "'s \<Rightarrow> 's \<Rightarrow> bool" where
  reach_init: "init s \<Longrightarrow> reachable init step s"
| reach_step: "reachable init step s \<Longrightarrow> step s s' \<Longrightarrow> reachable init step s'"

locale invariant =
  fixes init :: "'s \<Rightarrow> bool" and step :: "'s \<Rightarrow> 's \<Rightarrow> bool" and inv :: "'s \<Rightarrow> bool"
  assumes init_inv: "init s \<Longrightarrow> inv s"
    and step_inv: "inv s \<Longrightarrow> step s s' \<Longrightarrow> inv s'"
begin

lemma always: "reachable init step s \<Longrightarrow> inv s"
  by (induction rule: reachable.induct) (auto intro: init_inv step_inv)

lemma always_step: "reachable init step s \<Longrightarrow> step s s' \<Longrightarrow> inv s \<and> inv s'"
  using always step_inv by blast

end

text \<open>
  A machine that implements another: each step of it is a step of the abstract one, seen through
  \<open>abs\<close>, or changes nothing there.
\<close>

locale simulation =
  fixes init :: "'s \<Rightarrow> bool" and step :: "'s \<Rightarrow> 's \<Rightarrow> bool"
    and ainit :: "'a \<Rightarrow> bool" and astep :: "'a \<Rightarrow> 'a \<Rightarrow> bool" and abs :: "'s \<Rightarrow> 'a"
  assumes sim_init: "init s \<Longrightarrow> ainit (abs s)"
    and sim_step: "step s s' \<Longrightarrow> abs s' = abs s \<or> astep (abs s) (abs s')"
begin

lemma sim_reach: "reachable init step s \<Longrightarrow> reachable ainit astep (abs s)"
proof (induction rule: reachable.induct)
  case (reach_step s s')
  from sim_step [OF reach_step(2)] reach_step.IH show ?case by (auto intro: reachable.reach_step)
qed (auto intro: reachable.reach_init sim_init)

end

text \<open>Work that uses up a rank ends: a run has no more steps than the rank it starts with.\<close>

locale ranked_work =
  fixes work :: "'s \<Rightarrow> 's \<Rightarrow> bool" and active :: "'s \<Rightarrow> bool" and rank :: "'s \<Rightarrow> nat"
  assumes work_rank: "work s s' \<Longrightarrow> active s \<Longrightarrow> rank s' < rank s \<and> active s'"
begin

lemma run_bounded: "(work ^^ n) s s' \<Longrightarrow> active s \<Longrightarrow> n + rank s' \<le> rank s \<and> active s'"
proof (induction n arbitrary: s')
  case (Suc n)
  then obtain s1 where s1: "(work ^^ n) s s1" "work s1 s'" by auto
  with Suc.IH [OF s1(1) Suc.prems(2)] work_rank [of s1 s'] show ?case by auto
qed simp

text \<open>Work can always be carried on until there is none left.\<close>

lemma run_to_rest: "active s \<Longrightarrow> \<exists>s'. work\<^sup>*\<^sup>* s s' \<and> (\<forall>s''. \<not> work s' s'')"
proof (induction "rank s" arbitrary: s rule: less_induct)
  case less
  show ?case
  proof (cases "\<exists>s1. work s s1")
    case True
    then obtain s1 where s1: "work s s1" by blast
    from less.hyps [of s1] work_rank [OF s1 less.prems] obtain s' where "work\<^sup>*\<^sup>* s1 s'" "\<forall>s''. \<not> work s' s''" by blast
    with s1 show ?thesis by (meson converse_rtranclp_into_rtranclp)
  qed blast
qed

end

section \<open>Lists\<close>

lemma takeWhile_nth_neq:
  "x \<in> set xs \<Longrightarrow> \<exists>ys zs. xs = ys @ x # zs \<and> x \<notin> set ys"
  by (rule split_list_first)

lemma drop_eq_append_length: "drop n xs = ys @ zs \<Longrightarrow> n \<le> length xs \<or> ys @ zs = []"
  by (cases "n \<le> length xs") auto

lemma nth_of_drop: "drop n xs = y # ys \<Longrightarrow> n < length xs \<and> xs ! n = y \<and> drop (Suc n) xs = ys"
  by (metis Cons_nth_drop_Suc drop_eq_Nil leI list.distinct(1) list.inject)

end
