(* ===== verification/PF_Ids.thy ===== *)
theory PF_Ids
  imports PF_Prelude
begin

text \<open>
  Strong identities and generations, \<open>include/pciefabric/ids.hpp\<close>. \<open>StrongId<Tag>\<close> and
  \<open>Generation<Tag>\<close> are datatypes with a phantom tag, so that the identities of different things
  have different types here as they do in the code; both are ordered by their value.
\<close>

datatype 'tag strong_id = StrongId (id_value: u64)
datatype 'tag generation = Generation (gen_value: u64)

text \<open>\<open>StrongId<Tag, std::uint32_t>\<close>.\<close>

datatype 'tag strong_id32 = StrongId32 (id32_value: u32)

datatype HostIdTag = HostIdTag
datatype PciDomainIdTag = PciDomainIdTag
datatype PciBusIdTag = PciBusIdTag
datatype PciDeviceIdTag = PciDeviceIdTag
datatype PciFunctionIdTag = PciFunctionIdTag
datatype PciBdfTag = PciBdfTag
datatype PciNodeIdTag = PciNodeIdTag
datatype RootComplexIdTag = RootComplexIdTag
datatype BridgeIdTag = BridgeIdTag
datatype EndpointIdTag = EndpointIdTag
datatype AcceleratorIdTag = AcceleratorIdTag
datatype NicIdTag = NicIdTag
datatype StorageDeviceIdTag = StorageDeviceIdTag
datatype MemoryDeviceIdTag = MemoryDeviceIdTag
datatype PathIdTag = PathIdTag
datatype LinkIdTag = LinkIdTag
datatype MeasurementIdTag = MeasurementIdTag
datatype ReservationIdTag = ReservationIdTag
datatype PolicyIdTag = PolicyIdTag
datatype WorkerIdTag = WorkerIdTag
datatype WorkerBootIdTag = WorkerBootIdTag
datatype CoordinatorEpochTag = CoordinatorEpochTag
datatype ObservationIdTag = ObservationIdTag
datatype AttemptIdTag = AttemptIdTag
datatype SourceIdTag = SourceIdTag
datatype SnapshotIdTag = SnapshotIdTag

type_synonym HostId = "HostIdTag strong_id"
type_synonym PciDomainId = "PciDomainIdTag strong_id"
type_synonym PciBusId = "PciBusIdTag strong_id32"
type_synonym PciDeviceId = "PciDeviceIdTag strong_id32"
type_synonym PciFunctionId = "PciFunctionIdTag strong_id32"
type_synonym PciBdf = "PciBdfTag strong_id"
type_synonym PciNodeId = "PciNodeIdTag strong_id"
type_synonym RootComplexId = "RootComplexIdTag strong_id"
type_synonym BridgeId = "BridgeIdTag strong_id"
type_synonym EndpointId = "EndpointIdTag strong_id"
type_synonym AcceleratorId = "AcceleratorIdTag strong_id"
type_synonym NicId = "NicIdTag strong_id"
type_synonym StorageDeviceId = "StorageDeviceIdTag strong_id"
type_synonym MemoryDeviceId = "MemoryDeviceIdTag strong_id"
type_synonym PathId = "PathIdTag strong_id"
type_synonym LinkId = "LinkIdTag strong_id"
type_synonym MeasurementId = "MeasurementIdTag strong_id"
type_synonym ReservationId = "ReservationIdTag strong_id"
type_synonym PolicyId = "PolicyIdTag strong_id"
type_synonym WorkerId = "WorkerIdTag strong_id"
type_synonym WorkerBootId = "WorkerBootIdTag strong_id"
type_synonym CoordinatorEpoch = "CoordinatorEpochTag strong_id"
type_synonym ObservationId = "ObservationIdTag strong_id"
type_synonym AttemptId = "AttemptIdTag strong_id"
type_synonym SourceId = "SourceIdTag strong_id"
type_synonym SnapshotId = "SnapshotIdTag strong_id"

datatype HostGenerationTag = HostGenerationTag
datatype PciNodeGenerationTag = PciNodeGenerationTag
datatype DeviceGenerationTag = DeviceGenerationTag
datatype AcceleratorGenerationTag = AcceleratorGenerationTag
datatype PathGenerationTag = PathGenerationTag
datatype LinkGenerationTag = LinkGenerationTag
datatype MeasurementGenerationTag = MeasurementGenerationTag
datatype ReservationGenerationTag = ReservationGenerationTag
datatype PolicyGenerationTag = PolicyGenerationTag
datatype ObservationGenerationTag = ObservationGenerationTag
datatype SourceGenerationTag = SourceGenerationTag

type_synonym HostGeneration = "HostGenerationTag generation"
type_synonym PciNodeGeneration = "PciNodeGenerationTag generation"
type_synonym DeviceGeneration = "DeviceGenerationTag generation"
type_synonym AcceleratorGeneration = "AcceleratorGenerationTag generation"
type_synonym PathGeneration = "PathGenerationTag generation"
type_synonym LinkGeneration = "LinkGenerationTag generation"
type_synonym MeasurementGeneration = "MeasurementGenerationTag generation"
type_synonym ReservationGeneration = "ReservationGenerationTag generation"
type_synonym PolicyGeneration = "PolicyGenerationTag generation"
type_synonym ObservationGeneration = "ObservationGenerationTag generation"
type_synonym SourceGeneration = "SourceGenerationTag generation"

section \<open>Order by value\<close>

instantiation strong_id :: (type) linorder
begin

definition less_eq_strong_id :: "'a strong_id \<Rightarrow> 'a strong_id \<Rightarrow> bool" where
  "less_eq_strong_id a b \<longleftrightarrow> id_value a \<le> id_value b"

definition less_strong_id :: "'a strong_id \<Rightarrow> 'a strong_id \<Rightarrow> bool" where
  "less_strong_id a b \<longleftrightarrow> id_value a < id_value b"

instance
  by standard (auto simp: less_eq_strong_id_def less_strong_id_def strong_id.expand)

end

instantiation generation :: (type) linorder
begin

definition less_eq_generation :: "'a generation \<Rightarrow> 'a generation \<Rightarrow> bool" where
  "less_eq_generation a b \<longleftrightarrow> gen_value a \<le> gen_value b"

definition less_generation :: "'a generation \<Rightarrow> 'a generation \<Rightarrow> bool" where
  "less_generation a b \<longleftrightarrow> gen_value a < gen_value b"

instance
  by standard (auto simp: less_eq_generation_def less_generation_def generation.expand)

end

lemma id_order_simps [simp]:
  "(StrongId a :: 't strong_id) < StrongId b \<longleftrightarrow> a < b"
  "(StrongId a :: 't strong_id) \<le> StrongId b \<longleftrightarrow> a \<le> b"
  "(Generation c :: 'g generation) < Generation d \<longleftrightarrow> c < d"
  "(Generation c :: 'g generation) \<le> Generation d \<longleftrightarrow> c \<le> d"
  by (simp_all add: less_strong_id_def less_eq_strong_id_def less_generation_def
      less_eq_generation_def)

section \<open>Operations\<close>

definition id_is_null :: "'tag strong_id \<Rightarrow> bool" where
  "id_is_null i = (id_value i = 0)"

definition id_valid :: "'tag strong_id \<Rightarrow> bool" where
  "id_valid i = (\<not> id_is_null i)"

definition gen_is_zero :: "'tag generation \<Rightarrow> bool" where
  "gen_is_zero g = (gen_value g = 0)"

text \<open>\<open>++generation\<close>: a 64-bit increment, which wraps at the top.\<close>

definition gen_inc :: "'tag generation \<Rightarrow> 'tag generation" where
  "gen_inc g = Generation (gen_value g + 1)"

lemma gen_inc_neq: "gen_inc g \<noteq> g"
  by (cases g) (simp add: gen_inc_def)

lemma gen_inc_greater: "gen_value g \<noteq> - 1 \<Longrightarrow> g < gen_inc g"
  by (cases g) (auto simp: gen_inc_def not_le [symmetric] dest: inc_less_eq_triv_imp)

section \<open>Printing and hashing\<close>

text \<open>\<open>std::to_string\<close> of a number.\<close>

fun dec_string :: "nat \<Rightarrow> string" where
  "dec_string n = (if n < 10 then [char_of (48 + n)] else dec_string (n div 10) @ [char_of (48 + n mod 10)])"

declare dec_string.simps [simp del]

definition id_to_string :: "'tag strong_id \<Rightarrow> string" where
  "id_to_string i = dec_string (unat (id_value i))"

text \<open>\<open>std::hash\<close> of the library's types is \<open>std::hash\<close> of the value, which is the argument \<open>h\<close>.\<close>

definition id_hash :: "(u64 \<Rightarrow> 'h) \<Rightarrow> 'tag strong_id \<Rightarrow> 'h" where
  "id_hash h i = h (id_value i)"

definition gen_hash :: "(u64 \<Rightarrow> 'h) \<Rightarrow> 'tag generation \<Rightarrow> 'h" where
  "gen_hash h g = h (gen_value g)"

text \<open>Distinct identities print differently, as they hash differently where the values do.\<close>

fun undecimal :: "string \<Rightarrow> nat \<Rightarrow> nat" where
  "undecimal [] acc = acc"
| "undecimal (c # s) acc = undecimal s (acc * 10 + (of_char c - 48))"

lemma undecimal_append: "undecimal (s @ s') acc = undecimal s' (undecimal s acc)"
  by (induction s acc rule: undecimal.induct) auto

lemma undecimal_dec_string: "undecimal (dec_string n) 0 = n"
proof (induction n rule: less_induct)
  case (less n)
  show ?case
  proof (cases "n < 10")
    case True
    then show ?thesis by (subst dec_string.simps) simp
  next
    case False
    then have "undecimal (dec_string (n div 10)) 0 = n div 10" by (intro less.IH) simp
    with False show ?thesis by (subst dec_string.simps) (simp add: undecimal_append)
  qed
qed

lemma id_to_string_inject: "id_to_string i = id_to_string j \<Longrightarrow> i = j"
proof -
  assume "id_to_string i = id_to_string j"
  then have "unat (id_value i) = unat (id_value j)"
    unfolding id_to_string_def by (metis undecimal_dec_string)
  then show "i = j" by (cases i; cases j) (simp add: word_unat_eq_iff)
qed

lemma id_hash_inject: "inj h \<Longrightarrow> id_hash h i = id_hash h j \<longleftrightarrow> i = j"
  by (auto simp: id_hash_def inj_eq strong_id.expand)

end
