(* ===== verification/PF_Enums.thy ===== *)
theory PF_Enums
  imports PF_Prelude
begin

text \<open>
  The semantic enums of \<open>include/pciefabric/enums.hpp\<close>. Each has the source's enumerators, its
  one-byte code, its name table and \<open>to_string\<close>. An enum whose values the code always checks
  with \<open>valid\<close> before it casts has exactly the named constructors; \<open>Provenance\<close>,
  \<open>DeviceClass\<close> and \<open>PcieGen\<close>, which the decoders also cast without a check, have one more
  constructor for a byte that is no enumerator (\<open>_raw\<close>), because a C++ enum with a fixed
  underlying type can hold any byte.

  The locale \<open>enum_table\<close> holds what every table of enumerators gives: coding and decoding are
  inverse, exactly the codes below the table's length are valid, and names are injective.
\<close>

section \<open>Tables of enumerators\<close>

definition enum_in_range :: "u8 \<Rightarrow> string list \<Rightarrow> bool" where
  "enum_in_range v names = (unat v < length names)"

definition enum_name :: "u8 \<Rightarrow> string list \<Rightarrow> string \<Rightarrow> string" where
  "enum_name v names fallback = (if unat v < length names then names ! unat v else fallback)"

definition enum_decode :: "'e list \<Rightarrow> u8 \<Rightarrow> 'e option" where
  "enum_decode es c = (if unat c < length es then Some (es ! unat c) else None)"

locale enum_table =
  fixes es :: "'e list" and code :: "'e \<Rightarrow> u8" and names :: "string list"
  assumes codes: "map code es = map of_nat [0..<length es]"
    and small: "length es \<le> 256"
    and names_length: "length names = length es"
    and names_distinct: "distinct names"
begin

lemma code_nth: "i < length es \<Longrightarrow> code (es ! i) = of_nat i"
proof -
  assume i: "i < length es"
  have "map code es ! i = map of_nat [0..<length es] ! i" by (simp only: codes)
  with i show ?thesis by simp
qed

lemma unat_code: "e \<in> set es \<Longrightarrow> unat (code e) < length es \<and> es ! unat (code e) = e"
proof -
  assume "e \<in> set es"
  then obtain i where i: "i < length es" "es ! i = e" by (auto simp: in_set_conv_nth)
  then have "code e = of_nat i" using code_nth by blast
  moreover have "i < 256" using i small by simp
  ultimately have "unat (code e) = i" by (simp add: unat_of_nat take_bit_nat_eq_self)
  with i show ?thesis by simp
qed

lemma decode_code: "e \<in> set es \<Longrightarrow> enum_decode es (code e) = Some e"
  using unat_code by (simp add: enum_decode_def)

lemma code_decode: "enum_decode es c = Some e \<Longrightarrow> code e = c"
  by (auto simp: enum_decode_def code_nth split: if_splits)

lemma decode_in_set: "enum_decode es c = Some e \<Longrightarrow> e \<in> set es"
  by (auto simp: enum_decode_def split: if_splits)

lemma decode_iff: "enum_decode es c = Some e \<longleftrightarrow> e \<in> set es \<and> code e = c"
  using decode_code code_decode decode_in_set by blast

lemma valid_iff: "enum_in_range c names \<longleftrightarrow> enum_decode es c \<noteq> None"
  by (simp add: enum_in_range_def enum_decode_def names_length)

lemma code_inj: "e \<in> set es \<Longrightarrow> e' \<in> set es \<Longrightarrow> code e = code e' \<Longrightarrow> e = e'"
  by (metis unat_code)

lemma name_inj:
  assumes e: "e \<in> set es" and e': "e' \<in> set es"
    and eq: "enum_name (code e) names f = enum_name (code e') names f"
  shows "e = e'"
proof -
  note l = unat_code [OF e, THEN conjunct1] and l' = unat_code [OF e', THEN conjunct1]
  have "names ! unat (code e) = names ! unat (code e')"
    using eq l l' by (simp add: enum_name_def names_length)
  then have "unat (code e) = unat (code e')"
    using nth_eq_iff_index_eq [OF names_distinct] l l' by (simp add: names_length)
  then show ?thesis by (metis unat_code e e')
qed

end

section \<open>\<open>Provenance\<close>\<close>

datatype Provenance =
    Prov_MEASURED | Prov_REPORTED | Prov_DERIVED | Prov_ESTIMATED | Prov_SYNTHETIC
     | Prov_UNKNOWN | Prov_raw u8

definition Provenance_all :: "Provenance list" where
  "Provenance_all = [
     Prov_MEASURED, Prov_REPORTED, Prov_DERIVED, Prov_ESTIMATED, Prov_SYNTHETIC
     , Prov_UNKNOWN]"

definition Provenance_code :: "Provenance \<Rightarrow> u8" where
  "Provenance_code x = (case x of
     Prov_MEASURED \<Rightarrow> 0 | Prov_REPORTED \<Rightarrow> 1
      | Prov_DERIVED \<Rightarrow> 2 | Prov_ESTIMATED \<Rightarrow> 3
      | Prov_SYNTHETIC \<Rightarrow> 4 | Prov_UNKNOWN \<Rightarrow> 5
      | Prov_raw c \<Rightarrow> c)"

definition kProvenanceNames :: "string list" where
  "kProvenanceNames = [
     ''MEASURED'', ''REPORTED'', ''DERIVED'', ''ESTIMATED'', ''SYNTHETIC'', ''UNKNOWN'']"

definition Provenance_valid :: "u8 \<Rightarrow> bool" where
  "Provenance_valid c = enum_in_range c kProvenanceNames"

definition Provenance_cast :: "u8 \<Rightarrow> Provenance" where
  "Provenance_cast c = (case enum_decode Provenance_all c of Some x \<Rightarrow> x | None \<Rightarrow> Prov_raw c)"

definition Provenance_to_string :: "Provenance \<Rightarrow> string" where
  "Provenance_to_string x = enum_name (Provenance_code x) kProvenanceNames ''UNKNOWN''"

interpretation provenance: enum_table Provenance_all Provenance_code kProvenanceNames
  by unfold_locales (simp_all add: Provenance_all_def Provenance_code_def kProvenanceNames_def upt_rec)

lemma Provenance_cast_code [simp]: "x \<in> set Provenance_all \<Longrightarrow> Provenance_cast (Provenance_code x) = x"
  by (simp add: Provenance_cast_def provenance.decode_code)

lemma Provenance_code_cast [simp]: "Provenance_code (Provenance_cast c) = c"
  by (auto simp: Provenance_cast_def Provenance_code_def [of "Prov_raw c"] dest: provenance.code_decode
      split: option.split)

section \<open>\<open>Freshness\<close>\<close>

datatype Freshness =
    Fresh_CURRENT | Fresh_AGING | Fresh_STALE | Fresh_REVALIDATION_REQUIRED | Fresh_INVALID

definition Freshness_all :: "Freshness list" where
  "Freshness_all = [
     Fresh_CURRENT, Fresh_AGING, Fresh_STALE, Fresh_REVALIDATION_REQUIRED, Fresh_INVALID]"

definition Freshness_code :: "Freshness \<Rightarrow> u8" where
  "Freshness_code x = (case x of
     Fresh_CURRENT \<Rightarrow> 0 | Fresh_AGING \<Rightarrow> 1
      | Fresh_STALE \<Rightarrow> 2 | Fresh_REVALIDATION_REQUIRED \<Rightarrow> 3
      | Fresh_INVALID \<Rightarrow> 4)"

definition kFreshnessNames :: "string list" where
  "kFreshnessNames = [
     ''CURRENT'', ''AGING'', ''STALE'', ''REVALIDATION_REQUIRED'', ''INVALID'']"

definition Freshness_valid :: "u8 \<Rightarrow> bool" where
  "Freshness_valid c = enum_in_range c kFreshnessNames"

definition Freshness_decode :: "u8 \<Rightarrow> Freshness option" where
  "Freshness_decode c = enum_decode Freshness_all c"

definition Freshness_to_string :: "Freshness \<Rightarrow> string" where
  "Freshness_to_string x = enum_name (Freshness_code x) kFreshnessNames ''INVALID''"

interpretation freshness: enum_table Freshness_all Freshness_code kFreshnessNames
  by unfold_locales (simp_all add: Freshness_all_def Freshness_code_def kFreshnessNames_def upt_rec)

lemma Freshness_all_UNIV [simp]: "x \<in> set Freshness_all"
  by (cases x) (simp_all add: Freshness_all_def)

lemma Freshness_decode_code [simp]: "Freshness_decode (Freshness_code x) = Some x"
  by (simp add: Freshness_decode_def freshness.decode_code)

lemma Freshness_decode_Some: "Freshness_decode c = Some x \<Longrightarrow> Freshness_code x = c"
  by (simp add: Freshness_decode_def freshness.code_decode)

lemma Freshness_valid_iff: "Freshness_valid c \<longleftrightarrow> Freshness_decode c \<noteq> None"
  by (simp add: Freshness_valid_def Freshness_decode_def freshness.valid_iff)

section \<open>\<open>LocalityClass\<close>\<close>

datatype LocalityClass =
    Loc_SAME_ENDPOINT | Loc_SAME_SWITCH | Loc_SAME_ROOT_COMPLEX | Loc_SAME_NUMA_DOMAIN
     | Loc_SAME_HOST_REMOTE_ROOT | Loc_CROSS_NUMA | Loc_UNKNOWN | Loc_SYNTHETIC

definition LocalityClass_all :: "LocalityClass list" where
  "LocalityClass_all = [
     Loc_SAME_ENDPOINT, Loc_SAME_SWITCH, Loc_SAME_ROOT_COMPLEX, Loc_SAME_NUMA_DOMAIN
     , Loc_SAME_HOST_REMOTE_ROOT, Loc_CROSS_NUMA, Loc_UNKNOWN, Loc_SYNTHETIC]"

definition LocalityClass_code :: "LocalityClass \<Rightarrow> u8" where
  "LocalityClass_code x = (case x of
     Loc_SAME_ENDPOINT \<Rightarrow> 0 | Loc_SAME_SWITCH \<Rightarrow> 1
      | Loc_SAME_ROOT_COMPLEX \<Rightarrow> 2 | Loc_SAME_NUMA_DOMAIN \<Rightarrow> 3
      | Loc_SAME_HOST_REMOTE_ROOT \<Rightarrow> 4 | Loc_CROSS_NUMA \<Rightarrow> 5
      | Loc_UNKNOWN \<Rightarrow> 6 | Loc_SYNTHETIC \<Rightarrow> 7)"

definition kLocalityNames :: "string list" where
  "kLocalityNames = [
     ''SAME_ENDPOINT'', ''SAME_SWITCH'', ''SAME_ROOT_COMPLEX'', ''SAME_NUMA_DOMAIN''
     , ''SAME_HOST_REMOTE_ROOT'', ''CROSS_NUMA'', ''UNKNOWN'', ''SYNTHETIC'']"

definition LocalityClass_valid :: "u8 \<Rightarrow> bool" where
  "LocalityClass_valid c = enum_in_range c kLocalityNames"

definition LocalityClass_decode :: "u8 \<Rightarrow> LocalityClass option" where
  "LocalityClass_decode c = enum_decode LocalityClass_all c"

definition LocalityClass_to_string :: "LocalityClass \<Rightarrow> string" where
  "LocalityClass_to_string x = enum_name (LocalityClass_code x) kLocalityNames ''UNKNOWN''"

interpretation localityClass: enum_table LocalityClass_all LocalityClass_code kLocalityNames
  by unfold_locales (simp_all add: LocalityClass_all_def LocalityClass_code_def kLocalityNames_def upt_rec)

lemma LocalityClass_all_UNIV [simp]: "x \<in> set LocalityClass_all"
  by (cases x) (simp_all add: LocalityClass_all_def)

lemma LocalityClass_decode_code [simp]: "LocalityClass_decode (LocalityClass_code x) = Some x"
  by (simp add: LocalityClass_decode_def localityClass.decode_code)

lemma LocalityClass_decode_Some: "LocalityClass_decode c = Some x \<Longrightarrow> LocalityClass_code x = c"
  by (simp add: LocalityClass_decode_def localityClass.code_decode)

lemma LocalityClass_valid_iff: "LocalityClass_valid c \<longleftrightarrow> LocalityClass_decode c \<noteq> None"
  by (simp add: LocalityClass_valid_def LocalityClass_decode_def localityClass.valid_iff)

section \<open>\<open>PathClass\<close>\<close>

datatype PathClass =
    PC_ENDPOINT_TO_HOST | PC_HOST_TO_ENDPOINT | PC_ENDPOINT_TO_ENDPOINT
     | PC_ACCELERATOR_TO_HOST | PC_HOST_TO_ACCELERATOR | PC_ACCELERATOR_TO_NIC
     | PC_ACCELERATOR_TO_STORAGE | PC_NIC_TO_ACCELERATOR | PC_STORAGE_TO_ACCELERATOR
     | PC_PEER_ENDPOINT_PATH | PC_UNKNOWN

definition PathClass_all :: "PathClass list" where
  "PathClass_all = [
     PC_ENDPOINT_TO_HOST, PC_HOST_TO_ENDPOINT, PC_ENDPOINT_TO_ENDPOINT
     , PC_ACCELERATOR_TO_HOST, PC_HOST_TO_ACCELERATOR, PC_ACCELERATOR_TO_NIC
     , PC_ACCELERATOR_TO_STORAGE, PC_NIC_TO_ACCELERATOR, PC_STORAGE_TO_ACCELERATOR
     , PC_PEER_ENDPOINT_PATH, PC_UNKNOWN]"

definition PathClass_code :: "PathClass \<Rightarrow> u8" where
  "PathClass_code x = (case x of
     PC_ENDPOINT_TO_HOST \<Rightarrow> 0 | PC_HOST_TO_ENDPOINT \<Rightarrow> 1
      | PC_ENDPOINT_TO_ENDPOINT \<Rightarrow> 2 | PC_ACCELERATOR_TO_HOST \<Rightarrow> 3
      | PC_HOST_TO_ACCELERATOR \<Rightarrow> 4 | PC_ACCELERATOR_TO_NIC \<Rightarrow> 5
      | PC_ACCELERATOR_TO_STORAGE \<Rightarrow> 6 | PC_NIC_TO_ACCELERATOR \<Rightarrow> 7
      | PC_STORAGE_TO_ACCELERATOR \<Rightarrow> 8 | PC_PEER_ENDPOINT_PATH \<Rightarrow> 9
      | PC_UNKNOWN \<Rightarrow> 10)"

definition kPathClassNames :: "string list" where
  "kPathClassNames = [
     ''ENDPOINT_TO_HOST'', ''HOST_TO_ENDPOINT'', ''ENDPOINT_TO_ENDPOINT''
     , ''ACCELERATOR_TO_HOST'', ''HOST_TO_ACCELERATOR'', ''ACCELERATOR_TO_NIC''
     , ''ACCELERATOR_TO_STORAGE'', ''NIC_TO_ACCELERATOR'', ''STORAGE_TO_ACCELERATOR''
     , ''PEER_ENDPOINT_PATH'', ''UNKNOWN'']"

definition PathClass_valid :: "u8 \<Rightarrow> bool" where
  "PathClass_valid c = enum_in_range c kPathClassNames"

definition PathClass_decode :: "u8 \<Rightarrow> PathClass option" where
  "PathClass_decode c = enum_decode PathClass_all c"

definition PathClass_to_string :: "PathClass \<Rightarrow> string" where
  "PathClass_to_string x = enum_name (PathClass_code x) kPathClassNames ''UNKNOWN''"

interpretation pathClass: enum_table PathClass_all PathClass_code kPathClassNames
  by unfold_locales (simp_all add: PathClass_all_def PathClass_code_def kPathClassNames_def upt_rec)

lemma PathClass_all_UNIV [simp]: "x \<in> set PathClass_all"
  by (cases x) (simp_all add: PathClass_all_def)

lemma PathClass_decode_code [simp]: "PathClass_decode (PathClass_code x) = Some x"
  by (simp add: PathClass_decode_def pathClass.decode_code)

lemma PathClass_decode_Some: "PathClass_decode c = Some x \<Longrightarrow> PathClass_code x = c"
  by (simp add: PathClass_decode_def pathClass.code_decode)

lemma PathClass_valid_iff: "PathClass_valid c \<longleftrightarrow> PathClass_decode c \<noteq> None"
  by (simp add: PathClass_valid_def PathClass_decode_def pathClass.valid_iff)

section \<open>\<open>ContentionState\<close>\<close>

datatype ContentionState =
    Cont_UNKNOWN | Cont_IDLE | Cont_LOW | Cont_MODERATE | Cont_HIGH | Cont_SATURATED

definition ContentionState_all :: "ContentionState list" where
  "ContentionState_all = [
     Cont_UNKNOWN, Cont_IDLE, Cont_LOW, Cont_MODERATE, Cont_HIGH, Cont_SATURATED]"

definition ContentionState_code :: "ContentionState \<Rightarrow> u8" where
  "ContentionState_code x = (case x of
     Cont_UNKNOWN \<Rightarrow> 0 | Cont_IDLE \<Rightarrow> 1 | Cont_LOW \<Rightarrow> 2
      | Cont_MODERATE \<Rightarrow> 3 | Cont_HIGH \<Rightarrow> 4
      | Cont_SATURATED \<Rightarrow> 5)"

definition kContentionNames :: "string list" where
  "kContentionNames = [
     ''UNKNOWN'', ''IDLE'', ''LOW'', ''MODERATE'', ''HIGH'', ''SATURATED'']"

definition ContentionState_valid :: "u8 \<Rightarrow> bool" where
  "ContentionState_valid c = enum_in_range c kContentionNames"

definition ContentionState_decode :: "u8 \<Rightarrow> ContentionState option" where
  "ContentionState_decode c = enum_decode ContentionState_all c"

definition ContentionState_to_string :: "ContentionState \<Rightarrow> string" where
  "ContentionState_to_string x = enum_name (ContentionState_code x) kContentionNames ''UNKNOWN''"

interpretation contentionState: enum_table ContentionState_all ContentionState_code kContentionNames
  by unfold_locales (simp_all add: ContentionState_all_def ContentionState_code_def kContentionNames_def upt_rec)

lemma ContentionState_all_UNIV [simp]: "x \<in> set ContentionState_all"
  by (cases x) (simp_all add: ContentionState_all_def)

lemma ContentionState_decode_code [simp]: "ContentionState_decode (ContentionState_code x) = Some x"
  by (simp add: ContentionState_decode_def contentionState.decode_code)

lemma ContentionState_decode_Some: "ContentionState_decode c = Some x \<Longrightarrow> ContentionState_code x = c"
  by (simp add: ContentionState_decode_def contentionState.code_decode)

lemma ContentionState_valid_iff: "ContentionState_valid c \<longleftrightarrow> ContentionState_decode c \<noteq> None"
  by (simp add: ContentionState_valid_def ContentionState_decode_def contentionState.valid_iff)

section \<open>\<open>Decision\<close>\<close>

datatype Decision =
    Dec_USE_PATH | Dec_USE_PATH_WITH_PENALTY | Dec_RESERVE_PATH | Dec_DEFER | Dec_REJECT
     | Dec_REVALIDATION_REQUIRED

definition Decision_all :: "Decision list" where
  "Decision_all = [
     Dec_USE_PATH, Dec_USE_PATH_WITH_PENALTY, Dec_RESERVE_PATH, Dec_DEFER, Dec_REJECT
     , Dec_REVALIDATION_REQUIRED]"

definition Decision_code :: "Decision \<Rightarrow> u8" where
  "Decision_code x = (case x of
     Dec_USE_PATH \<Rightarrow> 0 | Dec_USE_PATH_WITH_PENALTY \<Rightarrow> 1
      | Dec_RESERVE_PATH \<Rightarrow> 2 | Dec_DEFER \<Rightarrow> 3
      | Dec_REJECT \<Rightarrow> 4 | Dec_REVALIDATION_REQUIRED \<Rightarrow> 5)"

definition kDecisionNames :: "string list" where
  "kDecisionNames = [
     ''USE_PATH'', ''USE_PATH_WITH_PENALTY'', ''RESERVE_PATH'', ''DEFER'', ''REJECT''
     , ''REVALIDATION_REQUIRED'']"

definition Decision_valid :: "u8 \<Rightarrow> bool" where
  "Decision_valid c = enum_in_range c kDecisionNames"

definition Decision_decode :: "u8 \<Rightarrow> Decision option" where
  "Decision_decode c = enum_decode Decision_all c"

definition Decision_to_string :: "Decision \<Rightarrow> string" where
  "Decision_to_string x = enum_name (Decision_code x) kDecisionNames ''REJECT''"

interpretation decision: enum_table Decision_all Decision_code kDecisionNames
  by unfold_locales (simp_all add: Decision_all_def Decision_code_def kDecisionNames_def upt_rec)

lemma Decision_all_UNIV [simp]: "x \<in> set Decision_all"
  by (cases x) (simp_all add: Decision_all_def)

lemma Decision_decode_code [simp]: "Decision_decode (Decision_code x) = Some x"
  by (simp add: Decision_decode_def decision.decode_code)

lemma Decision_decode_Some: "Decision_decode c = Some x \<Longrightarrow> Decision_code x = c"
  by (simp add: Decision_decode_def decision.code_decode)

lemma Decision_valid_iff: "Decision_valid c \<longleftrightarrow> Decision_decode c \<noteq> None"
  by (simp add: Decision_valid_def Decision_decode_def decision.valid_iff)

section \<open>\<open>DeviceClass\<close>\<close>

datatype DeviceClass =
    Dev_UNKNOWN | Dev_OTHER | Dev_ACCELERATOR | Dev_NIC | Dev_STORAGE | Dev_MEMORY
     | Dev_BRIDGE | Dev_ROOT_PORT | Dev_ROOT_COMPLEX | Dev_SWITCH | Dev_HOST_BRIDGE
     | Dev_raw u8

definition DeviceClass_all :: "DeviceClass list" where
  "DeviceClass_all = [
     Dev_UNKNOWN, Dev_OTHER, Dev_ACCELERATOR, Dev_NIC, Dev_STORAGE, Dev_MEMORY, Dev_BRIDGE
     , Dev_ROOT_PORT, Dev_ROOT_COMPLEX, Dev_SWITCH, Dev_HOST_BRIDGE]"

definition DeviceClass_code :: "DeviceClass \<Rightarrow> u8" where
  "DeviceClass_code x = (case x of
     Dev_UNKNOWN \<Rightarrow> 0 | Dev_OTHER \<Rightarrow> 1
      | Dev_ACCELERATOR \<Rightarrow> 2 | Dev_NIC \<Rightarrow> 3
      | Dev_STORAGE \<Rightarrow> 4 | Dev_MEMORY \<Rightarrow> 5
      | Dev_BRIDGE \<Rightarrow> 6 | Dev_ROOT_PORT \<Rightarrow> 7
      | Dev_ROOT_COMPLEX \<Rightarrow> 8 | Dev_SWITCH \<Rightarrow> 9
      | Dev_HOST_BRIDGE \<Rightarrow> 10 | Dev_raw c \<Rightarrow> c)"

definition kDeviceClassNames :: "string list" where
  "kDeviceClassNames = [
     ''UNKNOWN'', ''OTHER'', ''ACCELERATOR'', ''NIC'', ''STORAGE'', ''MEMORY'', ''BRIDGE''
     , ''ROOT_PORT'', ''ROOT_COMPLEX'', ''SWITCH'', ''HOST_BRIDGE'']"

definition DeviceClass_valid :: "u8 \<Rightarrow> bool" where
  "DeviceClass_valid c = enum_in_range c kDeviceClassNames"

definition DeviceClass_cast :: "u8 \<Rightarrow> DeviceClass" where
  "DeviceClass_cast c = (case enum_decode DeviceClass_all c of Some x \<Rightarrow> x | None \<Rightarrow> Dev_raw c)"

definition DeviceClass_to_string :: "DeviceClass \<Rightarrow> string" where
  "DeviceClass_to_string x = enum_name (DeviceClass_code x) kDeviceClassNames ''UNKNOWN''"

interpretation deviceClass: enum_table DeviceClass_all DeviceClass_code kDeviceClassNames
  by unfold_locales (simp_all add: DeviceClass_all_def DeviceClass_code_def kDeviceClassNames_def upt_rec)

lemma DeviceClass_cast_code [simp]: "x \<in> set DeviceClass_all \<Longrightarrow> DeviceClass_cast (DeviceClass_code x) = x"
  by (simp add: DeviceClass_cast_def deviceClass.decode_code)

lemma DeviceClass_code_cast [simp]: "DeviceClass_code (DeviceClass_cast c) = c"
  by (auto simp: DeviceClass_cast_def DeviceClass_code_def [of "Dev_raw c"] dest: deviceClass.code_decode
      split: option.split)

section \<open>\<open>PcieGen\<close>\<close>

datatype PcieGen =
    Gen_UNKNOWN | Gen_GEN1 | Gen_GEN2 | Gen_GEN3 | Gen_GEN4 | Gen_GEN5 | Gen_GEN6
     | Gen_raw u8

definition PcieGen_all :: "PcieGen list" where
  "PcieGen_all = [
     Gen_UNKNOWN, Gen_GEN1, Gen_GEN2, Gen_GEN3, Gen_GEN4, Gen_GEN5, Gen_GEN6]"

definition PcieGen_code :: "PcieGen \<Rightarrow> u8" where
  "PcieGen_code x = (case x of
     Gen_UNKNOWN \<Rightarrow> 0 | Gen_GEN1 \<Rightarrow> 1 | Gen_GEN2 \<Rightarrow> 2
      | Gen_GEN3 \<Rightarrow> 3 | Gen_GEN4 \<Rightarrow> 4 | Gen_GEN5 \<Rightarrow> 5
      | Gen_GEN6 \<Rightarrow> 6 | Gen_raw c \<Rightarrow> c)"

definition kPcieGenNames :: "string list" where
  "kPcieGenNames = [
     ''UNKNOWN'', ''GEN1'', ''GEN2'', ''GEN3'', ''GEN4'', ''GEN5'', ''GEN6'']"

definition PcieGen_valid :: "u8 \<Rightarrow> bool" where
  "PcieGen_valid c = enum_in_range c kPcieGenNames"

definition PcieGen_cast :: "u8 \<Rightarrow> PcieGen" where
  "PcieGen_cast c = (case enum_decode PcieGen_all c of Some x \<Rightarrow> x | None \<Rightarrow> Gen_raw c)"

definition PcieGen_to_string :: "PcieGen \<Rightarrow> string" where
  "PcieGen_to_string x = enum_name (PcieGen_code x) kPcieGenNames ''UNKNOWN''"

interpretation pcieGen: enum_table PcieGen_all PcieGen_code kPcieGenNames
  by unfold_locales (simp_all add: PcieGen_all_def PcieGen_code_def kPcieGenNames_def upt_rec)

lemma PcieGen_cast_code [simp]: "x \<in> set PcieGen_all \<Longrightarrow> PcieGen_cast (PcieGen_code x) = x"
  by (simp add: PcieGen_cast_def pcieGen.decode_code)

lemma PcieGen_code_cast [simp]: "PcieGen_code (PcieGen_cast c) = c"
  by (auto simp: PcieGen_cast_def PcieGen_code_def [of "Gen_raw c"] dest: pcieGen.code_decode
      split: option.split)

section \<open>\<open>EngineKind\<close>\<close>

datatype EngineKind =
    Eng_NONE | Eng_CUDA | Eng_SYNTHETIC | Eng_WINDOWS | Eng_COORDINATOR

definition EngineKind_all :: "EngineKind list" where
  "EngineKind_all = [
     Eng_NONE, Eng_CUDA, Eng_SYNTHETIC, Eng_WINDOWS, Eng_COORDINATOR]"

definition EngineKind_code :: "EngineKind \<Rightarrow> u8" where
  "EngineKind_code x = (case x of
     Eng_NONE \<Rightarrow> 0 | Eng_CUDA \<Rightarrow> 1 | Eng_SYNTHETIC \<Rightarrow> 2
      | Eng_WINDOWS \<Rightarrow> 3 | Eng_COORDINATOR \<Rightarrow> 4)"

definition kEngineNames :: "string list" where
  "kEngineNames = [
     ''NONE'', ''CUDA'', ''SYNTHETIC'', ''WINDOWS'', ''COORDINATOR'']"

definition EngineKind_valid :: "u8 \<Rightarrow> bool" where
  "EngineKind_valid c = enum_in_range c kEngineNames"

definition EngineKind_decode :: "u8 \<Rightarrow> EngineKind option" where
  "EngineKind_decode c = enum_decode EngineKind_all c"

definition EngineKind_to_string :: "EngineKind \<Rightarrow> string" where
  "EngineKind_to_string x = enum_name (EngineKind_code x) kEngineNames ''NONE''"

interpretation engineKind: enum_table EngineKind_all EngineKind_code kEngineNames
  by unfold_locales (simp_all add: EngineKind_all_def EngineKind_code_def kEngineNames_def upt_rec)

lemma EngineKind_all_UNIV [simp]: "x \<in> set EngineKind_all"
  by (cases x) (simp_all add: EngineKind_all_def)

lemma EngineKind_decode_code [simp]: "EngineKind_decode (EngineKind_code x) = Some x"
  by (simp add: EngineKind_decode_def engineKind.decode_code)

lemma EngineKind_decode_Some: "EngineKind_decode c = Some x \<Longrightarrow> EngineKind_code x = c"
  by (simp add: EngineKind_decode_def engineKind.code_decode)

lemma EngineKind_valid_iff: "EngineKind_valid c \<longleftrightarrow> EngineKind_decode c \<noteq> None"
  by (simp add: EngineKind_valid_def EngineKind_decode_def engineKind.valid_iff)

section \<open>\<open>TransferClass\<close>\<close>

datatype TransferClass =
    TC_UNKNOWN | TC_PAGEABLE_H2D | TC_PAGEABLE_D2H | TC_PINNED_H2D | TC_PINNED_D2H
     | TC_SYNCHRONOUS_COPY | TC_KERNEL_LAUNCH

definition TransferClass_all :: "TransferClass list" where
  "TransferClass_all = [
     TC_UNKNOWN, TC_PAGEABLE_H2D, TC_PAGEABLE_D2H, TC_PINNED_H2D, TC_PINNED_D2H
     , TC_SYNCHRONOUS_COPY, TC_KERNEL_LAUNCH]"

definition TransferClass_code :: "TransferClass \<Rightarrow> u8" where
  "TransferClass_code x = (case x of
     TC_UNKNOWN \<Rightarrow> 0 | TC_PAGEABLE_H2D \<Rightarrow> 1
      | TC_PAGEABLE_D2H \<Rightarrow> 2 | TC_PINNED_H2D \<Rightarrow> 3
      | TC_PINNED_D2H \<Rightarrow> 4 | TC_SYNCHRONOUS_COPY \<Rightarrow> 5
      | TC_KERNEL_LAUNCH \<Rightarrow> 6)"

definition kTransferClassNames :: "string list" where
  "kTransferClassNames = [
     ''UNKNOWN'', ''PAGEABLE_H2D'', ''PAGEABLE_D2H'', ''PINNED_H2D'', ''PINNED_D2H''
     , ''SYNCHRONOUS_COPY'', ''KERNEL_LAUNCH'']"

definition TransferClass_valid :: "u8 \<Rightarrow> bool" where
  "TransferClass_valid c = enum_in_range c kTransferClassNames"

definition TransferClass_decode :: "u8 \<Rightarrow> TransferClass option" where
  "TransferClass_decode c = enum_decode TransferClass_all c"

definition TransferClass_to_string :: "TransferClass \<Rightarrow> string" where
  "TransferClass_to_string x = enum_name (TransferClass_code x) kTransferClassNames ''UNKNOWN''"

interpretation transferClass: enum_table TransferClass_all TransferClass_code kTransferClassNames
  by unfold_locales (simp_all add: TransferClass_all_def TransferClass_code_def kTransferClassNames_def upt_rec)

lemma TransferClass_all_UNIV [simp]: "x \<in> set TransferClass_all"
  by (cases x) (simp_all add: TransferClass_all_def)

lemma TransferClass_decode_code [simp]: "TransferClass_decode (TransferClass_code x) = Some x"
  by (simp add: TransferClass_decode_def transferClass.decode_code)

lemma TransferClass_decode_Some: "TransferClass_decode c = Some x \<Longrightarrow> TransferClass_code x = c"
  by (simp add: TransferClass_decode_def transferClass.code_decode)

lemma TransferClass_valid_iff: "TransferClass_valid c \<longleftrightarrow> TransferClass_decode c \<noteq> None"
  by (simp add: TransferClass_valid_def TransferClass_decode_def transferClass.valid_iff)

section \<open>\<open>AuthorityKind\<close>\<close>

datatype AuthorityKind =
    Auth_COORDINATOR_EPOCH | Auth_WORKER_BOOT | Auth_HOST_GENERATION | Auth_PCI_NODE_GENERATION
  | Auth_DEVICE_GENERATION | Auth_PATH_GENERATION | Auth_LINK_GENERATION | Auth_MEASUREMENT_GENERATION
  | Auth_RESERVATION_GENERATION | Auth_POLICY_GENERATION | Auth_ATTEMPT

definition AuthorityKind_all :: "AuthorityKind list" where
  "AuthorityKind_all = [
     Auth_COORDINATOR_EPOCH, Auth_WORKER_BOOT, Auth_HOST_GENERATION, Auth_PCI_NODE_GENERATION,
     Auth_DEVICE_GENERATION, Auth_PATH_GENERATION, Auth_LINK_GENERATION, Auth_MEASUREMENT_GENERATION,
     Auth_RESERVATION_GENERATION, Auth_POLICY_GENERATION, Auth_ATTEMPT]"

definition AuthorityKind_code :: "AuthorityKind \<Rightarrow> u8" where
  "AuthorityKind_code x = (case x of
     Auth_COORDINATOR_EPOCH \<Rightarrow> 0
   | Auth_WORKER_BOOT \<Rightarrow> 1
   | Auth_HOST_GENERATION \<Rightarrow> 2
   | Auth_PCI_NODE_GENERATION \<Rightarrow> 3
   | Auth_DEVICE_GENERATION \<Rightarrow> 4
   | Auth_PATH_GENERATION \<Rightarrow> 5
   | Auth_LINK_GENERATION \<Rightarrow> 6
   | Auth_MEASUREMENT_GENERATION \<Rightarrow> 7
   | Auth_RESERVATION_GENERATION \<Rightarrow> 8
   | Auth_POLICY_GENERATION \<Rightarrow> 9
   | Auth_ATTEMPT \<Rightarrow> 10)"

definition kAuthorityNames :: "string list" where
  "kAuthorityNames = [
     ''COORDINATOR_EPOCH'', ''WORKER_BOOT'', ''HOST_GENERATION'', ''PCI_NODE_GENERATION'',
     ''DEVICE_GENERATION'', ''PATH_GENERATION'', ''LINK_GENERATION'', ''MEASUREMENT_GENERATION'',
     ''RESERVATION_GENERATION'', ''POLICY_GENERATION'', ''ATTEMPT'']"

definition AuthorityKind_valid :: "u8 \<Rightarrow> bool" where
  "AuthorityKind_valid c = enum_in_range c kAuthorityNames"

definition AuthorityKind_decode :: "u8 \<Rightarrow> AuthorityKind option" where
  "AuthorityKind_decode c = enum_decode AuthorityKind_all c"

definition AuthorityKind_to_string :: "AuthorityKind \<Rightarrow> string" where
  "AuthorityKind_to_string x = enum_name (AuthorityKind_code x) kAuthorityNames ''ATTEMPT''"

interpretation authorityKind: enum_table AuthorityKind_all AuthorityKind_code kAuthorityNames
  by unfold_locales (simp_all add: AuthorityKind_all_def AuthorityKind_code_def kAuthorityNames_def upt_rec)

lemma AuthorityKind_all_UNIV [simp]: "x \<in> set AuthorityKind_all"
  by (cases x) (simp_all add: AuthorityKind_all_def)

lemma AuthorityKind_decode_code [simp]: "AuthorityKind_decode (AuthorityKind_code x) = Some x"
  by (simp add: AuthorityKind_decode_def authorityKind.decode_code)

lemma AuthorityKind_valid_iff: "AuthorityKind_valid c \<longleftrightarrow> AuthorityKind_decode c \<noteq> None"
  by (simp add: AuthorityKind_valid_def AuthorityKind_decode_def authorityKind.valid_iff)

section \<open>\<open>Capability\<close>\<close>

datatype Capability =
    Cap_PEER_ACCESS | Cap_GPUDIRECT | Cap_PEER_MEMORY | Cap_TRANSPORT_OFFLOAD | Cap_SR_IOV
     | Cap_ARI | Cap_ACS | Cap_RESIZABLE_BAR | Cap_DIRECT_PATH

definition Capability_all :: "Capability list" where
  "Capability_all = [
     Cap_PEER_ACCESS, Cap_GPUDIRECT, Cap_PEER_MEMORY, Cap_TRANSPORT_OFFLOAD, Cap_SR_IOV
     , Cap_ARI, Cap_ACS, Cap_RESIZABLE_BAR, Cap_DIRECT_PATH]"

definition Capability_code :: "Capability \<Rightarrow> u8" where
  "Capability_code x = (case x of
     Cap_PEER_ACCESS \<Rightarrow> 0 | Cap_GPUDIRECT \<Rightarrow> 1
      | Cap_PEER_MEMORY \<Rightarrow> 2 | Cap_TRANSPORT_OFFLOAD \<Rightarrow> 3
      | Cap_SR_IOV \<Rightarrow> 4 | Cap_ARI \<Rightarrow> 5 | Cap_ACS \<Rightarrow> 6
      | Cap_RESIZABLE_BAR \<Rightarrow> 7 | Cap_DIRECT_PATH \<Rightarrow> 8)"

definition kCapabilityNames :: "string list" where
  "kCapabilityNames = [
     ''PEER_ACCESS'', ''GPUDIRECT'', ''PEER_MEMORY'', ''TRANSPORT_OFFLOAD'', ''SR_IOV''
     , ''ARI'', ''ACS'', ''RESIZABLE_BAR'', ''DIRECT_PATH'']"

definition Capability_to_string :: "Capability \<Rightarrow> string" where
  "Capability_to_string x = enum_name (Capability_code x) kCapabilityNames ''DIRECT_PATH''"

interpretation capability: enum_table Capability_all Capability_code kCapabilityNames
  by unfold_locales (simp_all add: Capability_all_def Capability_code_def kCapabilityNames_def upt_rec)

lemma Capability_all_UNIV [simp]: "x \<in> set Capability_all"
  by (cases x) (simp_all add: Capability_all_def)

end
