(* ===== verification/PF_Binary64.thy ===== *)
theory PF_Binary64
  imports PF_Prelude
begin

text \<open>
  C++ \<open>double\<close> as IEEE-754 binary64, the representation every target of the program uses: a
  value of type \<open>f64\<close> is the 64-bit pattern, so \<open>memcpy\<close> between \<open>double\<close> and
  \<open>std::uint64_t\<close> (\<open>Writer::f64\<close>, \<open>Reader::f64\<close>) is the identity. Comparisons are exact on the
  decoded values and false on NaN; \<open>*\<close> and \<open>/\<close> compute the exact quotient of integers and round
  it to nearest, ties to even. \<open>static_cast\<close> to an unsigned integer truncates and is undefined
  (\<open>None\<close>) where the truncated value does not fit. The library has no floating-point theory in
  its heap, so the few operations the program uses are defined here.
\<close>

type_synonym f64 = u64

section \<open>Fields and value\<close>

definition f64_neg :: "f64 \<Rightarrow> bool" where
  "f64_neg x = bit x 63"

definition f64_low :: "f64 \<Rightarrow> nat" where
  "f64_low x = unat (take_bit 63 x)"

definition f64_expo :: "f64 \<Rightarrow> nat" where
  "f64_expo x = f64_low x div 2 ^ 52"

definition f64_frac :: "f64 \<Rightarrow> nat" where
  "f64_frac x = f64_low x mod 2 ^ 52"

definition f64_is_nan :: "f64 \<Rightarrow> bool" where
  "f64_is_nan x = (f64_expo x = 2047 \<and> f64_frac x \<noteq> 0)"

definition f64_is_inf :: "f64 \<Rightarrow> bool" where
  "f64_is_inf x = (f64_expo x = 2047 \<and> f64_frac x = 0)"

definition f64_is_finite :: "f64 \<Rightarrow> bool" where
  "f64_is_finite x = (f64_expo x < 2047)"

text \<open>The magnitude of a finite value is \<open>f64_mant x * 2 powi f64_pow x\<close>.\<close>

definition f64_mant :: "f64 \<Rightarrow> nat" where
  "f64_mant x = (if f64_expo x = 0 then f64_frac x else 2 ^ 52 + f64_frac x)"

definition f64_pow :: "f64 \<Rightarrow> int" where
  "f64_pow x = (if f64_expo x = 0 then - 1074 else int (f64_expo x) - 1075)"

text \<open>
  The magnitude in units of \<open>2 powi (-1074)\<close>, a natural number; the same formula puts infinity
  above every finite value. \<open>f64_ord\<close> is the signed version that comparisons use.
\<close>

definition f64_mag :: "f64 \<Rightarrow> nat" where
  "f64_mag x = f64_mant x * 2 ^ (max (f64_expo x) 1 - 1)"

definition f64_ord :: "f64 \<Rightarrow> int" where
  "f64_ord x = (if f64_neg x then - int (f64_mag x) else int (f64_mag x))"

definition f64_lt :: "f64 \<Rightarrow> f64 \<Rightarrow> bool" where
  "f64_lt a b = (\<not> f64_is_nan a \<and> \<not> f64_is_nan b \<and> f64_ord a < f64_ord b)"

definition f64_le :: "f64 \<Rightarrow> f64 \<Rightarrow> bool" where
  "f64_le a b = (\<not> f64_is_nan a \<and> \<not> f64_is_nan b \<and> f64_ord a \<le> f64_ord b)"

definition f64_eq :: "f64 \<Rightarrow> f64 \<Rightarrow> bool" where
  "f64_eq a b = (\<not> f64_is_nan a \<and> \<not> f64_is_nan b \<and> f64_ord a = f64_ord b)"

section \<open>Rounding\<close>

fun bitlen :: "nat \<Rightarrow> nat" where
  "bitlen n = (if n = 0 then 0 else Suc (bitlen (n div 2)))"

declare bitlen.simps [simp del]

definition rne_div :: "nat \<Rightarrow> nat \<Rightarrow> nat" where
  "rne_div n d = (if 2 * (n mod d) < d \<or> (2 * (n mod d) = d \<and> even (n div d))
     then n div d else n div d + 1)"

definition f64_pack :: "bool \<Rightarrow> nat \<Rightarrow> f64" where
  "f64_pack s b = (if s then 2 ^ 63 else 0) + of_nat (min b (2047 * 2 ^ 52))"

text \<open>The floor of the binary logarithm of \<open>n / d\<close>.\<close>

definition flog2 :: "nat \<Rightarrow> nat \<Rightarrow> int" where
  "flog2 n d = (if d * 2 ^ (bitlen n - bitlen d) \<le> n * 2 ^ (bitlen d - bitlen n)
     then int (bitlen n) - int (bitlen d) else int (bitlen n) - int (bitlen d) - 1)"

text \<open>The double nearest to \<open>n / d * 2 powi e\<close> with sign \<open>s\<close>; \<open>2 powi t\<close> is its last place.\<close>

definition f64_round_at :: "bool \<Rightarrow> nat \<Rightarrow> nat \<Rightarrow> int \<Rightarrow> int \<Rightarrow> f64" where
  "f64_round_at s n d e t =
     f64_pack s (rne_div (n * 2 ^ nat (- t)) (d * 2 ^ nat t) + nat (t + e + 1074) * 2 ^ 52)"

definition f64_round :: "bool \<Rightarrow> nat \<Rightarrow> nat \<Rightarrow> int \<Rightarrow> f64" where
  "f64_round s n d e = (if n = 0 then f64_pack s 0
     else f64_round_at s n d e (max (flog2 n d - 52) (- 1074 - e)))"

definition f64_nan :: f64 where
  "f64_nan = 0x7FF8000000000000"

definition f64_inf :: "bool \<Rightarrow> f64" where
  "f64_inf s = f64_pack s (2047 * 2 ^ 52)"

definition f64_mul :: "f64 \<Rightarrow> f64 \<Rightarrow> f64" where
  "f64_mul a b = (
     if f64_is_nan a \<or> f64_is_nan b then f64_nan
     else if f64_is_inf a \<or> f64_is_inf b then
       (if f64_mant a = 0 \<or> f64_mant b = 0 then f64_nan else f64_inf (f64_neg a \<noteq> f64_neg b))
     else f64_round (f64_neg a \<noteq> f64_neg b) (f64_mant a * f64_mant b) 1 (f64_pow a + f64_pow b))"

definition f64_div :: "f64 \<Rightarrow> f64 \<Rightarrow> f64" where
  "f64_div a b = (
     if f64_is_nan a \<or> f64_is_nan b then f64_nan
     else if f64_is_inf a then (if f64_is_inf b then f64_nan else f64_inf (f64_neg a \<noteq> f64_neg b))
     else if f64_is_inf b then f64_pack (f64_neg a \<noteq> f64_neg b) 0
     else if f64_mant b = 0 then (if f64_mant a = 0 then f64_nan else f64_inf (f64_neg a \<noteq> f64_neg b))
     else f64_round (f64_neg a \<noteq> f64_neg b) (f64_mant a) (f64_mant b) (f64_pow a - f64_pow b))"

text \<open>
  Addition: the exact sum, in units of the smaller of the two last places, rounded. A sum of zero is
  negative only for two negative zeros.
\<close>

definition f64_scaled_to :: "int \<Rightarrow> f64 \<Rightarrow> int" where
  "f64_scaled_to e x = (let m = int (f64_mant x) * 2 ^ nat (f64_pow x - e) in if f64_neg x then - m else m)"

definition f64_add :: "f64 \<Rightarrow> f64 \<Rightarrow> f64" where
  "f64_add a b = (
     if f64_is_nan a \<or> f64_is_nan b then f64_nan
     else if f64_is_inf a \<or> f64_is_inf b then
       (if f64_is_inf a \<and> f64_is_inf b \<and> f64_neg a \<noteq> f64_neg b then f64_nan
        else f64_inf (if f64_is_inf a then f64_neg a else f64_neg b))
     else let e = min (f64_pow a) (f64_pow b); s = f64_scaled_to e a + f64_scaled_to e b
       in f64_round (if s = 0 then f64_neg a \<and> f64_neg b else s < 0) (nat \<bar>s\<bar>) 1 e)"

text \<open>\<open>static_cast<double>\<close> of an unsigned integer, and a literal \<open>n / d\<close>.\<close>

definition f64_of_nat :: "nat \<Rightarrow> f64" where
  "f64_of_nat n = f64_round False n 1 0"

definition f64_lit :: "nat \<Rightarrow> nat \<Rightarrow> f64" where
  "f64_lit n d = f64_round False n d 0"

text \<open>\<open>static_cast\<close> to an unsigned type with values below \<open>m\<close>.\<close>

definition f64_trunc_mag :: "f64 \<Rightarrow> nat" where
  "f64_trunc_mag x = (if 0 \<le> f64_pow x then f64_mant x * 2 ^ nat (f64_pow x)
     else f64_mant x div 2 ^ nat (- f64_pow x))"

definition f64_to_unsigned :: "nat \<Rightarrow> f64 \<Rightarrow> nat option" where
  "f64_to_unsigned m x = (
     if f64_is_finite x \<and> f64_trunc_mag x < m \<and> (f64_neg x \<longrightarrow> f64_trunc_mag x = 0)
     then Some (f64_trunc_mag x) else None)"

definition f64_to_u64 :: "f64 \<Rightarrow> u64 option" where
  "f64_to_u64 x = map_option of_nat (f64_to_unsigned (2 ^ 64) x)"

definition f64_to_u8 :: "f64 \<Rightarrow> u8 option" where
  "f64_to_u8 x = map_option of_nat (f64_to_unsigned 256 x)"

text \<open>Unary minus flips the sign bit.\<close>

definition f64_minus :: "f64 \<Rightarrow> f64" where
  "f64_minus x = x XOR 2 ^ 63"

section \<open>Comparison laws\<close>

lemma f64_add_commute: "f64_add a b = f64_add b a"
  unfolding f64_add_def Let_def by (auto simp: add.commute min.commute conj_commute)

lemma f64_lt_irrefl [simp]: "\<not> f64_lt a a"
  by (simp add: f64_lt_def)

lemma f64_lt_trans: "f64_lt a b \<Longrightarrow> f64_lt b c \<Longrightarrow> f64_lt a c"
  by (auto simp: f64_lt_def)

lemma f64_lt_asym: "f64_lt a b \<Longrightarrow> \<not> f64_lt b a"
  by (auto simp: f64_lt_def)

lemma f64_trichotomy:
  "\<not> f64_is_nan a \<Longrightarrow> \<not> f64_is_nan b \<Longrightarrow> f64_lt a b \<or> f64_eq a b \<or> f64_lt b a"
  by (auto simp: f64_lt_def f64_eq_def)

lemma f64_nan_unordered: "f64_is_nan a \<Longrightarrow> \<not> f64_lt a b \<and> \<not> f64_lt b a \<and> \<not> f64_eq a b"
  by (simp add: f64_lt_def f64_eq_def)

subsection \<open>The order is the order of the bit patterns\<close>

lemma f64_low_less: "f64_low x < 2 ^ 63"
proof -
  have "take_bit 63 x \<le> mask 63" by (simp add: take_bit_eq_mask word_and_le1)
  then have "unat (take_bit 63 x) \<le> unat (mask 63 :: u64)" by (simp add: word_le_nat_alt)
  then show ?thesis by (simp add: f64_low_def mask_eq_exp_minus_1)
qed

lemma f64_frac_less: "f64_frac x < 2 ^ 52"
  by (simp add: f64_frac_def)

lemma f64_low_split: "f64_low x = f64_expo x * 2 ^ 52 + f64_frac x"
  by (simp add: f64_expo_def f64_frac_def)

lemma f64_mag_mono:
  assumes "f64_low a < f64_low b"
  shows "f64_mag a < f64_mag b"
proof -
  define E F E' F' where v: "E = f64_expo a" "F = f64_frac a" "E' = f64_expo b" "F' = f64_frac b"
  have F: "F < 2 ^ 52" "F' < 2 ^ 52" using f64_frac_less v by simp_all
  have lt: "E * 2 ^ 52 + F < E' * 2 ^ 52 + F'" using assms f64_low_split v by metis
  have mag: "f64_mag a = (if E = 0 then F else (2 ^ 52 + F) * 2 ^ (E - 1))"
    "f64_mag b = (if E' = 0 then F' else (2 ^ 52 + F') * 2 ^ (E' - 1))"
    by (auto simp: f64_mag_def f64_mant_def v max_def)
  show ?thesis
  proof (cases "E = E'")
    case True
    with lt show ?thesis by (simp add: mag)
  next
    case False
    with lt F have less: "E < E'" by (simp add: nat_neq_iff)
    then have "f64_mag a < 2 ^ 52 * 2 ^ E"
      using F by (cases E) (auto simp: mag)
    also have "\<dots> \<le> (2 ^ 52 + F') * 2 ^ (E' - 1)"
      using less by (intro mult_le_mono power_increasing) auto
    finally show ?thesis using less by (simp add: mag)
  qed
qed

lemma f64_mag_less_iff: "f64_mag a < f64_mag b \<longleftrightarrow> f64_low a < f64_low b"
  by (metis f64_mag_mono f64_mag_def f64_mant_def f64_expo_def f64_frac_def linorder_neq_iff
      less_asym)

lemma f64_mag_eq_iff: "f64_mag a = f64_mag b \<longleftrightarrow> f64_low a = f64_low b"
  by (metis f64_mag_mono f64_mag_less_iff linorder_neq_iff)

lemma f64_ord_nonneg [simp]: "\<not> f64_neg x \<Longrightarrow> f64_ord x = int (f64_mag x)"
  by (simp add: f64_ord_def)

section \<open>Rounding laws\<close>

lemma f64_neg_pack [simp]: "f64_neg (f64_pack s b) = s"
  and f64_low_pack [simp]: "f64_low (f64_pack s b) = min b (2047 * 2 ^ 52)"
proof -
  define m where "m = min b (2047 * 2 ^ 52)"
  have m: "m < 2 ^ 63" by (simp add: m_def)
  have u: "unat (of_nat m :: u64) = m"
    using m by (simp add: unat_of_nat take_bit_nat_eq_self)
  have t: "take_bit 63 (of_nat m :: u64) = of_nat m"
    using m by (simp add: take_bit_of_nat take_bit_nat_eq_self)
  have nb: "\<not> bit (of_nat m :: u64) 63"
    using m by (simp add: bit_of_nat_iff bit_nat_def div_less)
  have or: "(2 ^ 63 :: u64) + of_nat m = (2 ^ 63 :: u64) OR of_nat m"
  proof (rule disjunctive_add)
    fix n :: nat
    show "\<not> bit (2 ^ 63 :: u64) n \<or> \<not> bit (of_nat m :: u64) n"
      using nb by (cases "n = 63") (auto simp: bit_exp_iff simp del: power_numeral)
  qed
  have p: "f64_pack s b = (if s then 2 ^ 63 OR of_nat m else of_nat m)"
    using or by (simp add: f64_pack_def m_def)
  show "f64_neg (f64_pack s b) = s"
    unfolding p f64_neg_def using nb by (auto simp: bit_or_iff bit_exp_iff)
  have "take_bit 63 (f64_pack s b) = of_nat m"
    unfolding p by (auto simp: t take_bit_or)
  then show "f64_low (f64_pack s b) = min b (2047 * 2 ^ 52)"
    unfolding m_def [symmetric] f64_low_def by (simp only: u)
qed

lemma f64_not_nan_pack [simp]: "\<not> f64_is_nan (f64_pack s b)"
proof -
  have "min b (2047 * 2 ^ 52) div 2 ^ 52 \<noteq> 2047 \<or> min b (2047 * 2 ^ 52) mod 2 ^ 52 = 0"
  proof (cases "b < 2047 * 2 ^ 52")
    case True
    then have "b div 2 ^ 52 < 2047" by (simp add: less_mult_imp_div_less)
    with True show ?thesis by simp
  qed simp
  then show ?thesis by (simp add: f64_is_nan_def f64_expo_def f64_frac_def)
qed

lemma bitlen_bounds: "0 < n \<Longrightarrow> 2 ^ (bitlen n - 1) \<le> n \<and> n < 2 ^ bitlen n \<and> 0 < bitlen n"
proof (induction n rule: bitlen.induct)
  case (1 n)
  show ?case
  proof (cases "n div 2 = 0")
    case True
    with 1 have "n = 1" by auto
    then show ?thesis by (simp add: bitlen.simps)
  next
    case False
    with 1 have IH: "2 ^ (bitlen (n div 2) - 1) \<le> n div 2" "n div 2 < 2 ^ bitlen (n div 2)"
      "0 < bitlen (n div 2)" by auto
    have eq: "bitlen n = Suc (bitlen (n div 2))" using 1 by (simp add: bitlen.simps [of n])
    have "(2::nat) ^ bitlen (n div 2) = 2 * 2 ^ (bitlen (n div 2) - 1)"
      using IH(3) by (metis Suc_diff_1 power_Suc)
    moreover have "2 * (n div 2) \<le> n" "n < 2 * (n div 2) + 2" by linarith+
    ultimately show ?thesis using IH eq by (simp only: diff_Suc_1 power_Suc) linarith
  qed
qed

lemma bitlen_le: "n < 2 ^ k \<Longrightarrow> bitlen n \<le> k"
proof (cases "n = 0")
  case True then show ?thesis by (simp add: bitlen.simps)
next
  case False
  assume "n < 2 ^ k"
  with False bitlen_bounds [of n] have "(2::nat) ^ (bitlen n - 1) < 2 ^ k" by linarith
  then have "bitlen n - 1 < k" by (rule power_less_imp_less_exp [rotated]) simp
  then show ?thesis by simp
qed

lemma rne_div_1 [simp]: "rne_div n (Suc 0) = n"
  by (simp add: rne_div_def)

lemma rne_div_ge: "rne_div n d \<ge> n div d"
  by (simp add: rne_div_def)

text \<open>A quotient that is at least \<open>2 powi (-1074 - e)\<close> rounds to something positive.\<close>

lemma f64_round_pos:
  assumes n: "0 < n" and d: "0 < d" and big: "- 1073 - e \<le> int (bitlen n) - int (bitlen d)"
  shows "f64_lt 0 (f64_round False n d e)"
proof -
  define l0 where "l0 = int (bitlen n) - int (bitlen d)"
  define t where "t = max (flog2 n d - 52) (- 1074 - e)"
  define q where "q = rne_div (n * 2 ^ nat (- t)) (d * 2 ^ nat t)"
  have r: "f64_round False n d e = f64_pack False (q + nat (t + e + 1074) * 2 ^ 52)"
    using n by (simp add: f64_round_def f64_round_at_def t_def q_def)
  have "0 < q + nat (t + e + 1074) * 2 ^ 52"
  proof (cases "t + e + 1074 \<le> 0")
    case False then show ?thesis by simp
  next
    case True
    then have t: "t = - 1074 - e" and tl: "t \<le> l0 - 1" using big by (auto simp: t_def l0_def)
    have bn: "2 ^ (bitlen n - 1) \<le> n" "0 < bitlen n" using bitlen_bounds [OF n] by auto
    have bd: "d < 2 ^ bitlen d" using bitlen_bounds [OF d] by auto
    have "d * 2 ^ nat t \<le> 2 ^ bitlen d * 2 ^ nat t" using bd by simp
    also have "\<dots> = 2 ^ (bitlen d + nat t)" by (simp add: power_add)
    also have "\<dots> \<le> 2 ^ ((bitlen n - 1) + nat (- t))"
      using tl bn(2) by (intro power_increasing) (auto simp: l0_def)
    also have "\<dots> \<le> n * 2 ^ nat (- t)" using bn(1) by (simp add: power_add)
    finally have "0 < (n * 2 ^ nat (- t)) div (d * 2 ^ nat t)"
      using d by (simp add: div_greater_zero_iff)
    then show ?thesis using rne_div_ge [of "n * 2 ^ nat (- t)" "d * 2 ^ nat t"] by (simp add: q_def)
  qed
  then have low: "0 < f64_low (f64_round False n d e)" by (simp add: r)
  have nn: "\<not> f64_is_nan (f64_round False n d e)"
    by (simp add: r f64_not_nan_pack)
  have z: "f64_low 0 = 0" by (simp add: f64_low_def)
  then have "f64_mag 0 < f64_mag (f64_round False n d e)" using low f64_mag_less_iff by metis
  then show ?thesis
    using nn f64_neg_pack [of False] r
    by (simp add: f64_lt_def f64_is_nan_def f64_expo_def z f64_ord_def f64_neg_def [of 0])
qed

text \<open>Products of positive numbers whose exponents do not underflow are positive.\<close>

lemma f64_mul_pos:
  assumes "f64_is_finite a" "f64_is_finite b" "\<not> f64_neg a" "\<not> f64_neg b"
    and m: "0 < f64_mant a" "0 < f64_mant b" and e: "- 1073 \<le> f64_pow a + f64_pow b"
  shows "f64_lt 0 (f64_mul a b)"
proof -
  have n: "0 < f64_mant a * f64_mant b" using m by simp
  have "0 < bitlen (f64_mant a * f64_mant b)" using bitlen_bounds [OF n] by simp
  then have "f64_lt 0 (f64_round False (f64_mant a * f64_mant b) 1 (f64_pow a + f64_pow b))"
    using n e by (intro f64_round_pos) (auto simp: bitlen.simps [of "Suc 0"] bitlen.simps [of 0])
  with assms show ?thesis
    by (simp add: f64_mul_def f64_is_nan_def f64_is_inf_def f64_is_finite_def)
qed

text \<open>Rounding a representable value changes nothing.\<close>

lemma f64_pack_eq:
  assumes "f64_low x \<le> 2047 * 2 ^ 52"
  shows "f64_pack (f64_neg x) (f64_low x) = x"
proof (rule bit_word_eqI)
  fix n assume "n < LENGTH(64)"
  have low: "take_bit 63 (f64_pack s b) = take_bit 63 x" if "f64_low (f64_pack s b) = f64_low x" for s b
    using that by (simp add: f64_low_def word_unat_eq_iff)
  have "take_bit 63 (f64_pack (f64_neg x) (f64_low x)) = take_bit 63 x"
    by (rule low) (use assms in simp)
  then have "n < 63 \<Longrightarrow> bit (f64_pack (f64_neg x) (f64_low x)) n = bit x n"
    by (metis bit_take_bit_iff)
  moreover have "bit (f64_pack (f64_neg x) (f64_low x)) 63 = bit x 63"
    using f64_neg_pack by (simp add: f64_neg_def)
  ultimately show "bit (f64_pack (f64_neg x) (f64_low x)) n = bit x n"
    using \<open>n < LENGTH(64)\<close> by (cases "n = 63") auto
qed

lemma f64_round_exact:
  assumes fin: "f64_is_finite x"
  shows "f64_round (f64_neg x) (f64_mant x) 1 (f64_pow x) = x"
proof -
  have low: "f64_low x \<le> 2047 * 2 ^ 52"
    using fin f64_low_split [of x] f64_frac_less [of x] by (simp add: f64_is_finite_def)
  show ?thesis
  proof (cases "f64_mant x = 0")
    case True
    then have "f64_low x = 0" using f64_low_split [of x] by (simp add: f64_mant_def split: if_splits)
    with True f64_pack_eq [OF low] show ?thesis by (simp add: f64_round_def)
  next
    case False
    then have n: "0 < f64_mant x" by simp
    have b1: "bitlen 1 = 1" by (simp add: bitlen.simps)
    note bn = bitlen_bounds [OF n]
    have le53: "bitlen (f64_mant x) \<le> 53"
      using f64_frac_less [of x] by (intro bitlen_le) (auto simp: f64_mant_def)
    have norm: "bitlen (f64_mant x) = 53" if "f64_expo x \<noteq> 0"
    proof -
      have "2 ^ 52 \<le> f64_mant x" using that by (simp add: f64_mant_def)
      then have "(2::nat) ^ 52 < 2 ^ bitlen (f64_mant x)" using bn by linarith
      then have "52 < bitlen (f64_mant x)"
        by (rule power_less_imp_less_exp [rotated]) simp
      with le53 show ?thesis by simp
    qed
    have l: "flog2 (f64_mant x) 1 = int (bitlen (f64_mant x)) - 1"
      using bn by (simp add: flog2_def b1 [simplified])
    have t: "max (flog2 (f64_mant x) 1 - 52) (- 1074 - f64_pow x) = 0"
      using le53 norm by (auto simp: f64_pow_def max_def l [simplified])
    have "f64_round (f64_neg x) (f64_mant x) 1 (f64_pow x) =
        f64_pack (f64_neg x) (f64_mant x + nat (f64_pow x + 1074) * 2 ^ 52)"
      using n t by (simp add: f64_round_def f64_round_at_def)
    also have "f64_mant x + nat (f64_pow x + 1074) * 2 ^ 52 = f64_low x"
      using f64_low_split [of x] by (cases "f64_expo x") (auto simp: f64_mant_def f64_pow_def)
    also have "f64_pack (f64_neg x) (f64_low x) = x" by (rule f64_pack_eq [OF low])
    finally show ?thesis .
  qed
qed

text \<open>Ground evaluation of the operations by the simplifier.\<close>

lemmas f64_eval = f64_lit_def f64_of_nat_def f64_round_def f64_round_at_def flog2_def f64_pack_def
  f64_mul_def f64_div_def f64_neg_def f64_low_def f64_expo_def f64_frac_def f64_mant_def f64_pow_def
  f64_is_nan_def f64_is_inf_def f64_is_finite_def rne_div_def bitlen.simps f64_trunc_mag_def
  f64_to_unsigned_def f64_to_u64_def f64_to_u8_def


text \<open>One tenth, rounded as every IEEE-754 target rounds it.\<close>

lemma f64_lit_tenth: "f64_lit 1 10 = 0x3FB999999999999A"
  by (simp add: f64_eval)

lemma f64_lit_0 [simp]: "f64_lit 0 d = 0"
  by (simp add: f64_eval)

text \<open>\<open>0.1 + 0.2\<close> is not \<open>0.3\<close>.\<close>

lemma f64_add_tenths: "f64_add (f64_lit 1 10) (f64_lit 2 10) = 0x3FD3333333333334"
  by (simp add: f64_add_def f64_scaled_to_def Let_def f64_eval)

end
