(* ===== verification/PF_Values.thy ===== *)
theory PF_Values
  imports PF_Binary64
begin

text \<open>
  The typed quantities of \<open>include/pciefabric/values.hpp\<close>. The integer-backed classes made by
  \<open>PCIEFABRIC_INT_QUANTITY\<close> are their unsigned representation: construction is the identity,
  \<open>+\<close> and \<open>-\<close> wrap at the width. The double-backed classes made by \<open>PCIEFABRIC_DOUBLE_QUANTITY\<close>
  are bit patterns; the explicit constructor checks nothing, \<open>checked\<close> refuses a value outside
  the class's predicate.
\<close>

section \<open>Integer-backed quantities\<close>

type_synonym Bytes = u64
type_synonym PayloadBytes = u64
type_synonym TransferBytes = u64
type_synonym CapacityBytes = u64
type_synonym Nanoseconds = u64
type_synonym Microseconds = u64
type_synonym Milliseconds = u64
type_synonym LaneCount = u16
type_synonym QueueDepth = u32
type_synonym OutstandingOps = u32
type_synonym RetryCount = u64
type_synonym ErrorCount = u64
type_synonym OpCount = u64
type_synonym IterationCount = u64

definition bad_value :: "string \<Rightarrow> string \<Rightarrow> string" where
  "bad_value name reason = name @ '': '' @ reason"

definition int_quantity_is_valid :: "'a::len word \<Rightarrow> bool" where
  "int_quantity_is_valid v = (0 \<le> v)"

definition int_quantity_checked :: "string \<Rightarrow> 'a::len word \<Rightarrow> 'a word Result" where
  "int_quantity_checked name v =
     (if \<not> int_quantity_is_valid v then Err EC_INVALID_VALUE (bad_value name ''negative value'')
      else Success v)"

definition int_quantity_plus :: "'a::len word \<Rightarrow> 'a word \<Rightarrow> 'a word" where
  "int_quantity_plus a b = a + b"

definition int_quantity_minus :: "'a::len word \<Rightarrow> 'a word \<Rightarrow> 'a word" where
  "int_quantity_minus a b = a - b"

lemma int_quantity_checked_total [simp]: "int_quantity_checked name v = Success v"
  by (simp add: int_quantity_checked_def int_quantity_is_valid_def)

section \<open>Double-backed quantities\<close>

type_synonym BytesPerSecond = f64
type_synonym GiBPerSecond = f64
type_synonym Confidence = f64
type_synonym ContentionScore = f64

text \<open>\<open>std::isfinite(v) && PRED\<close>, then the typed error with the class's message.\<close>

definition double_quantity_checked ::
    "string \<Rightarrow> (f64 \<Rightarrow> bool) \<Rightarrow> string \<Rightarrow> f64 \<Rightarrow> f64 Result" where
  "double_quantity_checked name is_valid msg v =
     (if \<not> is_valid v then Err EC_INVALID_VALUE (bad_value name msg) else Success v)"

definition nonneg_is_valid :: "f64 \<Rightarrow> bool" where
  "nonneg_is_valid v = (f64_is_finite v \<and> f64_le 0 v)"

definition unit_is_valid :: "f64 \<Rightarrow> bool" where
  "unit_is_valid v = (f64_is_finite v \<and> f64_le 0 v \<and> f64_le v (f64_lit 1 1))"

definition temperature_is_valid :: "f64 \<Rightarrow> bool" where
  "temperature_is_valid v =
     (f64_is_finite v \<and> f64_le (f64_minus (f64_lit 50 1)) v \<and> f64_le v (f64_lit 200 1))"

definition BytesPerSecond_checked :: "f64 \<Rightarrow> f64 Result" where
  "BytesPerSecond_checked = double_quantity_checked ''BytesPerSecond'' nonneg_is_valid
     ''negative or non-finite bytes/sec''"

definition GiBPerSecond_checked :: "f64 \<Rightarrow> f64 Result" where
  "GiBPerSecond_checked = double_quantity_checked ''GiBPerSecond'' nonneg_is_valid
     ''negative or non-finite GiB/sec''"

definition Gtps_checked :: "f64 \<Rightarrow> f64 Result" where
  "Gtps_checked = double_quantity_checked ''Gtps'' nonneg_is_valid ''negative or non-finite GT/s''"

definition Utilization_checked :: "f64 \<Rightarrow> f64 Result" where
  "Utilization_checked = double_quantity_checked ''Utilization'' unit_is_valid
     ''utilization outside [0,1]''"

definition TemperatureC_checked :: "f64 \<Rightarrow> f64 Result" where
  "TemperatureC_checked = double_quantity_checked ''TemperatureC'' temperature_is_valid
     ''temperature outside [-50,200] C''"

definition PathCost_checked :: "f64 \<Rightarrow> f64 Result" where
  "PathCost_checked = double_quantity_checked ''PathCost'' nonneg_is_valid ''negative path cost''"

definition ContentionScore_checked :: "f64 \<Rightarrow> f64 Result" where
  "ContentionScore_checked = double_quantity_checked ''ContentionScore'' unit_is_valid
     ''contention outside [0,1]''"

definition Confidence_checked :: "f64 \<Rightarrow> f64 Result" where
  "Confidence_checked = double_quantity_checked ''Confidence'' unit_is_valid
     ''confidence outside [0,1]''"

definition Percent_checked :: "f64 \<Rightarrow> f64 Result" where
  "Percent_checked = double_quantity_checked ''Percent'' unit_is_valid ''percentage outside [0,1]''"

lemma double_quantity_checked_iff:
  "double_quantity_checked name p msg v = Success w \<longleftrightarrow> p v \<and> w = v"
  by (auto simp: double_quantity_checked_def)

section \<open>Conversions\<close>

definition f64_two30 :: f64 where
  "f64_two30 = f64_mul (f64_mul (f64_lit 1024 1) (f64_lit 1024 1)) (f64_lit 1024 1)"

definition to_gib_per_sec :: "BytesPerSecond \<Rightarrow> f64" where
  "to_gib_per_sec bps = f64_div bps f64_two30"

definition to_mib_per_sec :: "BytesPerSecond \<Rightarrow> f64" where
  "to_mib_per_sec bps = f64_div bps (f64_mul (f64_lit 1024 1) (f64_lit 1024 1))"

definition from_mib_per_sec :: "f64 \<Rightarrow> BytesPerSecond" where
  "from_mib_per_sec mib = f64_mul (f64_mul mib (f64_lit 1024 1)) (f64_lit 1024 1)"

end
