(* ===== verification/PF_Bdf.thy ===== *)
theory PF_Bdf
  imports PF_Ids
begin

text \<open>
  The canonical BDF identity of \<open>include/pciefabric/bdf.hpp\<close>: the four-field value, its total
  order, its two printed forms, the parser and the packed 64-bit identity. The parser keeps the
  code's shape: an index into the string, checked before each read, and one error message per
  failed step.
\<close>

section \<open>The value and its order\<close>

datatype Bdf = Bdf (bdf_domain: u16) (bdf_bus: u8) (bdf_device: u8) (bdf_function: u8)

definition Bdf_default :: Bdf where
  "Bdf_default = Bdf 0 0 0 0"

definition Bdf_valid :: "Bdf \<Rightarrow> bool" where
  "Bdf_valid b = (bdf_function b \<le> 7 \<and> bdf_device b \<le> 31)"

definition has_domain :: "Bdf \<Rightarrow> bool" where
  "has_domain b = (bdf_domain b \<noteq> 0)"

definition bdf_cmp_less :: "Bdf \<Rightarrow> Bdf \<Rightarrow> bool" where
  "bdf_cmp_less a b =
     (if bdf_domain a \<noteq> bdf_domain b then bdf_domain a < bdf_domain b
      else if bdf_bus a \<noteq> bdf_bus b then bdf_bus a < bdf_bus b
      else if bdf_device a \<noteq> bdf_device b then bdf_device a < bdf_device b
      else bdf_function a < bdf_function b)"

instantiation Bdf :: linorder
begin

definition less_Bdf :: "Bdf \<Rightarrow> Bdf \<Rightarrow> bool" where
  "less_Bdf a b = bdf_cmp_less a b"

definition less_eq_Bdf :: "Bdf \<Rightarrow> Bdf \<Rightarrow> bool" where
  "less_eq_Bdf a b = (a = b \<or> bdf_cmp_less a b)"

instance
proof
  fix x y z :: Bdf
  show "x < y \<longleftrightarrow> x \<le> y \<and> \<not> y \<le> x"
    by (cases x; cases y) (auto simp: less_Bdf_def less_eq_Bdf_def bdf_cmp_less_def split: if_splits)
  show "x \<le> x" by (simp add: less_eq_Bdf_def)
  show "x \<le> y \<Longrightarrow> y \<le> z \<Longrightarrow> x \<le> z"
    by (cases x; cases y; cases z) (auto simp: less_eq_Bdf_def bdf_cmp_less_def split: if_splits)
  show "x \<le> y \<Longrightarrow> y \<le> x \<Longrightarrow> x = y"
    by (cases x; cases y) (auto simp: less_eq_Bdf_def bdf_cmp_less_def split: if_splits)
  show "x \<le> y \<or> y \<le> x"
    by (cases x; cases y) (auto simp: less_eq_Bdf_def bdf_cmp_less_def split: if_splits)
qed

end

section \<open>Printing\<close>

definition hex_digits :: string where
  "hex_digits = ''0123456789abcdef''"

definition hex_char :: "nat \<Rightarrow> char" where
  "hex_char i = hex_digits ! i"

definition fmt_bdf :: "Bdf \<Rightarrow> string" where
  "fmt_bdf b = (let bs = bdf_bus b; d = bdf_device b; f = bdf_function b in
     [hex_char (unat (drop_bit 4 bs)), hex_char (unat (bs AND 15)), CHR '':'',
      hex_char (unat (drop_bit 4 d)), hex_char (unat (d AND 15)), CHR ''.'',
      hex_char (unat (f AND 15))])"

definition bdf_string :: "Bdf \<Rightarrow> string" where
  "bdf_string b = fmt_bdf b"

definition fmt_canonical :: "Bdf \<Rightarrow> string" where
  "fmt_canonical b =
     map (\<lambda>i. hex_char (unat (drop_bit (i * 4) (bdf_domain b) AND 15))) [3, 2, 1, 0]
     @ [CHR '':''] @ fmt_bdf b"

definition canonical :: "Bdf \<Rightarrow> string" where
  "canonical b = fmt_canonical b"

section \<open>Parsing\<close>

definition char_code :: "char \<Rightarrow> nat" where
  "char_code c = of_char c"

definition hexval :: "char \<Rightarrow> int" where
  "hexval c =
     (if 48 \<le> char_code c \<and> char_code c \<le> 57 then int (char_code c) - 48
      else if 97 \<le> char_code c \<and> char_code c \<le> 102 then int (char_code c) - 97 + 10
      else if 65 \<le> char_code c \<and> char_code c \<le> 70 then int (char_code c) - 65 + 10
      else - 1)"

text \<open>The parsed byte and the new position, or \<open>None\<close> for the C++ \<open>false\<close>.\<close>

definition parse_hex_byte :: "string \<Rightarrow> nat \<Rightarrow> bool \<Rightarrow> (u8 \<times> nat) option" where
  "parse_hex_byte sv pos two_digits =
     (if length sv \<le> pos then None
      else if two_digits then
        (if length sv < pos + 2 then None
         else if hexval (sv ! pos) < 0 \<or> hexval (sv ! (pos + 1)) < 0 then None
         else Some (word_of_int (push_bit 4 (hexval (sv ! pos)) OR hexval (sv ! (pos + 1))),
                    pos + 2))
      else if hexval (sv ! pos) < 0 then None
      else Some (word_of_int (hexval (sv ! pos)), pos + 1))"

primrec parse_hex_u16_loop :: "nat \<Rightarrow> string \<Rightarrow> nat \<Rightarrow> u16 \<Rightarrow> u16 option" where
  "parse_hex_u16_loop 0 sv at v = Some v"
| "parse_hex_u16_loop (Suc left) sv at v =
     (if hexval (sv ! at) < 0 then None
      else parse_hex_u16_loop left sv (at + 1) (push_bit 4 v OR word_of_int (hexval (sv ! at))))"

definition parse_hex_u16 :: "string \<Rightarrow> nat \<Rightarrow> (u16 \<times> nat) option" where
  "parse_hex_u16 sv pos =
     (if length sv < pos + 4 then None
      else map_option (\<lambda>v. (v, pos + 4)) (parse_hex_u16_loop 4 sv pos 0))"

definition at_char :: "string \<Rightarrow> nat \<Rightarrow> char \<Rightarrow> bool" where
  "at_char sv pos c = (pos < length sv \<and> sv ! pos = c)"

definition squote :: "string \<Rightarrow> string" where
  "squote s = CHR 0x27 # s @ [CHR 0x27]"

definition bdf_err :: "string \<Rightarrow> 'a Result" where
  "bdf_err m = Err EC_INVALID_BDF m"

definition Bdf_parse_end :: "string \<Rightarrow> nat \<Rightarrow> Bdf \<Rightarrow> Bdf Result" where
  "Bdf_parse_end sv pos b =
     (if pos \<noteq> length sv then bdf_err ''trailing characters''
      else if \<not> Bdf_valid b then bdf_err ''out-of-range bus/device/function''
      else Success b)"

text \<open>The steps \<open>bus : device . function\<close> that both branches of the code repeat; they differ only
  in the message for the missing colon after the bus.\<close>

definition Bdf_parse_triple :: "string \<Rightarrow> nat \<Rightarrow> u16 \<Rightarrow> string \<Rightarrow> Bdf Result" where
  "Bdf_parse_triple sv pos dm colon_msg =
     (case parse_hex_byte sv pos True of None \<Rightarrow> bdf_err ''bad bus'' | Some (bus, pos) \<Rightarrow>
      if \<not> at_char sv pos CHR '':'' then bdf_err colon_msg else
      case parse_hex_byte sv (pos + 1) True of None \<Rightarrow> bdf_err ''bad device'' | Some (dev, pos) \<Rightarrow>
      if \<not> at_char sv pos CHR ''.'' then bdf_err (''missing '' @ squote ''.'') else
      case parse_hex_byte sv (pos + 1) False of None \<Rightarrow> bdf_err ''bad function''
      | Some (fn, pos) \<Rightarrow> Bdf_parse_end sv pos (Bdf dm bus dev fn))"

definition Bdf_parse :: "string \<Rightarrow> Bdf Result" where
  "Bdf_parse sv =
     (if sv = [] then bdf_err ''empty BDF'' else
      let colons = length (filter (\<lambda>c. c = CHR '':'') sv) in
      if colons = 1 then Bdf_parse_triple sv 0 0 (''missing '' @ squote '':'')
      else if colons = 2 then
        (case parse_hex_u16 sv 0 of None \<Rightarrow> bdf_err ''bad domain'' | Some (dm, pos) \<Rightarrow>
         if \<not> at_char sv pos CHR '':'' then bdf_err (''missing '' @ squote '':'' @ '' after domain'')
         else Bdf_parse_triple sv (pos + 1) dm (''missing '' @ squote '':'' @ '' after bus''))
      else bdf_err (''wrong number of '' @ squote '':'' @ '' separators''))"

section \<open>The packed identity\<close>

definition bdf_pack :: "Bdf \<Rightarrow> u64" where
  "bdf_pack b = push_bit 32 (ucast (bdf_domain b)) OR push_bit 24 (ucast (bdf_bus b))
     OR push_bit 8 (ucast (bdf_device b)) OR ucast (bdf_function b)"

definition to_identity :: "string \<Rightarrow> PciBdf Result" where
  "to_identity sv = (case Bdf_parse sv of Err c m \<Rightarrow> Err c m
     | Success b \<Rightarrow> Success (StrongId (bdf_pack b)))"

definition max_bus :: u8 where "max_bus = 255"

definition max_device :: u8 where "max_device = 31"

definition max_function :: u8 where "max_function = 7"

definition Bdf_to_string :: "Bdf \<Rightarrow> string" where
  "Bdf_to_string b = canonical b"

text \<open>\<open>std::hash<Bdf>\<close>, with the hash of \<open>std::uint64_t\<close> as an argument.\<close>

definition Bdf_hash :: "(u64 \<Rightarrow> 'h) \<Rightarrow> Bdf \<Rightarrow> 'h" where
  "Bdf_hash h b = h (bdf_pack b)"

lemma Bdf_valid_max:
  "Bdf_valid b \<longleftrightarrow> bdf_bus b \<le> max_bus \<and> bdf_device b \<le> max_device \<and> bdf_function b \<le> max_function"
proof -
  have "x \<le> 255" for x :: u8
    using unsigned_less [of x, where ?'a = nat] by (simp add: word_le_nat_alt)
  then show ?thesis by (auto simp: Bdf_valid_def max_bus_def max_device_def max_function_def)
qed

section \<open>Digits\<close>

lemma hexval_hex_char_nth: "i < 16 \<Longrightarrow> hexval (hex_digits ! i) = int i \<and> hex_digits ! i \<noteq> CHR '':''"
proof -
  have "list_all (\<lambda>i. hexval (hex_digits ! i) = int i \<and> hex_digits ! i \<noteq> CHR '':'') [0..<16]"
    by (simp add: upt_rec hexval_def hex_digits_def char_code_def)
  then show "i < 16 \<Longrightarrow> ?thesis" by (simp add: list_all_iff)
qed

lemma hexval_hex_char [simp]: "n < 16 \<Longrightarrow> hexval (hex_char n) = int n"
  and hex_char_not_colon [simp]: "n < 16 \<Longrightarrow> hex_char n \<noteq> CHR '':''"
  using hexval_hex_char_nth by (simp_all add: hex_char_def)

lemma and_15: "(x :: u8) AND 15 = take_bit 4 x" "(y :: u16) AND 15 = take_bit 4 y"
  by (simp_all add: take_bit_eq_mask mask_eq_exp_minus_1)

lemma nibble_less [simp]:
  "unat (drop_bit 4 (x :: u8)) < 16" "unat ((x :: u8) AND 15) < 16"
  "unat ((y :: u16) AND 15) < 16"
proof -
  have "unat x < 256" using unsigned_less [of x, where ?'a = nat] by simp
  then have "unat x div 16 < 16" by (intro less_mult_imp_div_less) simp
  then have "drop_bit 4 (unat x) < 16" by (simp add: drop_bit_eq_div)
  then show "unat (drop_bit 4 x) < 16" by (simp only: unat_drop_bit_eq)
  show "unat (x AND 15) < 16" and "unat (y AND 15) < 16"
    unfolding and_15 unsigned_take_bit_eq by (simp_all add: take_bit_eq_mod)
qed

lemma hexval_range: "- 1 \<le> hexval c \<and> hexval c \<le> 15"
  by (auto simp: hexval_def)

lemma join_nibbles:
  "word_of_int (push_bit 4 (int (unat (drop_bit 4 x))) OR int (unat (x AND 15))) = (x :: u8)"
proof (rule bit_word_eqI)
  fix n assume "n < LENGTH(8)"
  then show "bit (word_of_int (push_bit 4 (int (unat (drop_bit 4 x))) OR int (unat (x AND 15))) :: u8) n
      = bit x n"
    by (auto simp: and_15 bit_simps)
qed

lemma join_domain:
  "push_bit 4 (push_bit 4 (push_bit 4 (take_bit 4 (drop_bit 12 y)) OR take_bit 4 (drop_bit 8 y))
     OR take_bit 4 (drop_bit 4 y)) OR take_bit 4 y = (y :: u16)"
proof (rule bit_word_eqI)
  fix n assume "n < LENGTH(16)"
  then have "n < 4 \<or> (\<exists>k. n = 4 + k \<and> k < 4) \<or> (\<exists>k. n = 8 + k \<and> k < 4) \<or> (\<exists>k. n = 12 + k \<and> k < 4)"
    by simp presburger
  then show "bit (push_bit 4 (push_bit 4 (push_bit 4 (take_bit 4 (drop_bit 12 y)) OR
      take_bit 4 (drop_bit 8 y)) OR take_bit 4 (drop_bit 4 y)) OR take_bit 4 y) n = bit y n"
    by (auto simp: bit_simps)
qed

lemma small_function: "f \<le> 7 \<Longrightarrow> (f :: u8) AND 15 = f"
proof -
  assume "f \<le> 7"
  then have "unat f < 16" by (simp add: word_le_nat_alt)
  then show ?thesis
    by (simp add: and_15 word_unat_eq_iff unsigned_take_bit_eq take_bit_nat_eq_self)
qed

section \<open>Round trip\<close>

lemma parse_hex_byte_two:
  "parse_hex_byte (pre @ hex_char (unat (drop_bit 4 x)) # hex_char (unat (x AND 15)) # rest)
     (length pre) True = Some (x, length pre + 2)"
proof -
  define u l where "u = hex_char (unat (drop_bit 4 x))" and "l = hex_char (unat (x AND 15))"
  have h: "hexval u = int (unat (drop_bit 4 x))" "hexval l = int (unat (x AND 15))"
    unfolding u_def l_def by (rule hexval_hex_char, rule nibble_less)+
  have n: "\<not> hexval u < 0" "\<not> hexval l < 0" unfolding h by (simp_all only: of_nat_less_0_iff not_False_eq_True)
  have j: "word_of_int (push_bit 4 (hexval u) OR hexval l) = x" unfolding h by (rule join_nibbles)
  have "parse_hex_byte (pre @ u # l # rest) (length pre) True = Some (x, length pre + 2)"
    by (simp add: parse_hex_byte_def nth_append n j)
  then show ?thesis by (simp only: u_def l_def)
qed

lemma parse_triple_fmt:
  assumes valid: "Bdf_valid b"
  shows "Bdf_parse_triple (pre @ fmt_bdf b) (length pre) dm msg =
         Success (Bdf dm (bdf_bus b) (bdf_device b) (bdf_function b))"
proof -
  let ?h = "\<lambda>x. hex_char (unat (drop_bit 4 (x :: u8)))" and ?l = "\<lambda>x. hex_char (unat (x AND (15 :: u8)))"
  let ?sv = "pre @ fmt_bdf b"
  have f: "bdf_function b AND 15 = bdf_function b"
    using valid by (intro small_function) (simp add: Bdf_valid_def)
  have sv: "?sv = pre @ ?h (bdf_bus b) # ?l (bdf_bus b) # CHR '':'' # ?h (bdf_device b)
      # ?l (bdf_device b) # CHR ''.'' # ?l (bdf_function b) # []"
    by (simp add: fmt_bdf_def Let_def)
  have bus: "parse_hex_byte ?sv (length pre) True = Some (bdf_bus b, length pre + 2)"
    unfolding sv by (rule parse_hex_byte_two)
  have dev: "parse_hex_byte ?sv (length pre + 3) True = Some (bdf_device b, length pre + 5)"
    using parse_hex_byte_two [of "pre @ ?h (bdf_bus b) # ?l (bdf_bus b) # [CHR '':'']" "bdf_device b"
        "CHR ''.'' # ?l (bdf_function b) # []"]
    by (simp add: sv add.commute numeral_eq_Suc)
  have fl: "hexval (?l (bdf_function b)) = int (unat (bdf_function b AND 15))"
    by (rule hexval_hex_char, rule nibble_less)
  have fn: "parse_hex_byte ?sv (length pre + 6) False = Some (bdf_function b, length pre + 7)"
    using fl by (simp add: parse_hex_byte_def sv nth_append f)
  have c: "at_char ?sv (length pre + 2) CHR '':''" "at_char ?sv (length pre + 5) CHR ''.''"
    by (simp_all add: at_char_def sv nth_append)
  have len: "length ?sv = length pre + 7" by (simp add: sv)
  show ?thesis
    using valid bus dev fn c len
    by (simp add: Bdf_parse_triple_def Bdf_parse_end_def Bdf_valid_def eval_nat_numeral)
qed

lemma colons_fmt: "filter (\<lambda>c. c = CHR '':'') (fmt_bdf b) = '':''"
  by (simp add: fmt_bdf_def Let_def)

lemma parse_bdf_string:
  "Bdf_valid b \<Longrightarrow> Bdf_parse (bdf_string b) = Success (Bdf 0 (bdf_bus b) (bdf_device b) (bdf_function b))"
  using parse_triple_fmt [of b "[]" 0] colons_fmt [of b]
  by (simp add: Bdf_parse_def bdf_string_def fmt_bdf_def Let_def)

lemma parse_canonical:
  assumes "Bdf_valid b"
  shows "Bdf_parse (canonical b) = Success b"
proof -
  define y where "y = bdf_domain b"
  define pre where "pre = map (\<lambda>i. hex_char (unat (drop_bit (i * 4) y AND 15))) [3, 2, 1, 0]"
  have pre: "pre = [hex_char (unat (drop_bit 12 y AND 15)), hex_char (unat (drop_bit 8 y AND 15)),
      hex_char (unat (drop_bit 4 y AND 15)), hex_char (unat (y AND 15))]"
    by (simp add: pre_def)
  have can: "canonical b = (pre @ '':'') @ fmt_bdf b"
    by (simp add: canonical_def fmt_canonical_def pre_def y_def)
  let ?n = "\<lambda>k. drop_bit k y AND 15"
  have n: "word_of_int (hexval (hex_char (unat (x AND 15)))) = x AND (15 :: u16)"
    "\<not> hexval (hex_char (unat (x AND (15 :: u16)))) < 0" for x
  proof -
    have "hexval (hex_char (unat (x AND 15))) = int (unat (x AND (15 :: u16)))"
      by (rule hexval_hex_char, rule nibble_less)
    then show "word_of_int (hexval (hex_char (unat (x AND 15)))) = x AND (15 :: u16)"
      "\<not> hexval (hex_char (unat (x AND (15 :: u16)))) < 0" by simp_all
  qed
  have dm: "parse_hex_u16 ((pre @ '':'') @ fmt_bdf b) 0 = Some (y, 4)"
    using join_domain [of y] unfolding and_15 [symmetric]
    by (simp add: pre parse_hex_u16_def numeral_eq_Suc n)
  have t: "Bdf_parse_triple ((pre @ '':'') @ fmt_bdf b) 5 y msg = Success b" for msg
    using parse_triple_fmt [OF assms, of "pre @ '':''" y] by (simp add: pre y_def eval_nat_numeral)
  have c: "length (filter (\<lambda>c. c = CHR '':'') ((pre @ '':'') @ fmt_bdf b)) = 2"
    by (simp add: pre colons_fmt)
  have a: "at_char ((pre @ '':'') @ fmt_bdf b) 4 CHR '':''"
    by (simp add: at_char_def pre)
  show ?thesis
    unfolding can Bdf_parse_def Let_def using c by (simp add: dm [simplified] a [simplified] t [simplified])
qed

section \<open>The packed identity is injective\<close>

lemma bdf_pack_fields:
  "bdf_function b = ucast (bdf_pack b)" "bdf_device b = ucast (drop_bit 8 (bdf_pack b))"
  "bdf_bus b = ucast (drop_bit 24 (bdf_pack b))" "bdf_domain b = ucast (drop_bit 32 (bdf_pack b))"
  by (rule bit_word_eqI;
      auto simp: bdf_pack_def bit_simps not_le dest: bit_imp_le_length)+

lemma bdf_pack_inj: "bdf_pack a = bdf_pack b \<Longrightarrow> a = b"
  by (rule Bdf.expand) (simp add: bdf_pack_fields)

lemma Bdf_hash_inject: "inj h \<Longrightarrow> Bdf_hash h a = Bdf_hash h b \<longleftrightarrow> a = b"
  by (auto simp: Bdf_hash_def inj_eq dest: bdf_pack_inj)

lemma to_identity_canonical: "Bdf_valid b \<Longrightarrow> to_identity (canonical b) = Success (StrongId (bdf_pack b))"
  by (simp add: to_identity_def parse_canonical)

text \<open>Everything the parser accepts is a valid BDF.\<close>

lemma Bdf_parse_valid: "Bdf_parse s = Success b \<Longrightarrow> Bdf_valid b"
  unfolding Bdf_parse_def Bdf_parse_triple_def Bdf_parse_end_def bdf_err_def
  by (auto simp: Let_def split: if_splits option.splits prod.splits)

end
