(* ===== verification/PF_Reservation.thy ===== *)
theory PF_Reservation
  imports PF_Ids PF_Values
begin

text \<open>
  Governed reservations, \<open>include/pciefabric/reservation.hpp\<close>: the reservation record, the
  registry with its two maps, and its operations. A mutex-protected method is one atomic step:
  every method takes the lock for its whole body. Byte counts are 64-bit words, so the sum in the
  overcommit test wraps as it does in the code; \<open>reserve_fits\<close> names the requests for which it
  does not.
\<close>

section \<open>The reservation record\<close>

record Reservation =
  rs_id :: ReservationId
  rs_generation :: ReservationGeneration
  rs_path :: PathId
  rs_path_gen :: PathGeneration
  rs_worker :: WorkerId
  rs_boot :: WorkerBootId
  rs_attempt :: AttemptId
  rs_epoch :: CoordinatorEpoch
  rs_policy :: PolicyId
  rs_policy_gen :: PolicyGeneration
  rs_bytes :: CapacityBytes
  rs_bandwidth :: BytesPerSecond
  rs_duration :: Milliseconds
  rs_priority :: u32
  rs_source :: PciNodeId
  rs_destination :: PciNodeId
  rs_workload :: string
  rs_created_at :: Milliseconds
  rs_active_flag :: bool
  rs_released :: bool

definition Reservation_new :: "ReservationId \<Rightarrow> ReservationGeneration \<Rightarrow> Reservation" where
  "Reservation_new i g =
     \<lparr>rs_id = i, rs_generation = g, rs_path = StrongId 0, rs_path_gen = Generation 0,
      rs_worker = StrongId 0, rs_boot = StrongId 0, rs_attempt = StrongId 0, rs_epoch = StrongId 0,
      rs_policy = StrongId 0, rs_policy_gen = Generation 0, rs_bytes = 0, rs_bandwidth = 0,
      rs_duration = 0, rs_priority = 0, rs_source = StrongId 0, rs_destination = StrongId 0,
      rs_workload = [], rs_created_at = 0, rs_active_flag = False, rs_released = False\<rparr>"

definition rs_set_path :: "PathId \<Rightarrow> PathGeneration \<Rightarrow> Reservation \<Rightarrow> Reservation" where
  "rs_set_path p g r = r\<lparr>rs_path := p, rs_path_gen := g\<rparr>"

definition rs_set_authority :: "WorkerId \<Rightarrow> WorkerBootId \<Rightarrow> AttemptId \<Rightarrow> CoordinatorEpoch \<Rightarrow>
    PolicyId \<Rightarrow> PolicyGeneration \<Rightarrow> Reservation \<Rightarrow> Reservation" where
  "rs_set_authority w b a e p g r = r\<lparr>rs_worker := w, rs_boot := b, rs_attempt := a, rs_epoch := e,
     rs_policy := p, rs_policy_gen := g\<rparr>"

definition rs_set_request :: "CapacityBytes \<Rightarrow> BytesPerSecond \<Rightarrow> Milliseconds \<Rightarrow> u32 \<Rightarrow> PciNodeId \<Rightarrow>
    PciNodeId \<Rightarrow> string \<Rightarrow> Reservation \<Rightarrow> Reservation" where
  "rs_set_request b bw d prio s t w r = r\<lparr>rs_bytes := b, rs_bandwidth := bw, rs_duration := d,
     rs_priority := prio, rs_source := s, rs_destination := t, rs_workload := w\<rparr>"

definition rs_active :: "Reservation \<Rightarrow> bool" where
  "rs_active r = (rs_active_flag r \<and> \<not> rs_released r)"

definition rs_mark_active :: "Reservation \<Rightarrow> Reservation" where
  "rs_mark_active r = r\<lparr>rs_active_flag := True, rs_released := False\<rparr>"

definition rs_mark_released :: "Reservation \<Rightarrow> Reservation" where
  "rs_mark_released r = r\<lparr>rs_active_flag := False, rs_released := True\<rparr>"

lemma rs_mark_simps [simp]:
  "rs_active (rs_mark_active r)" "\<not> rs_active (rs_mark_released r)"
  "rs_id (rs_mark_active r) = rs_id r" "rs_id (rs_mark_released r) = rs_id r"
  "rs_path (rs_mark_active r) = rs_path r" "rs_path (rs_mark_released r) = rs_path r"
  "rs_bytes (rs_mark_active r) = rs_bytes r" "rs_bytes (rs_mark_released r) = rs_bytes r"
  "rs_released (rs_mark_released r)" "\<not> rs_released (rs_mark_active r)"
  "\<not> rs_active_flag (rs_mark_released r)"
  by (simp_all add: rs_active_def rs_mark_active_def rs_mark_released_def)

section \<open>The registry\<close>

record ReservationLimits =
  per_path_bytes :: CapacityBytes
  max_duration :: Milliseconds

record ReservationRegistry =
  rg_limits :: ReservationLimits
  rg_reservations :: "(ReservationId, Reservation) omap"
  rg_active_by_path :: "(PathId, u64) omap"

definition ReservationRegistry_new :: "ReservationLimits \<Rightarrow> ReservationRegistry" where
  "ReservationRegistry_new l = \<lparr>rg_limits = l, rg_reservations = [], rg_active_by_path = []\<rparr>"

definition rg_set_limits :: "ReservationLimits \<Rightarrow> ReservationRegistry \<Rightarrow> ReservationRegistry" where
  "rg_set_limits l g = g\<lparr>rg_limits := l\<rparr>"

definition path_used :: "(PathId, u64) omap \<Rightarrow> PathId \<Rightarrow> u64" where
  "path_used m p = (case om_lookup m p of None \<Rightarrow> 0 | Some u \<Rightarrow> u)"

definition rg_reserve ::
    "Reservation \<Rightarrow> ReservationRegistry \<Rightarrow> Reservation Result \<times> ReservationRegistry" where
  "rg_reserve req g =
     (if om_contains (rg_reservations g) (rs_id req)
      then (Err EC_ALREADY_EXISTS ''duplicate reservation id'', g)
      else let used = path_used (rg_active_by_path g) (rs_path req) in
      if used + rs_bytes req > per_path_bytes (rg_limits g)
      then (Err EC_OVERCOMMIT ''reservation would overcommit path capacity'', g)
      else let r = rs_mark_active req in
      (Success r,
       g\<lparr>rg_reservations := om_insert (rs_id r) r (rg_reservations g),
         rg_active_by_path := om_insert (rs_path r) (used + rs_bytes r) (rg_active_by_path g)\<rparr>))"

definition rg_release :: "ReservationId \<Rightarrow> WorkerBootId \<Rightarrow> ReservationGeneration \<Rightarrow>
    CoordinatorEpoch \<Rightarrow> ReservationRegistry \<Rightarrow> unit Result \<times> ReservationRegistry" where
  "rg_release i boot gen epoch g =
     (case om_lookup (rg_reservations g) i of
        None \<Rightarrow> (Err EC_NOT_FOUND ''unknown reservation'', g)
      | Some r \<Rightarrow>
        if rs_released r then (Err EC_DUPLICATE_RELEASE ''reservation already released'', g)
        else if rs_boot r \<noteq> boot then (Err EC_STALE_BOOT ''worker boot mismatch on release'', g)
        else if rs_generation r \<noteq> gen
        then (Err EC_STALE_AUTHORITY ''reservation generation mismatch'', g)
        else if rs_epoch r \<noteq> epoch then (Err EC_STALE_EPOCH ''coordinator epoch mismatch'', g)
        else if \<not> rs_active r then (Err EC_DOUBLE_RELEASE ''reservation not active'', g)
        else let used = path_used (rg_active_by_path g) (rs_path r) in
        if used < rs_bytes r then (Err EC_ACCOUNTING_DRIFT ''accounting drift on release'', g)
        else let remaining = used - rs_bytes r in
        (Success (),
         g\<lparr>rg_active_by_path := (if remaining = 0 then om_erase (rs_path r) (rg_active_by_path g)
              else om_insert (rs_path r) remaining (rg_active_by_path g)),
           rg_reservations := om_insert i (rs_mark_released r) (rg_reservations g)\<rparr>))"

definition rg_reserved_bytes :: "ReservationRegistry \<Rightarrow> PathId \<Rightarrow> u64" where
  "rg_reserved_bytes g p = path_used (rg_active_by_path g) p"

definition rg_active_count :: "ReservationRegistry \<Rightarrow> nat" where
  "rg_active_count g = length (filter (\<lambda>kr. rs_active (snd kr)) (rg_reservations g))"

definition rg_total_count :: "ReservationRegistry \<Rightarrow> nat" where
  "rg_total_count g = length (rg_reservations g)"

definition rg_get :: "ReservationRegistry \<Rightarrow> ReservationId \<Rightarrow> Reservation option" where
  "rg_get g i = om_lookup (rg_reservations g) i"

text \<open>The two loops of \<open>validate_accounting\<close>: the sums per path, then the comparison.\<close>

fun accounting_sums ::
    "(ReservationId, Reservation) omap \<Rightarrow> (PathId, u64) omap \<Rightarrow> (PathId, u64) omap" where
  "accounting_sums [] acc = acc"
| "accounting_sums ((k, r) # rs) acc =
     accounting_sums rs
       (if rs_active r then om_insert (rs_path r) (path_used acc (rs_path r) + rs_bytes r) acc else acc)"

fun accounting_check :: "(PathId, u64) omap \<Rightarrow> (PathId, u64) omap \<Rightarrow> unit Result" where
  "accounting_check sums [] = Success ()"
| "accounting_check sums ((p, used) # m) =
     (if path_used sums p \<noteq> used
      then Err EC_ACCOUNTING_DRIFT ''reservation accounting mismatch''
      else accounting_check sums m)"

definition rg_validate_accounting :: "ReservationRegistry \<Rightarrow> unit Result" where
  "rg_validate_accounting g =
     accounting_check (accounting_sums (rg_reservations g) []) (rg_active_by_path g)"

section \<open>The abstract ledger\<close>

text \<open>
  What a registry promises: per path, the sum of the bytes of its active reservations, as an
  unbounded number.
\<close>

definition held :: "PathId \<Rightarrow> ReservationId \<Rightarrow> Reservation \<Rightarrow> nat" where
  "held p k r = (if rs_active r \<and> rs_path r = p then unat (rs_bytes r) else 0)"

definition ledger :: "ReservationRegistry \<Rightarrow> PathId \<Rightarrow> nat" where
  "ledger g p = om_sum (held p) (rg_reservations g)"

text \<open>The requests whose sum in the overcommit test does not wrap.\<close>

definition reserve_fits :: "ReservationRegistry \<Rightarrow> Reservation \<Rightarrow> bool" where
  "reserve_fits g req =
     (unat (rg_reserved_bytes g (rs_path req)) + unat (rs_bytes req) < 2 ^ 64)"

section \<open>The registry as a state machine\<close>

definition rg_initial :: "ReservationRegistry \<Rightarrow> bool" where
  "rg_initial g = (g = ReservationRegistry_new (rg_limits g))"

inductive rg_step :: "(ReservationRegistry \<Rightarrow> Reservation \<Rightarrow> bool) \<Rightarrow>
    ReservationRegistry \<Rightarrow> ReservationRegistry \<Rightarrow> bool"
  for allowed :: "ReservationRegistry \<Rightarrow> Reservation \<Rightarrow> bool" where
  step_reserve: "allowed g req \<Longrightarrow> rg_step allowed g (snd (rg_reserve req g))"
| step_release: "rg_step allowed g (snd (rg_release i boot gen epoch g))"
| step_limits: "rg_step allowed g (rg_set_limits l g)"

inductive_cases rg_stepE: "rg_step allowed g g'"

text \<open>Every call of the registry's methods, whatever its arguments.\<close>

definition rg_reach :: "ReservationRegistry \<Rightarrow> bool" where
  "rg_reach = reachable rg_initial (rg_step (\<lambda>_ _. True))"

text \<open>The same, where no sum wraps.\<close>

definition rg_reach_fits :: "ReservationRegistry \<Rightarrow> bool" where
  "rg_reach_fits = reachable rg_initial (rg_step reserve_fits)"

section \<open>The invariant\<close>

definition rg_inv :: "ReservationRegistry \<Rightarrow> bool" where
  "rg_inv g = (om_wf (rg_reservations g) \<and> om_wf (rg_active_by_path g)
     \<and> (\<forall>i r. om_lookup (rg_reservations g) i = Some r \<longrightarrow>
          rs_id r = i \<and> rs_active_flag r = (\<not> rs_released r))
     \<and> (\<forall>p. rg_reserved_bytes g p = of_nat (ledger g p))
     \<and> (\<forall>p u. om_lookup (rg_active_by_path g) p = Some u \<longrightarrow>
          (\<exists>i r. om_lookup (rg_reservations g) i = Some r \<and> rs_active r \<and> rs_path r = p)))"

lemma path_used_insert [simp]:
  "path_used (om_insert p u m) q = (if p = q then u else path_used m q)"
  by (simp add: path_used_def)

lemma path_used_erase [simp]: "path_used (om_erase p m) q = (if p = q then 0 else path_used m q)"
  by (simp add: path_used_def)

lemma path_used_Nil [simp]: "path_used [] p = 0"
  by (simp add: path_used_def)

lemma held_simps [simp]:
  "held p k (rs_mark_released r) = 0"
  "held p k (rs_mark_active r) = (if rs_path r = p then unat (rs_bytes r) else 0)"
  by (simp_all add: held_def)

lemma ledger_pos_active:
  assumes "ledger g p \<noteq> 0"
  shows "\<exists>i r. (i, r) \<in> set (rg_reservations g) \<and> rs_active r \<and> rs_path r = p"
proof (rule ccontr)
  assume "\<not> ?thesis"
  then have "om_sum (held p) (rg_reservations g) = om_sum (\<lambda>_ _. 0) (rg_reservations g)"
    by (intro om_sum_cong) (auto simp: held_def)
  then have "ledger g p = 0" by (simp add: ledger_def om_sum_def)
  with assms show False by simp
qed

lemma rg_inv_init: "rg_initial g \<Longrightarrow> rg_inv g"
  by (cases g) (simp add: rg_initial_def rg_inv_def ReservationRegistry_new_def
      rg_reserved_bytes_def ledger_def)

text \<open>A reserve that succeeds, and a release that succeeds, in terms of what they change.\<close>

lemma rg_reserve_cases:
  obtains (refused) c m where "rg_reserve req g = (Err c m, g)"
  | (granted) "om_lookup (rg_reservations g) (rs_id req) = None"
      "rg_reserved_bytes g (rs_path req) + rs_bytes req \<le> per_path_bytes (rg_limits g)"
      "rg_reserve req g = (Success (rs_mark_active req),
         g\<lparr>rg_reservations := om_insert (rs_id req) (rs_mark_active req) (rg_reservations g),
           rg_active_by_path := om_insert (rs_path req)
             (rg_reserved_bytes g (rs_path req) + rs_bytes req) (rg_active_by_path g)\<rparr>)"
proof (cases "om_lookup (rg_reservations g) (rs_id req) = None \<and>
    rg_reserved_bytes g (rs_path req) + rs_bytes req \<le> per_path_bytes (rg_limits g)")
  case True
  then show ?thesis
    by (intro granted) (auto simp: rg_reserve_def Let_def om_contains_def rg_reserved_bytes_def)
next
  case False
  then have "\<exists>c m. rg_reserve req g = (Err c m, g)"
    by (auto simp: rg_reserve_def Let_def om_contains_def rg_reserved_bytes_def not_le)
  then show ?thesis using refused by blast
qed

definition release_state :: "ReservationId \<Rightarrow> Reservation \<Rightarrow> ReservationRegistry \<Rightarrow> ReservationRegistry" where
  "release_state i r g =
     g\<lparr>rg_active_by_path :=
         (if rg_reserved_bytes g (rs_path r) = rs_bytes r then om_erase (rs_path r) (rg_active_by_path g)
          else om_insert (rs_path r) (rg_reserved_bytes g (rs_path r) - rs_bytes r) (rg_active_by_path g)),
       rg_reservations := om_insert i (rs_mark_released r) (rg_reservations g)\<rparr>"

lemma rg_release_cases:
  obtains (refused) c m where "rg_release i boot gen epoch g = (Err c m, g)"
  | (done_) r where "om_lookup (rg_reservations g) i = Some r" "rs_active r"
      "rs_boot r = boot" "rs_generation r = gen" "rs_epoch r = epoch"
      "rs_bytes r \<le> rg_reserved_bytes g (rs_path r)"
      "rg_release i boot gen epoch g = (Success (), release_state i r g)"
proof (cases "om_lookup (rg_reservations g) i")
  case None
  then show ?thesis by (intro refused) (simp add: rg_release_def)
next
  case (Some r)
  show ?thesis
  proof (cases "rs_active r \<and> rs_boot r = boot \<and> rs_generation r = gen \<and> rs_epoch r = epoch \<and>
      rs_bytes r \<le> rg_reserved_bytes g (rs_path r)")
    case True
    with Some show ?thesis
      by (intro done_ [of r])
         (auto simp: rg_release_def Let_def rg_reserved_bytes_def release_state_def rs_active_def)
  next
    case False
    with Some have "\<exists>c m. rg_release i boot gen epoch g = (Err c m, g)"
      by (auto simp: rg_release_def Let_def rg_reserved_bytes_def not_le)
    then show ?thesis using refused by blast
  qed
qed

lemma ledger_reserve:
  assumes "om_lookup (rg_reservations g) (rs_id req) = None"
  shows "ledger (g\<lparr>rg_reservations := om_insert (rs_id req) (rs_mark_active req) (rg_reservations g),
       rg_active_by_path := m\<rparr>) p = ledger g p + (if p = rs_path req then unat (rs_bytes req) else 0)"
  by (simp add: ledger_def om_sum_insert_new [OF assms])

lemma ledger_release:
  assumes "rg_inv g" and "om_lookup (rg_reservations g) i = Some r" and "rs_active r"
  shows "ledger (release_state i r g) p + (if p = rs_path r then unat (rs_bytes r) else 0) = ledger g p"
proof -
  have "om_wf (rg_reservations g)" using assms(1) by (simp add: rg_inv_def)
  from om_sum_insert_old [OF this assms(2), of "held p" "rs_mark_released r"] assms(3)
  show ?thesis by (auto simp: ledger_def release_state_def held_def [of p i r])
qed

lemma of_nat_ledger_wrap: "(of_nat (a + unat b) :: u64) = of_nat a + b"
  by simp

lemma rg_inv_reserve:
  assumes inv: "rg_inv g"
  shows "rg_inv (snd (rg_reserve req g))"
proof (cases rule: rg_reserve_cases [of req g])
  case (refused c m)
  with inv show ?thesis by simp
next
  case granted
  let ?g = "snd (rg_reserve req g)"
  have l: "of_nat (ledger ?g p) = of_nat (ledger g p) + (if p = rs_path req then rs_bytes req else 0)"
    for p using ledger_reserve [OF granted(1)] granted(3) by simp
  then have "rg_reserved_bytes ?g p = of_nat (ledger ?g p)" for p
    using inv granted(3) by (auto simp: rg_inv_def rg_reserved_bytes_def)
  moreover have "\<exists>i r. om_lookup (rg_reservations ?g) i = Some r \<and> rs_active r \<and> rs_path r = p"
    if "om_lookup (rg_active_by_path ?g) p = Some u" for p u
  proof (cases "p = rs_path req")
    case True
    then show ?thesis using granted(3) by (intro exI [of _ "rs_id req"]) auto
  next
    case False
    then have "om_lookup (rg_active_by_path g) p = Some u" using that granted(3) by simp
    then obtain i r where "om_lookup (rg_reservations g) i = Some r" "rs_active r" "rs_path r = p"
      using inv unfolding rg_inv_def by blast
    then show ?thesis using granted(1,3) by (intro exI [of _ i] exI [of _ r]) auto
  qed
  moreover have "om_wf (rg_reservations ?g) \<and> om_wf (rg_active_by_path ?g) \<and>
      (\<forall>i r. om_lookup (rg_reservations ?g) i = Some r \<longrightarrow> rs_id r = i \<and> rs_active_flag r = (\<not> rs_released r))"
    using inv granted(3) by (auto simp: rg_inv_def rs_mark_active_def)
  ultimately show ?thesis by (simp add: rg_inv_def [of ?g])
qed

lemma rg_inv_release:
  assumes inv: "rg_inv g"
  shows "rg_inv (snd (rg_release i boot gen epoch g))"
proof (cases rule: rg_release_cases [of i boot gen epoch g])
  case (refused c m)
  with inv show ?thesis by simp
next
  case (done_ r)
  let ?g = "release_state i r g"
  have l: "ledger ?g p + (if p = rs_path r then unat (rs_bytes r) else 0) = ledger g p" for p
    by (rule ledger_release [OF inv done_(1,2)])
  have bal: "rg_reserved_bytes ?g p = of_nat (ledger ?g p)" for p
  proof -
    have now: "rg_reserved_bytes g p = of_nat (ledger g p)" using inv by (simp add: rg_inv_def)
    show ?thesis
    proof (cases "p = rs_path r")
      case True
      have "rg_reserved_bytes ?g p = rg_reserved_bytes g p - rs_bytes r"
        using True by (simp add: release_state_def rg_reserved_bytes_def)
      moreover have "of_nat (ledger g p) = (of_nat (ledger ?g p) :: u64) + rs_bytes r"
        using True l [of p] by (metis of_nat_ledger_wrap)
      ultimately show ?thesis using now by simp
    next
      case False
      then have "rg_reserved_bytes ?g p = rg_reserved_bytes g p"
        by (simp add: release_state_def rg_reserved_bytes_def)
      with False l [of p] now show ?thesis by simp
    qed
  qed
  moreover have "\<exists>j q. om_lookup (rg_reservations ?g) j = Some q \<and> rs_active q \<and> rs_path q = p"
    if u: "om_lookup (rg_active_by_path ?g) p = Some u" for p u
  proof (cases "p = rs_path r")
    case True
    with u have "rg_reserved_bytes ?g p \<noteq> 0"
      by (auto simp: release_state_def rg_reserved_bytes_def split: if_splits)
    then have "ledger ?g p \<noteq> 0" unfolding bal by (rule contrapos_nn) simp
    moreover have "om_wf (rg_reservations ?g)" using inv by (simp add: rg_inv_def release_state_def)
    ultimately show ?thesis using ledger_pos_active [of ?g p] by (meson om_in_set_lookup)
  next
    case False
    then have "om_lookup (rg_active_by_path g) p = Some u"
      using u by (auto simp: release_state_def split: if_splits)
    then obtain j q where "om_lookup (rg_reservations g) j = Some q" "rs_active q" "rs_path q = p"
      using inv unfolding rg_inv_def by blast
    then show ?thesis
      using False done_(1) by (intro exI [of _ j] exI [of _ q]) (auto simp: release_state_def)
  qed
  moreover have "om_wf (rg_reservations ?g) \<and> om_wf (rg_active_by_path ?g) \<and>
      (\<forall>i r. om_lookup (rg_reservations ?g) i = Some r \<longrightarrow> rs_id r = i \<and> rs_active_flag r = (\<not> rs_released r))"
    using inv done_(1) by (auto simp: rg_inv_def release_state_def)
  ultimately show ?thesis using done_(7) by (simp add: rg_inv_def [of ?g])
qed

lemma rg_inv_limits: "rg_inv g \<Longrightarrow> rg_inv (rg_set_limits l g)"
  by (simp add: rg_inv_def rg_set_limits_def rg_reserved_bytes_def ledger_def)

interpretation rg: invariant rg_initial "rg_step allowed" rg_inv
  by unfold_locales (auto elim!: rg_stepE intro: rg_inv_init rg_inv_reserve rg_inv_release rg_inv_limits)

lemma rg_reach_inv: "rg_reach g \<Longrightarrow> rg_inv g"
  unfolding rg_reach_def by (rule rg.always)

section \<open>Accounting closes\<close>

lemma accounting_sums_used:
  "path_used (accounting_sums rs acc) p = path_used acc p + of_nat (om_sum (held p) rs)"
  by (induction rs acc rule: accounting_sums.induct) (auto simp: held_def add.assoc)

lemma accounting_check_ok:
  "(\<And>p u. (p, u) \<in> set m \<Longrightarrow> path_used sums p = u) \<Longrightarrow> accounting_check sums m = Success ()"
  by (induction sums m rule: accounting_check.induct) auto

lemma rg_inv_validate:
  assumes "rg_inv g"
  shows "rg_validate_accounting g = Success ()"
  unfolding rg_validate_accounting_def
proof (rule accounting_check_ok)
  fix p u assume "(p, u) \<in> set (rg_active_by_path g)"
  with assms have "om_lookup (rg_active_by_path g) p = Some u"
    by (simp add: rg_inv_def om_in_set_lookup)
  then have "rg_reserved_bytes g p = u" by (simp add: rg_reserved_bytes_def path_used_def)
  with assms show "path_used (accounting_sums (rg_reservations g) []) p = u"
    by (simp add: accounting_sums_used rg_inv_def ledger_def)
qed

section \<open>Without wrap-around the accounting is exact\<close>

definition rg_exact :: "ReservationRegistry \<Rightarrow> bool" where
  "rg_exact g = (rg_inv g \<and> (\<forall>p. unat (rg_reserved_bytes g p) = ledger g p))"

lemma rg_exact_reserve:
  assumes ex: "rg_exact g" and fits: "reserve_fits g req"
  shows "rg_exact (snd (rg_reserve req g))"
proof (cases rule: rg_reserve_cases [of req g])
  case (refused c m)
  with ex show ?thesis by simp
next
  case granted
  have "unat (rg_reserved_bytes g (rs_path req) + rs_bytes req) =
      ledger g (rs_path req) + unat (rs_bytes req)"
    using ex fits by (simp add: rg_exact_def reserve_fits_def unat_add_lem [THEN iffD1])
  then have "unat (rg_reserved_bytes (snd (rg_reserve req g)) p) = ledger (snd (rg_reserve req g)) p" for p
    using ex ledger_reserve [OF granted(1)] granted(3) by (auto simp: rg_exact_def rg_reserved_bytes_def)
  with ex rg_inv_reserve show ?thesis by (simp add: rg_exact_def)
qed

lemma rg_exact_release:
  assumes ex: "rg_exact g"
  shows "rg_exact (snd (rg_release i boot gen epoch g))"
proof (cases rule: rg_release_cases [of i boot gen epoch g])
  case (refused c m)
  with ex show ?thesis by simp
next
  case (done_ r)
  let ?g = "release_state i r g"
  have inv: "rg_inv g" using ex by (simp add: rg_exact_def)
  have l: "ledger ?g p + (if p = rs_path r then unat (rs_bytes r) else 0) = ledger g p" for p
    by (rule ledger_release [OF inv done_(1,2)])
  have sub: "unat (rg_reserved_bytes g (rs_path r) - rs_bytes r) =
      unat (rg_reserved_bytes g (rs_path r)) - unat (rs_bytes r)"
    using done_(6) by (simp add: unat_sub)
  have "unat (rg_reserved_bytes ?g p) = ledger ?g p" for p
  proof (cases "p = rs_path r")
    case True
    then have "rg_reserved_bytes ?g p = rg_reserved_bytes g p - rs_bytes r"
      by (auto simp: release_state_def rg_reserved_bytes_def)
    with True sub l [of p] ex show ?thesis by (auto simp: rg_exact_def)
  next
    case False
    then have "rg_reserved_bytes ?g p = rg_reserved_bytes g p"
      by (auto simp: release_state_def rg_reserved_bytes_def)
    with False l [of p] ex show ?thesis by (simp add: rg_exact_def)
  qed
  with done_(7) rg_inv_release [OF inv, of i boot gen epoch] show ?thesis by (simp add: rg_exact_def)
qed

interpretation rgx: invariant rg_initial "rg_step reserve_fits" rg_exact
proof
  show "rg_exact g" if "rg_initial g" for g
    using that rg_inv_init [OF that]
    by (cases g) (simp add: rg_exact_def rg_initial_def ReservationRegistry_new_def
        rg_reserved_bytes_def ledger_def)
  show "rg_exact g'" if "rg_exact g" "rg_step reserve_fits g g'" for g g'
    using that(2)
  proof cases
    case (step_limits l)
    with that(1) show ?thesis
      by (simp add: rg_exact_def rg_inv_limits) (simp add: rg_set_limits_def rg_reserved_bytes_def ledger_def)
  qed (use that(1) in \<open>auto intro: rg_exact_reserve rg_exact_release\<close>)
qed

lemma rg_reach_exact: "rg_reach_fits g \<Longrightarrow> rg_exact g"
  unfolding rg_reach_fits_def by (rule rgx.always)


section \<open>Overcommit and release\<close>

lemma rg_exact_no_overcommit:
  assumes ex: "rg_exact g" and fits: "reserve_fits g req" and ok: "rg_reserve req g = (Success r, g')"
  shows "ledger g' (rs_path req) = ledger g (rs_path req) + unat (rs_bytes req) \<and>
         ledger g' (rs_path req) \<le> unat (per_path_bytes (rg_limits g))"
proof (cases rule: rg_reserve_cases [of req g])
  case (refused c m)
  with ok show ?thesis by simp
next
  case granted
  have l: "ledger g' (rs_path req) = ledger g (rs_path req) + unat (rs_bytes req)"
    using ledger_reserve [OF granted(1)] granted(3) ok by auto
  have "unat (rg_reserved_bytes g (rs_path req) + rs_bytes req) = ledger g (rs_path req) + unat (rs_bytes req)"
    using ex fits by (simp add: rg_exact_def reserve_fits_def unat_add_lem [THEN iffD1])
  with granted(2) l show ?thesis by (simp add: word_le_nat_alt)
qed

text \<open>
  Exactly when a release succeeds, in any state: the counter of the path must cover the bytes, which it
  does in a state the registry can be in unless the path's 64-bit sum has wrapped.
\<close>

lemma rg_release_iff:
  "fst (rg_release i boot gen epoch g) = Success () \<longleftrightarrow>
    (\<exists>r. rg_get g i = Some r \<and> rs_active r \<and> rs_boot r = boot \<and> rs_generation r = gen \<and> rs_epoch r = epoch \<and>
      rs_bytes r \<le> rg_reserved_bytes g (rs_path r))"
proof (cases rule: rg_release_cases [of i boot gen epoch g])
  case (refused c m)
  then show ?thesis by (auto simp: rg_release_def rg_get_def rs_active_def rg_reserved_bytes_def Let_def split: if_splits)
qed (auto simp: rg_get_def)

lemma rg_counter_covers:
  assumes "rg_inv g" and "rg_get g i = Some r" and "rs_active r" and "ledger g (rs_path r) < 2 ^ 64"
  shows "rs_bytes r \<le> rg_reserved_bytes g (rs_path r)"
proof -
  have "held (rs_path r) i r \<le> ledger g (rs_path r)"
    unfolding ledger_def by (rule om_sum_ge) (rule assms(2) [unfolded rg_get_def])
  moreover have "unat (rg_reserved_bytes g (rs_path r)) = ledger g (rs_path r)"
    using assms(1,4) by (simp add: rg_inv_def unat_of_nat)
  ultimately show ?thesis using assms(3) by (simp add: held_def word_le_nat_alt)
qed

lemma rg_exact_ledger:
  assumes "rg_exact g"
  shows "ledger g p < 2 ^ 64"
proof -
  have "unat (rg_reserved_bytes g p) < 2 ^ LENGTH(64)" by (rule unsigned_less)
  with assms show ?thesis by (simp add: rg_exact_def)
qed


lemma rg_exact_release_iff:
  assumes "rg_exact g"
  shows "fst (rg_release i boot gen epoch g) = Success () \<longleftrightarrow>
    (\<exists>r. rg_get g i = Some r \<and> rs_active r \<and> rs_boot r = boot \<and> rs_generation r = gen \<and> rs_epoch r = epoch)"
  using rg_counter_covers [of g i] rg_exact_ledger [OF assms] assms by (auto simp: rg_release_iff rg_exact_def)

lemma release_twice:
  "fst (rg_release i boot gen epoch g) = Success () \<Longrightarrow>
   rg_release i b ge e (snd (rg_release i boot gen epoch g)) =
     (Err EC_DUPLICATE_RELEASE ''reservation already released'', snd (rg_release i boot gen epoch g))"
  by (cases rule: rg_release_cases [of i boot gen epoch g])
     (auto simp: release_state_def rg_release_def [of i b])

text \<open>When nothing is active nothing is held, and the per-path map is empty.\<close>

lemma rg_inv_closed:
  assumes "rg_inv g" and "rg_active_count g = 0"
  shows "rg_active_by_path g = []"
proof (rule ccontr)
  assume "rg_active_by_path g \<noteq> []"
  then obtain p u m where "rg_active_by_path g = (p, u) # m" by (metis list.exhaust surj_pair)
  then have "om_lookup (rg_active_by_path g) p = Some u" by simp
  then obtain i r where "om_lookup (rg_reservations g) i = Some r" "rs_active r"
    using assms(1) unfolding rg_inv_def by blast
  then have "(i, r) \<in> set (filter (\<lambda>kr. rs_active (snd kr)) (rg_reservations g))"
    by (auto dest: om_lookup_in_set)
  with assms(2) show False by (auto simp: rg_active_count_def)
qed

lemma rg_inv_never_double:
  assumes "rg_inv g"
  shows "res_code (fst (rg_release i boot gen epoch g)) \<noteq> EC_DOUBLE_RELEASE"
proof (cases "om_lookup (rg_reservations g) i")
  case (Some r)
  with assms have "rs_active r = (\<not> rs_released r)" by (auto simp: rg_inv_def rs_active_def)
  with Some show ?thesis by (simp add: rg_release_def Let_def)
qed (simp add: rg_release_def)

section \<open>The ledger as the abstract state\<close>

text \<open>
  The contract the registry implements, on the ledger of unbounded sums: granting adds a request's
  bytes to its path, releasing takes them back.
\<close>

definition ledger_add :: "PathId \<Rightarrow> nat \<Rightarrow> (PathId \<Rightarrow> nat) \<Rightarrow> PathId \<Rightarrow> nat" where
  "ledger_add p n l = l(p := l p + n)"

definition ledger_sub :: "PathId \<Rightarrow> nat \<Rightarrow> (PathId \<Rightarrow> nat) \<Rightarrow> PathId \<Rightarrow> nat" where
  "ledger_sub p n l = l(p := l p - n)"

lemma reserve_ledger:
  "ledger (snd (rg_reserve req g)) = (if res_ok (fst (rg_reserve req g))
     then ledger_add (rs_path req) (unat (rs_bytes req)) (ledger g) else ledger g)"
proof (cases rule: rg_reserve_cases [of req g])
  case granted
  show ?thesis using ledger_reserve [OF granted(1)] by (auto simp: granted(3) ledger_add_def fun_eq_iff)
qed simp

lemma release_ledger:
  assumes "rg_inv g" and "rg_get g i = Some r"
  shows "ledger (snd (rg_release i boot gen epoch g)) = (if res_ok (fst (rg_release i boot gen epoch g))
     then ledger_sub (rs_path r) (unat (rs_bytes r)) (ledger g) else ledger g)"
proof (cases rule: rg_release_cases [of i boot gen epoch g])
  case (done_ q)
  then have "q = r" using assms(2) by (simp add: rg_get_def)
  have "ledger (release_state i r g) p + (if p = rs_path r then unat (rs_bytes r) else 0) = ledger g p" for p
    using ledger_release [OF assms(1) done_(1,2)] unfolding \<open>q = r\<close> .
  then show ?thesis using done_(7) \<open>q = r\<close>
    by (auto simp: ledger_sub_def fun_eq_iff) (metis add_diff_cancel_right' add.right_neutral)+
qed simp

section \<open>A registry can always be drained\<close>

text \<open>
  Releasing every reservation a registry lists, each once and under its own boot, generation and
  epoch.
\<close>

definition drain_one :: "ReservationId \<times> Reservation \<Rightarrow> ReservationRegistry \<Rightarrow> ReservationRegistry" where
  "drain_one x g = snd (rg_release (fst x) (rs_boot (snd x)) (rs_generation (snd x)) (rs_epoch (snd x)) g)"

definition drain :: "ReservationRegistry \<Rightarrow> ReservationRegistry" where
  "drain g = fold drain_one (rg_reservations g) g"

lemma drain_one_keeps:
  assumes "rg_exact g"
  shows "rg_exact (drain_one x g)" and "rg_limits (drain_one x g) = rg_limits g"
    and "rg_get (drain_one x g) i = None \<longleftrightarrow> rg_get g i = None"
    and "rg_get (drain_one x g) i = Some r \<Longrightarrow> rs_active r \<Longrightarrow> rg_get g i = Some r \<and> (i, r) \<noteq> x"
proof -
  let ?rel = "rg_release (fst x) (rs_boot (snd x)) (rs_generation (snd x)) (rs_epoch (snd x)) g"
  show "rg_exact (drain_one x g)" unfolding drain_one_def by (rule rg_exact_release [OF assms])
  have "rg_limits (snd ?rel) = rg_limits g \<and> (rg_get (snd ?rel) i = None \<longleftrightarrow> rg_get g i = None)"
    by (cases rule: rg_release_cases [of "fst x" "rs_boot (snd x)" "rs_generation (snd x)" "rs_epoch (snd x)" g])
       (simp_all add: release_state_def rg_get_def)
  then show "rg_limits (drain_one x g) = rg_limits g" "rg_get (drain_one x g) i = None \<longleftrightarrow> rg_get g i = None"
    by (simp_all add: drain_one_def)
  assume r: "rg_get (drain_one x g) i = Some r" "rs_active r"
  show "rg_get g i = Some r \<and> (i, r) \<noteq> x"
  proof (cases rule: rg_release_cases [of "fst x" "rs_boot (snd x)" "rs_generation (snd x)" "rs_epoch (snd x)" g])
    case (refused c m)
    then have "fst ?rel \<noteq> Success ()" by simp
    with r refused show ?thesis
      unfolding rg_exact_release_iff [OF assms] by (auto simp: drain_one_def rg_get_def)
  next
    case (done_ q)
    with r show ?thesis
      by (cases "i = fst x") (auto simp: drain_one_def rg_get_def release_state_def rs_active_def rs_mark_released_def)
  qed
qed

lemma drain_all:
  assumes "rg_exact g" and "\<forall>i r. rg_get g i = Some r \<longrightarrow> rs_active r \<longrightarrow> (i, r) \<in> set xs"
  shows "rg_exact (fold drain_one xs g) \<and> rg_limits (fold drain_one xs g) = rg_limits g \<and>
    (rg_get (fold drain_one xs g) j = None \<longleftrightarrow> rg_get g j = None) \<and>
    (\<forall>i r. rg_get (fold drain_one xs g) i = Some r \<longrightarrow> \<not> rs_active r)"
  using assms
proof (induction xs arbitrary: g)
  case (Cons x xs)
  note keep = drain_one_keeps [OF Cons.prems(1), of x]
  have "\<forall>i r. rg_get (drain_one x g) i = Some r \<longrightarrow> rs_active r \<longrightarrow> (i, r) \<in> set xs"
    using keep(4) Cons.prems(2) by fastforce
  from Cons.IH [OF keep(1) this] keep(2,3) show ?case by simp
qed simp

lemma drain_empty:
  assumes "rg_exact g"
  shows "rg_active_count (drain g) = 0 \<and> rg_active_by_path (drain g) = [] \<and>
    rg_limits (drain g) = rg_limits g \<and> (rg_get (drain g) i = None \<longleftrightarrow> rg_get g i = None)"
proof -
  have "\<forall>i r. rg_get g i = Some r \<longrightarrow> rs_active r \<longrightarrow> (i, r) \<in> set (rg_reservations g)"
    by (auto simp: rg_get_def dest: om_lookup_in_set)
  from drain_all [OF assms this, of i] have d: "rg_exact (drain g)" "rg_limits (drain g) = rg_limits g"
    "rg_get (drain g) i = None \<longleftrightarrow> rg_get g i = None"
    "\<forall>i r. rg_get (drain g) i = Some r \<longrightarrow> \<not> rs_active r" by (simp_all add: drain_def)
  have inv: "rg_inv (drain g)" using d(1) by (simp add: rg_exact_def)
  have "\<not> rs_active r" if "(i, r) \<in> set (rg_reservations (drain g))" for i r
    using d(4) that inv by (auto simp: rg_get_def rg_inv_def dest: om_in_set_lookup)
  then have "rg_active_count (drain g) = 0"
    by (auto simp: rg_active_count_def filter_empty_conv)
  with rg_inv_closed [OF inv this] d show ?thesis by simp
qed

lemma drain_grants:
  assumes "rg_exact g" and "rg_get g (rs_id req) = None" and "rs_bytes req \<le> per_path_bytes (rg_limits g)"
  shows "rg_reserve req (drain g) = (Success (rs_mark_active req), snd (rg_reserve req (drain g)))"
  using drain_empty [OF assms(1), of "rs_id req"] assms(2,3)
  by (simp add: rg_reserve_def om_contains_def rg_get_def Let_def path_used_def)

section \<open>What \<open>reserve\<close> does not look at\<close>

text \<open>
  The limit on the duration is never compared with a request, and the authority a request carries
  does not decide whether it is granted.
\<close>

lemma reserve_ignores_duration:
  "fst (rg_reserve req (g\<lparr>rg_limits := (rg_limits g)\<lparr>max_duration := d\<rparr>\<rparr>)) = fst (rg_reserve req g)"
  by (simp add: rg_reserve_def Let_def)

lemma reserve_ignores_authority:
  "res_ok (fst (rg_reserve (rs_set_authority w b a e p pg req) g)) = res_ok (fst (rg_reserve req g))"
  by (simp add: rg_reserve_def rs_set_authority_def Let_def)

end
