(* ===== verification/PF_Link.thy ===== *)
theory PF_Link
  imports PF_Ids PF_Enums PF_Values
begin

text \<open>
  Facts with provenance and freshness (\<open>include/pciefabric/provenance.hpp\<close>), the theoretical link
  envelope (\<open>bandwidth.hpp\<close>) and the link capability record (\<open>link.hpp\<close>). The envelope's doubles
  are computed with the rounded operations of \<open>PF_Binary64\<close>, in the order the code writes them.
\<close>

section \<open>Provenance and freshness\<close>

record 'a Provenanced =
  pv_value :: 'a
  pv_provenance :: Provenance
  pv_confidence :: Confidence

definition Provenanced_new :: "'a \<Rightarrow> Provenance \<Rightarrow> Confidence \<Rightarrow> 'a Provenanced" where
  "Provenanced_new v p c = \<lparr>pv_value = v, pv_provenance = p, pv_confidence = c\<rparr>"

definition pv_measured :: "'a Provenanced \<Rightarrow> bool" where
  "pv_measured x = (pv_provenance x = Prov_MEASURED)"

definition pv_derived :: "'a Provenanced \<Rightarrow> bool" where
  "pv_derived x = (pv_provenance x = Prov_DERIVED)"

definition pv_synthetic :: "'a Provenanced \<Rightarrow> bool" where
  "pv_synthetic x = (pv_provenance x = Prov_SYNTHETIC)"

definition pv_unknown :: "'a Provenanced \<Rightarrow> bool" where
  "pv_unknown x = (pv_provenance x = Prov_UNKNOWN)"

record FreshnessRecord =
  fr_state :: Freshness
  fr_age_ms :: u64

definition FreshnessRecord_default :: FreshnessRecord where
  "FreshnessRecord_default = \<lparr>fr_state = Fresh_REVALIDATION_REQUIRED, fr_age_ms = 0\<rparr>"

definition FreshnessRecord_new :: "Freshness \<Rightarrow> u64 \<Rightarrow> FreshnessRecord" where
  "FreshnessRecord_new s a = \<lparr>fr_state = s, fr_age_ms = a\<rparr>"

definition fr_is_current :: "FreshnessRecord \<Rightarrow> bool" where
  "fr_is_current f = (fr_state f = Fresh_CURRENT)"

definition fr_requires_revalidation :: "FreshnessRecord \<Rightarrow> bool" where
  "fr_requires_revalidation f =
     (fr_state f = Fresh_REVALIDATION_REQUIRED \<or> fr_state f = Fresh_INVALID)"

type_synonym EpochMs = Milliseconds

section \<open>The envelope arithmetic\<close>

definition signaling_gts :: "PcieGen \<Rightarrow> f64" where
  "signaling_gts g = (case g of
      Gen_GEN1 \<Rightarrow> f64_lit 5 2 | Gen_GEN2 \<Rightarrow> f64_lit 5 1 | Gen_GEN3 \<Rightarrow> f64_lit 8 1
    | Gen_GEN4 \<Rightarrow> f64_lit 16 1 | Gen_GEN5 \<Rightarrow> f64_lit 32 1 | Gen_GEN6 \<Rightarrow> f64_lit 64 1
    | Gen_UNKNOWN \<Rightarrow> f64_lit 0 1 | Gen_raw _ \<Rightarrow> f64_lit 0 1)"

definition encoding_ratio :: "PcieGen \<Rightarrow> f64" where
  "encoding_ratio g = (if g = Gen_GEN1 \<or> g = Gen_GEN2 then f64_div (f64_lit 8 1) (f64_lit 10 1)
     else f64_div (f64_lit 128 1) (f64_lit 130 1))"

definition effective_gbps_per_lane :: "PcieGen \<Rightarrow> f64" where
  "effective_gbps_per_lane g = f64_mul (signaling_gts g) (encoding_ratio g)"

definition f64_1e9 :: f64 where
  "f64_1e9 = f64_lit 1000000000 1"

definition effective_bytes_per_lane :: "PcieGen \<Rightarrow> f64" where
  "effective_bytes_per_lane g = f64_div (f64_mul (effective_gbps_per_lane g) f64_1e9) (f64_lit 8 1)"

definition raw_bytes_per_sec :: "PcieGen \<Rightarrow> u16 \<Rightarrow> f64" where
  "raw_bytes_per_sec g lanes =
     f64_mul (f64_div (f64_mul (signaling_gts g) f64_1e9) (f64_lit 8 1)) (f64_of_nat (unat lanes))"

definition effective_bytes_per_sec :: "PcieGen \<Rightarrow> u16 \<Rightarrow> BytesPerSecond" where
  "effective_bytes_per_sec g lanes = f64_mul (effective_bytes_per_lane g) (f64_of_nat (unat lanes))"

definition effective_gib_per_sec :: "PcieGen \<Rightarrow> u16 \<Rightarrow> GiBPerSecond" where
  "effective_gib_per_sec g lanes =
     f64_div (f64_mul (effective_bytes_per_lane g) (f64_of_nat (unat lanes))) f64_two30"

definition lane_count_valid :: "u16 \<Rightarrow> bool" where
  "lane_count_valid lanes = (1 \<le> lanes \<and> lanes \<le> 32 \<and>
     (lanes = 1 \<or> lanes = 2 \<or> lanes = 4 \<or> lanes = 8 \<or> lanes = 16 \<or> lanes = 32))"

section \<open>The link envelope\<close>

record LinkEnvelope =
  le_generation :: PcieGen
  le_lanes :: LaneCount
  le_effective_bps :: BytesPerSecond
  le_effective_gib :: GiBPerSecond
  le_raw_bytes :: BytesPerSecond

definition LinkEnvelope_new :: "PcieGen \<Rightarrow> LaneCount \<Rightarrow> LinkEnvelope" where
  "LinkEnvelope_new g lanes =
     \<lparr>le_generation = g, le_lanes = lanes, le_effective_bps = effective_bytes_per_sec g lanes,
      le_effective_gib = effective_gib_per_sec g lanes, le_raw_bytes = raw_bytes_per_sec g lanes\<rparr>"

definition le_valid :: "LinkEnvelope \<Rightarrow> bool" where
  "le_valid e = (lane_count_valid (le_lanes e) \<and> f64_lt 0 (le_effective_bps e))"

definition le_provenance :: "LinkEnvelope \<Rightarrow> Provenance" where
  "le_provenance e = Prov_DERIVED"

section \<open>Link capability\<close>

record LinkCapability =
  lc_supported_gen :: "PcieGen option"
  lc_negotiated_gen :: "PcieGen option"
  lc_supported_width :: "u16 option"
  lc_negotiated_width :: "u16 option"
  lc_max_payload :: "Bytes option"
  lc_max_rr :: "Bytes option"
  lc_speed_gbps :: "f64 option"
  lc_provenance :: Provenance

definition LinkCapability_default :: LinkCapability where
  "LinkCapability_default =
     \<lparr>lc_supported_gen = None, lc_negotiated_gen = None, lc_supported_width = None,
      lc_negotiated_width = None, lc_max_payload = None, lc_max_rr = None, lc_speed_gbps = None,
      lc_provenance = Prov_REPORTED\<rparr>"

definition lc_set_supported_gen :: "PcieGen \<Rightarrow> Provenance \<Rightarrow> LinkCapability \<Rightarrow> LinkCapability" where
  "lc_set_supported_gen g p c = c\<lparr>lc_supported_gen := Some g, lc_provenance := p\<rparr>"

definition lc_set_negotiated_gen :: "PcieGen \<Rightarrow> Provenance \<Rightarrow> LinkCapability \<Rightarrow> LinkCapability" where
  "lc_set_negotiated_gen g p c = c\<lparr>lc_negotiated_gen := Some g, lc_provenance := p\<rparr>"

definition envelope_if_valid :: "PcieGen option \<Rightarrow> u16 option \<Rightarrow> LinkEnvelope option" where
  "envelope_if_valid gen width = (case (gen, width) of
      (Some g, Some w) \<Rightarrow> if le_valid (LinkEnvelope_new g w) then Some (LinkEnvelope_new g w) else None
    | _ \<Rightarrow> None)"

definition theoretical_envelope :: "LinkCapability \<Rightarrow> LinkEnvelope option" where
  "theoretical_envelope c = envelope_if_valid (lc_supported_gen c) (lc_supported_width c)"

definition negotiated_envelope :: "LinkCapability \<Rightarrow> LinkEnvelope option" where
  "negotiated_envelope c = envelope_if_valid (lc_negotiated_gen c) (lc_negotiated_width c)"

record Link =
  lk_id :: LinkId
  lk_generation :: LinkGeneration
  lk_upstream :: PciNodeId
  lk_downstream :: PciNodeId
  lk_capability :: LinkCapability

definition Link_new :: "LinkId \<Rightarrow> LinkGeneration \<Rightarrow> PciNodeId \<Rightarrow> PciNodeId \<Rightarrow> LinkCapability \<Rightarrow> Link" where
  "Link_new i g u d c =
     \<lparr>lk_id = i, lk_generation = g, lk_upstream = u, lk_downstream = d, lk_capability = c\<rparr>"

section \<open>The envelope of a valid link is positive\<close>

lemma lane_count_cases:
  "lane_count_valid w \<longleftrightarrow> w = 1 \<or> w = 2 \<or> w = 4 \<or> w = 8 \<or> w = 16 \<or> w = 32"
  by (auto simp: lane_count_valid_def)

text \<open>The per-lane rates, as the bit patterns that constant folding yields.\<close>

lemma effective_bytes_per_lane_eval:
  "effective_bytes_per_lane Gen_GEN1 = 0x41ADCD6500000000"
  "effective_bytes_per_lane Gen_GEN2 = 0x41BDCD6500000000"
  "effective_bytes_per_lane Gen_GEN3 = 0x41CD5804EC4EC4ED"
  "effective_bytes_per_lane Gen_GEN4 = 0x41DD5804EC4EC4ED"
  "effective_bytes_per_lane Gen_GEN5 = 0x41ED5804EC4EC4ED"
  "effective_bytes_per_lane Gen_GEN6 = 0x41FD5804EC4EC4ED"
  by (simp_all add: effective_bytes_per_lane_def effective_gbps_per_lane_def signaling_gts_def
      encoding_ratio_def f64_1e9_def f64_eval)

lemma raw_bytes_per_lane_eval:
  "f64_div (f64_mul (signaling_gts Gen_GEN1) f64_1e9) (f64_lit 8 1) = 0x41B2A05F20000000"
  "f64_div (f64_mul (signaling_gts Gen_GEN2) f64_1e9) (f64_lit 8 1) = 0x41C2A05F20000000"
  "f64_div (f64_mul (signaling_gts Gen_GEN3) f64_1e9) (f64_lit 8 1) = 0x41CDCD6500000000"
  "f64_div (f64_mul (signaling_gts Gen_GEN4) f64_1e9) (f64_lit 8 1) = 0x41DDCD6500000000"
  "f64_div (f64_mul (signaling_gts Gen_GEN5) f64_1e9) (f64_lit 8 1) = 0x41EDCD6500000000"
  "f64_div (f64_mul (signaling_gts Gen_GEN6) f64_1e9) (f64_lit 8 1) = 0x41FDCD6500000000"
  by (simp_all add: signaling_gts_def f64_1e9_def f64_eval)

lemma no_rate:
  "effective_bytes_per_lane Gen_UNKNOWN = 0" "effective_bytes_per_lane (Gen_raw c) = 0"
  by (simp_all add: effective_bytes_per_lane_def effective_gbps_per_lane_def signaling_gts_def
      encoding_ratio_def f64_1e9_def f64_eval)

definition gen_known :: "PcieGen \<Rightarrow> bool" where
  "gen_known g = (g \<in> set [Gen_GEN1, Gen_GEN2, Gen_GEN3, Gen_GEN4, Gen_GEN5, Gen_GEN6])"

lemma gen_not_known: "\<not> gen_known g \<Longrightarrow> g = Gen_UNKNOWN \<or> (\<exists>c. g = Gen_raw c)"
  by (cases g) (auto simp: gen_known_def)

lemma f64_lt_zero_eval: "f64_lt 0 x \<longleftrightarrow> \<not> f64_is_nan x \<and> 0 < f64_ord x"
  by (simp add: f64_lt_def f64_is_nan_def f64_expo_def f64_frac_def f64_low_def f64_ord_def
      f64_mag_def f64_mant_def)

lemma lanes_eval:
  "f64_of_nat (unat (1 :: u16)) = 0x3FF0000000000000" "f64_of_nat (unat (2 :: u16)) = 0x4000000000000000"
  "f64_of_nat (unat (4 :: u16)) = 0x4010000000000000" "f64_of_nat (unat (8 :: u16)) = 0x4020000000000000"
  "f64_of_nat (unat (16 :: u16)) = 0x4030000000000000" "f64_of_nat (unat (32 :: u16)) = 0x4040000000000000"
  by (simp_all add: f64_eval)

lemma effective_pos:
  assumes "lane_count_valid w" and "gen_known g"
  shows "f64_lt 0 (effective_bytes_per_sec g w)"
  unfolding effective_bytes_per_sec_def
proof (rule f64_mul_pos)
  let ?x = "effective_bytes_per_lane g" and ?k = "f64_of_nat (unat w)"
  have x: "f64_is_finite ?x \<and> \<not> f64_neg ?x \<and> 0 < f64_mant ?x \<and> - 26 \<le> f64_pow ?x"
    using assms(2) by (auto simp: gen_known_def effective_bytes_per_lane_eval f64_eval)
  have k: "f64_is_finite ?k \<and> \<not> f64_neg ?k \<and> 0 < f64_mant ?k \<and> - 52 \<le> f64_pow ?k"
    using assms(1) unfolding lane_count_cases by (elim disjE) (simp_all only: lanes_eval, simp_all add: f64_eval)
  from x k show "f64_is_finite ?x" "f64_is_finite ?k" "\<not> f64_neg ?x" "\<not> f64_neg ?k"
    "0 < f64_mant ?x" "0 < f64_mant ?k" "- 1073 \<le> f64_pow ?x + f64_pow ?k"
    by simp_all
qed

lemma effective_zero:
  assumes "lane_count_valid w" and "\<not> gen_known g"
  shows "\<not> f64_lt 0 (effective_bytes_per_sec g w)"
proof -
  have "effective_bytes_per_lane g = 0" using gen_not_known [OF assms(2)] no_rate by auto
  moreover have "f64_mul 0 (f64_of_nat (unat w)) = 0"
    using assms(1) unfolding lane_count_cases
    by (elim disjE) (simp_all only: lanes_eval, simp_all add: f64_eval)
  ultimately show ?thesis by (simp add: effective_bytes_per_sec_def)
qed

text \<open>Exactly the capabilities with a known generation and a PCIe lane count have an envelope.\<close>

lemma envelope_iff:
  "envelope_if_valid gen width = Some e \<longleftrightarrow>
   (\<exists>g w. gen = Some g \<and> width = Some w \<and> gen_known g \<and> lane_count_valid w \<and> e = LinkEnvelope_new g w)"
  using effective_pos effective_zero
  by (auto simp: envelope_if_valid_def le_valid_def LinkEnvelope_new_def split: option.splits)

end
