(* ===== verification/PF_Topology.thy ===== *)
theory PF_Topology
  imports PF_Bdf PF_Link "HOL-Library.Product_Lexorder"
begin

text \<open>
  The PCIe hierarchy, \<open>include/pciefabric/topology.hpp\<close>: the node record, the topology's state
  (next fresh id, generation, nodes by id) and its builder and query operations, each an atomic
  step under the topology's lock. The ancestor walk keeps the code's guard: at most
  \<open>nodes_.size() + 1\<close> iterations. \<open>nodes_.at\<close> on an absent key throws, which is \<open>None\<close> here.

  The locale \<open>parent_chains\<close> holds what follows from parent chains that end: nearest common
  ancestors and the path through them.
\<close>

section \<open>Nodes\<close>

definition is_endpoint_kind :: "DeviceClass \<Rightarrow> bool" where
  "is_endpoint_kind k = (k = Dev_ACCELERATOR \<or> k = Dev_NIC \<or> k = Dev_STORAGE \<or> k = Dev_MEMORY
     \<or> k = Dev_OTHER)"

record Node =
  nd_id :: PciNodeId
  nd_bdf :: Bdf
  nd_kind :: DeviceClass
  nd_generation :: PciNodeGeneration
  nd_provenance :: Provenance
  nd_parent :: "PciNodeId option"
  nd_children :: "PciNodeId list"
  nd_upstream_link :: "LinkId option"
  nd_downstream_links :: "LinkId list"
  nd_vendor :: string
  nd_device :: string
  nd_class_name :: string
  nd_driver :: string
  nd_accelerator :: "AcceleratorId option"
  nd_nic :: "NicId option"
  nd_storage :: "StorageDeviceId option"
  nd_memory :: "MemoryDeviceId option"
  nd_numa_node :: "u32 option"
  nd_removed :: bool

definition Node_default :: Node where
  "Node_default = \<lparr>nd_id = StrongId 0, nd_bdf = Bdf_default, nd_kind = Dev_UNKNOWN,
     nd_generation = Generation 0, nd_provenance = Prov_REPORTED, nd_parent = None,
     nd_children = [], nd_upstream_link = None, nd_downstream_links = [], nd_vendor = [],
     nd_device = [], nd_class_name = [], nd_driver = [], nd_accelerator = None, nd_nic = None,
     nd_storage = None, nd_memory = None, nd_numa_node = None, nd_removed = False\<rparr>"

record Topology =
  tp_next_id :: u64
  tp_gen :: PciNodeGeneration
  tp_nodes :: "(PciNodeId, Node) omap"

definition Topology_new :: Topology where
  "Topology_new = \<lparr>tp_next_id = 1, tp_gen = Generation 0, tp_nodes = []\<rparr>"

section \<open>Queries\<close>

definition tp_size :: "Topology \<Rightarrow> nat" where
  "tp_size t = length (tp_nodes t)"

definition tp_contains :: "Topology \<Rightarrow> PciNodeId \<Rightarrow> bool" where
  "tp_contains t i = om_contains (tp_nodes t) i"

definition tp_node :: "Topology \<Rightarrow> PciNodeId \<Rightarrow> Node option" where
  "tp_node t i = om_lookup (tp_nodes t) i"

definition bdf_entry :: "Topology \<Rightarrow> Bdf \<Rightarrow> (PciNodeId \<times> Node) option" where
  "bdf_entry t b = find (\<lambda>kv. \<not> nd_removed (snd kv) \<and> nd_bdf (snd kv) = b) (tp_nodes t)"

definition find_by_bdf :: "Topology \<Rightarrow> Bdf \<Rightarrow> PciNodeId option" where
  "find_by_bdf t b = map_option fst (bdf_entry t b)"

text \<open>The loop of \<open>ancestors_locked\<close>; its first argument is how often the guard still passes.\<close>

fun anc_loop :: "nat \<Rightarrow> (PciNodeId, Node) omap \<Rightarrow> PciNodeId option \<Rightarrow> PciNodeId list" where
  "anc_loop 0 m cur = []"
| "anc_loop (Suc left) m None = []"
| "anc_loop (Suc left) m (Some c) =
     c # (case om_lookup m c of None \<Rightarrow> [] | Some n \<Rightarrow> anc_loop left m (nd_parent n))"

definition ancestors :: "Topology \<Rightarrow> PciNodeId \<Rightarrow> PciNodeId list" where
  "ancestors t i = anc_loop (length (tp_nodes t) + 1) (tp_nodes t) (Some i)"

definition common_ancestor :: "Topology \<Rightarrow> PciNodeId \<Rightarrow> PciNodeId \<Rightarrow> PciNodeId option" where
  "common_ancestor t a b = find (\<lambda>x. x \<in> set (ancestors t b)) (ancestors t a)"

fun take_through :: "'a \<Rightarrow> 'a list \<Rightarrow> 'a list" where
  "take_through c [] = []"
| "take_through c (x # xs) = x # (if x = c then [] else take_through c xs)"

definition path_nodes :: "Topology \<Rightarrow> PciNodeId \<Rightarrow> PciNodeId \<Rightarrow> PciNodeId list" where
  "path_nodes t a b = (case common_ancestor t a b of
      None \<Rightarrow> []
    | Some c \<Rightarrow> take_through c (ancestors t a)
        @ filter (\<lambda>x. x \<noteq> c) (rev (takeWhile (\<lambda>x. x \<noteq> c) (ancestors t b))))"

definition locality :: "Topology \<Rightarrow> PciNodeId \<Rightarrow> PciNodeId \<Rightarrow> LocalityClass option" where
  "locality t a b =
     (if a = b then Some Loc_SAME_ENDPOINT else
      case common_ancestor t a b of
        None \<Rightarrow> Some Loc_UNKNOWN
      | Some c \<Rightarrow> map_option (\<lambda>n.
          if nd_kind n = Dev_SWITCH \<or> nd_kind n = Dev_BRIDGE then Loc_SAME_SWITCH
          else if nd_kind n = Dev_ROOT_COMPLEX \<or> nd_kind n = Dev_ROOT_PORT
          then Loc_SAME_ROOT_COMPLEX
          else Loc_SAME_HOST_REMOTE_ROOT) (om_lookup (tp_nodes t) c))"

definition is_root_kind :: "DeviceClass \<Rightarrow> bool" where
  "is_root_kind k = (k = Dev_ROOT_COMPLEX \<or> k = Dev_ROOT_PORT)"

definition root_complex_of :: "Topology \<Rightarrow> PciNodeId \<Rightarrow> PciNodeId option" where
  "root_complex_of t i = find (\<lambda>a. case om_lookup (tp_nodes t) a of
      None \<Rightarrow> False | Some n \<Rightarrow> is_root_kind (nd_kind n)) (ancestors t i)"

definition children_of :: "Topology \<Rightarrow> PciNodeId \<Rightarrow> PciNodeId list" where
  "children_of t i = (case om_lookup (tp_nodes t) i of None \<Rightarrow> [] | Some n \<Rightarrow> nd_children n)"

definition siblings :: "Topology \<Rightarrow> PciNodeId \<Rightarrow> PciNodeId list" where
  "siblings t i = (case om_lookup (tp_nodes t) i of
      None \<Rightarrow> []
    | Some n \<Rightarrow> (case nd_parent n of None \<Rightarrow> [] | Some p \<Rightarrow> children_of t p))"

definition all_nodes :: "Topology \<Rightarrow> PciNodeId list" where
  "all_nodes t = map fst (sort_key (\<lambda>kv. (nd_bdf (snd kv), fst kv))
     (filter (\<lambda>kv. \<not> nd_removed (snd kv)) (tp_nodes t)))"

text \<open>
  \<open>endpoints\<close> sorts by BDF alone. Current nodes have distinct BDFs (\<open>tp_inv\<close> below), so the
  result does not depend on how \<open>std::sort\<close> orders equal elements.
\<close>

definition endpoints :: "Topology \<Rightarrow> PciNodeId list" where
  "endpoints t = map fst (sort_key (\<lambda>kv. nd_bdf (snd kv))
     (filter (\<lambda>kv. \<not> nd_removed (snd kv) \<and> is_endpoint_kind (nd_kind (snd kv))) (tp_nodes t)))"

definition shared_contention_node :: "Topology \<Rightarrow> PciNodeId \<Rightarrow> PciNodeId \<Rightarrow> PciNodeId option" where
  "shared_contention_node t a b = (if a = b then Some a else common_ancestor t a b)"

fun validate_loop :: "Topology \<Rightarrow> (PciNodeId \<times> Node) list \<Rightarrow> PciBdf list \<Rightarrow> unit Result" where
  "validate_loop t [] seen = Success ()"
| "validate_loop t ((k, v) # rest) seen =
     (if nd_removed v then validate_loop t rest seen
      else if \<not> DeviceClass_valid (DeviceClass_code (nd_kind v))
      then Err EC_INVALID_VALUE ''invalid kind''
      else case to_identity (canonical (nd_bdf v)) of
        Err _ _ \<Rightarrow> Err EC_INVALID_BDF ''invalid bdf''
      | Success pb \<Rightarrow>
        if pb \<in> set seen then Err EC_DUPLICATE_CURRENT ''duplicate current bdf''
        else if (case nd_parent v of None \<Rightarrow> False | Some p \<Rightarrow> \<not> om_contains (tp_nodes t) p)
        then Err EC_INVALID_RELATIONSHIP ''dangling parent''
        else validate_loop t rest (pb # seen))"

definition tp_validate :: "Topology \<Rightarrow> unit Result" where
  "tp_validate t = validate_loop t (tp_nodes t) []"

section \<open>Builder operations\<close>

definition fresh_node_id :: "Topology \<Rightarrow> PciNodeId \<times> Topology" where
  "fresh_node_id t = (StrongId (tp_next_id t), t\<lparr>tp_next_id := tp_next_id t + 1\<rparr>)"

definition add_node :: "PciNodeId \<Rightarrow> Bdf \<Rightarrow> DeviceClass \<Rightarrow> PciNodeGeneration \<Rightarrow> Provenance \<Rightarrow>
    Topology \<Rightarrow> PciNodeId Result \<times> Topology" where
  "add_node i bdf kind gen src t = (case bdf_entry t bdf of
      Some (k, n) \<Rightarrow>
        (Success k, t\<lparr>tp_nodes := om_insert k (n\<lparr>nd_generation := gen_inc (nd_generation n)\<rparr>) (tp_nodes t)\<rparr>)
    | None \<Rightarrow>
        if om_contains (tp_nodes t) i then (Err EC_DUPLICATE_IDENTITY ''duplicate node id'', t)
        else (Success i, t\<lparr>tp_nodes := om_insert i
          (Node_default\<lparr>nd_id := i, nd_bdf := bdf, nd_kind := kind, nd_generation := gen,
             nd_provenance := src\<rparr>) (tp_nodes t)\<rparr>))"

definition would_cycle :: "Topology \<Rightarrow> PciNodeId \<Rightarrow> PciNodeId \<Rightarrow> bool" where
  "would_cycle t child parent = (child \<in> set (ancestors t parent))"

definition attach_child :: "PciNodeId \<Rightarrow> LinkId option \<Rightarrow> Node \<Rightarrow> Node" where
  "attach_child parent link c = c\<lparr>nd_parent := Some parent,
     nd_upstream_link := (case link of None \<Rightarrow> nd_upstream_link c | Some l \<Rightarrow> Some l)\<rparr>"

definition attach_parent :: "PciNodeId \<Rightarrow> LinkId option \<Rightarrow> Node \<Rightarrow> Node" where
  "attach_parent child link p =
     p\<lparr>nd_children := (if child \<in> set (nd_children p) then nd_children p else nd_children p @ [child]),
       nd_downstream_links := (case link of None \<Rightarrow> nd_downstream_links p
         | Some l \<Rightarrow> nd_downstream_links p @ [l])\<rparr>"

definition tp_attach :: "PciNodeId \<Rightarrow> PciNodeId \<Rightarrow> LinkId option \<Rightarrow> Topology \<Rightarrow> unit Result \<times> Topology" where
  "tp_attach child parent link t =
     (case (om_lookup (tp_nodes t) parent, om_lookup (tp_nodes t) child) of
        (Some p, Some c) \<Rightarrow>
          if child = parent then (Err EC_HIERARCHY_CYCLE ''self cycle'', t)
          else if nd_parent c = Some parent then (Success (), t)
          else let t' = t\<lparr>tp_nodes := om_insert parent (attach_parent child link p)
                 (om_insert child (attach_child parent link c) (tp_nodes t))\<rparr> in
          if would_cycle t' child parent then (Err EC_HIERARCHY_CYCLE ''cycle detected'', t')
          else (Success (), t')
      | _ \<Rightarrow> (Err EC_NOT_FOUND ''parent/child absent'', t))"

definition add_and_attach :: "PciNodeId \<Rightarrow> Bdf \<Rightarrow> DeviceClass \<Rightarrow> PciNodeGeneration \<Rightarrow> Provenance \<Rightarrow>
    PciNodeId \<Rightarrow> Topology \<Rightarrow> PciNodeId Result \<times> Topology" where
  "add_and_attach i bdf kind gen src parent t = (case add_node i bdf kind gen src t of
      (Success k, t') \<Rightarrow> (Success k, snd (tp_attach k parent None t'))
    | (Err c m, t') \<Rightarrow> (Err c m, t'))"

definition add_root_complex :: "RootComplexId \<Rightarrow> Bdf \<Rightarrow> PciNodeGeneration \<Rightarrow> Provenance \<Rightarrow> Topology \<Rightarrow>
    PciNodeId Result \<times> Topology" where
  "add_root_complex rc bdf gen src t = (case fresh_node_id t of
      (i, t') \<Rightarrow> add_node i bdf Dev_ROOT_COMPLEX gen src t')"

definition add_bridge :: "BridgeId \<Rightarrow> Bdf \<Rightarrow> PciNodeGeneration \<Rightarrow> Provenance \<Rightarrow> PciNodeId \<Rightarrow> Topology \<Rightarrow>
    PciNodeId Result \<times> Topology" where
  "add_bridge b bdf gen src parent t = (case fresh_node_id t of
      (i, t') \<Rightarrow> add_and_attach i bdf Dev_BRIDGE gen src parent t')"

definition add_endpoint :: "PciNodeId \<Rightarrow> Bdf \<Rightarrow> DeviceClass \<Rightarrow> PciNodeGeneration \<Rightarrow> Provenance \<Rightarrow>
    PciNodeId \<Rightarrow> Topology \<Rightarrow> PciNodeId Result \<times> Topology" where
  "add_endpoint i bdf kind gen src parent t = add_and_attach i bdf kind gen src parent t"

definition remove_node :: "PciNodeId \<Rightarrow> Topology \<Rightarrow> unit Result \<times> Topology" where
  "remove_node i t = (case om_lookup (tp_nodes t) i of
      None \<Rightarrow> (Err EC_NOT_FOUND ''node absent'', t)
    | Some n \<Rightarrow> (Success (), t\<lparr>tp_nodes := om_insert i (n\<lparr>nd_removed := True\<rparr>) (tp_nodes t),
        tp_gen := gen_inc (tp_gen t)\<rparr>))"

definition bump_generation :: "PciNodeId \<Rightarrow> Topology \<Rightarrow> unit Result \<times> Topology" where
  "bump_generation i t = (case om_lookup (tp_nodes t) i of
      None \<Rightarrow> (Err EC_NOT_FOUND ''node absent'', t)
    | Some n \<Rightarrow> (Success (),
        t\<lparr>tp_nodes := om_insert i (n\<lparr>nd_generation := gen_inc (nd_generation n)\<rparr>) (tp_nodes t)\<rparr>))"

section \<open>Parent chains\<close>

text \<open>\<open>chain par a xs\<close>: following parents from \<open>a\<close> visits exactly \<open>xs\<close> and ends.\<close>

fun chain :: "('a \<Rightarrow> 'a option) \<Rightarrow> 'a \<Rightarrow> 'a list \<Rightarrow> bool" where
  "chain par a [] = False"
| "chain par a (x # xs) = (x = a \<and> (case par a of None \<Rightarrow> xs = [] | Some b \<Rightarrow> chain par b xs))"

fun walk :: "('a \<Rightarrow> 'a option) \<Rightarrow> nat \<Rightarrow> 'a \<Rightarrow> 'a list" where
  "walk par 0 a = []"
| "walk par (Suc n) a = a # (case par a of None \<Rightarrow> [] | Some b \<Rightarrow> walk par n b)"

lemma chain_hd: "chain par a xs \<Longrightarrow> \<exists>ys. xs = a # ys"
  by (cases xs) auto

lemma chain_unique: "chain par a xs \<Longrightarrow> chain par a ys \<Longrightarrow> xs = ys"
proof (induction par a xs arbitrary: ys rule: chain.induct)
  case (2 par a x xs)
  then show ?case by (cases ys) (auto split: option.splits)
qed simp

lemma chain_suffix: "chain par a (us @ x # vs) \<Longrightarrow> chain par x (x # vs)"
proof (induction us arbitrary: a)
  case (Cons u us)
  then show ?case by (cases "par a") auto
qed (auto split: option.splits)

lemma chain_distinct: "chain par a xs \<Longrightarrow> distinct xs"
proof (rule ccontr)
  assume c: "chain par a xs" and "\<not> distinct xs"
  then obtain us vs ws x where xs: "xs = us @ [x] @ vs @ [x] @ ws"
    using not_distinct_decomp by blast
  have "chain par x (x # vs @ [x] @ ws)" using chain_suffix [of par a us x "vs @ [x] @ ws"] c xs by simp
  moreover have "chain par x (x # ws)" using chain_suffix [of par a "us @ [x] @ vs" x ws] c xs by simp
  ultimately have "x # vs @ [x] @ ws = x # ws" by (rule chain_unique)
  then have "length (vs @ [x] @ ws) = length ws" by simp
  then show False by simp
qed

lemma chain_walk: "chain par a xs \<Longrightarrow> length xs \<le> n \<Longrightarrow> walk par n a = xs"
proof (induction par a xs arbitrary: n rule: chain.induct)
  case (2 par a x xs)
  then show ?case by (cases n) (auto split: option.splits)
qed simp

text \<open>A walk that stops early is a chain; one that uses all its steps has only inner nodes.\<close>

lemma walk_full: "\<not> chain par a (walk par n a) \<Longrightarrow>
    length (walk par n a) = n \<and> (\<forall>x \<in> set (walk par n a). par x \<noteq> None)"
  by (induction par n a rule: walk.induct) (auto split: option.splits)

text \<open>With more steps than nodes that have a parent, a walk without repetition is a chain.\<close>

lemma walk_chain:
  assumes fin: "finite S" and S: "\<And>x. par x \<noteq> None \<Longrightarrow> x \<in> S" and n: "card S < n"
    and d: "distinct (walk par n a)"
  shows "chain par a (walk par n a)"
proof (rule ccontr)
  assume "\<not> ?thesis"
  from walk_full [OF this] S have len: "length (walk par n a) = n" and sub: "set (walk par n a) \<subseteq> S"
    by auto
  from d have "card (set (walk par n a)) = n" by (simp add: distinct_card len)
  with card_mono [OF fin sub] n show False by simp
qed

lemma chain_length:
  assumes fin: "finite S" and S: "\<And>x. par x \<noteq> None \<Longrightarrow> x \<in> S" and c: "chain par a xs"
  shows "length xs \<le> card S + 1"
proof -
  have "set (butlast xs) \<subseteq> S"
    using c
  proof (induction xs arbitrary: a)
    case (Cons x xs)
    show ?case
    proof (cases "par a")
      case (Some b)
      then have "a \<in> S" by (intro S) simp
      with Some Cons show ?thesis by auto
    qed (use Cons in simp)
  qed simp
  then have "card (set (butlast xs)) \<le> card S" by (rule card_mono [OF fin])
  moreover have "card (set (butlast xs)) = length xs - 1"
    using chain_distinct [OF c] by (simp add: distinct_card distinct_butlast)
  ultimately show ?thesis by linarith
qed

lemma chain_edges: "chain par a (us @ c # vs) \<Longrightarrow> successively (\<lambda>x y. par x = Some y) (us @ [c])"
proof (induction us arbitrary: a)
  case (Cons u us)
  then obtain b where b: "par a = Some b" "chain par b (us @ c # vs)" "u = a"
    by (cases "par a") auto
  then show ?case using Cons.IH [OF b(2)] chain_hd [OF b(2)] by (cases us) auto
qed simp

lemma find_split:
  "find P xs = Some c \<Longrightarrow> \<exists>us vs. xs = us @ c # vs \<and> (\<forall>x \<in> set us. \<not> P x) \<and> P c"
proof (induction xs)
  case (Cons y ys)
  show ?case
  proof (cases "P y")
    case True
    with Cons.prems show ?thesis by (intro exI [of _ "[]"] exI [of _ ys]) simp
  next
    case False
    with Cons obtain us vs where "ys = us @ c # vs" "\<forall>x \<in> set us. \<not> P x" "P c" by auto
    with False show ?thesis by (intro exI [of _ "y # us"] exI [of _ vs]) simp
  qed
qed simp

lemma find_append: "find P (xs @ ys) = (case find P xs of None \<Rightarrow> find P ys | Some x \<Rightarrow> Some x)"
  by (induction xs) auto

text \<open>
  The contract a client of the hierarchy relies on: a partial parent map and, for the nodes of a
  parent-closed set, the list of a node and its ancestors.
\<close>

locale parent_chains =
  fixes par :: "'a \<Rightarrow> 'a option" and up :: "'a \<Rightarrow> 'a list" and ok :: "'a \<Rightarrow> bool"
  assumes up_chain: "ok a \<Longrightarrow> chain par a (up a)"
    and ok_parent: "ok a \<Longrightarrow> par a = Some b \<Longrightarrow> ok b"
begin

definition meet :: "'a \<Rightarrow> 'a \<Rightarrow> 'a option" where
  "meet a b = find (\<lambda>x. x \<in> set (up b)) (up a)"

lemma up_hd: "ok a \<Longrightarrow> \<exists>ys. up a = a # ys"
  by (rule chain_hd [OF up_chain])

lemma up_distinct: "ok a \<Longrightarrow> distinct (up a)"
  by (rule chain_distinct [OF up_chain])

lemma chain_ok: "chain par a xs \<Longrightarrow> ok a \<Longrightarrow> x \<in> set xs \<Longrightarrow> ok x"
proof (induction xs arbitrary: a)
  case (Cons y ys)
  then show ?case by (cases "par a") (auto dest: ok_parent)
qed simp

lemma up_ok: "ok a \<Longrightarrow> x \<in> set (up a) \<Longrightarrow> ok x"
  by (rule chain_ok [OF up_chain])

lemma up_split: "ok a \<Longrightarrow> x \<in> set (up a) \<Longrightarrow> \<exists>ys. up a = ys @ up x \<and> x \<notin> set ys"
proof -
  assume a: "ok a" "x \<in> set (up a)"
  then obtain ys zs where s: "up a = ys @ x # zs" "x \<notin> set ys" using split_list_first by metis
  have "chain par x (x # zs)" using up_chain [OF a(1)] unfolding s(1) by (rule chain_suffix)
  then have "up x = x # zs" by (rule chain_unique [OF up_chain [OF up_ok [OF a]]])
  with s show ?thesis by (intro exI [of _ ys]) simp
qed

lemma meet_split:
  assumes "ok a" "ok b" "meet a b = Some c"
  shows "\<exists>ys zs. up a = ys @ up c \<and> up b = zs @ up c \<and> set ys \<inter> set (up b) = {} \<and>
     set zs \<inter> set (up a) = {} \<and> ok c"
proof -
  obtain us vs where a: "up a = us @ c # vs" and us: "\<forall>x \<in> set us. x \<notin> set (up b)"
    and c: "c \<in> set (up b)"
    using find_split [OF assms(3) [unfolded meet_def]] by blast
  have okc: "ok c" using up_ok [OF assms(2) c] .
  have "chain par c (c # vs)" using up_chain [OF assms(1)] unfolding a by (rule chain_suffix)
  then have uc: "up c = c # vs" by (rule chain_unique [OF up_chain [OF okc]])
  obtain zs where z: "up b = zs @ up c" using up_split [OF assms(2) c] by blast
  have "set zs \<inter> set (up c) = {}" using up_distinct [OF assms(2)] z by simp
  then have "set zs \<inter> set (up a) = {}" using us z a uc by auto
  then show ?thesis using a uc us z okc by auto
qed

text \<open>The nearest common ancestor does not depend on the order of the arguments.\<close>

lemma meet_sym: "ok a \<Longrightarrow> ok b \<Longrightarrow> meet a b = meet b a"
proof (cases "meet a b")
  case None
  assume "ok a" "ok b"
  from None have "\<not> (\<exists>x. x \<in> set (up b) \<and> x \<in> set (up a))" by (auto simp: meet_def find_None_iff)
  then have "meet b a = None" unfolding meet_def find_None_iff by blast
  with None show ?thesis by simp
next
  case (Some c)
  assume ok: "ok a" "ok b"
  obtain ys zs where s: "up a = ys @ up c" "up b = zs @ up c" "set zs \<inter> set (up a) = {}" "ok c"
    using meet_split [OF ok Some] by blast
  obtain vs where "up c = c # vs" using up_hd [OF s(4)] by blast
  have "find (\<lambda>x. x \<in> set (up a)) zs = None" using s(3) by (auto simp: find_None_iff)
  with s(1,2) \<open>up c = c # vs\<close> have "find (\<lambda>x. x \<in> set (up a)) (up b) = Some c"
    by (simp add: find_append)
  with Some show ?thesis by (simp add: meet_def)
qed

text \<open>Every common ancestor is an ancestor of the nearest one.\<close>

lemma meet_nearest:
  assumes "ok a" "ok b" "x \<in> set (up a)" "x \<in> set (up b)"
  shows "\<exists>c. meet a b = Some c \<and> x \<in> set (up c)"
proof -
  obtain c where c: "meet a b = Some c"
    using assms(3,4) by (cases "meet a b") (auto simp: meet_def find_None_iff)
  obtain ys where "up a = ys @ up c" "set ys \<inter> set (up b) = {}"
    using meet_split [OF assms(1,2) c] by blast
  with assms c show ?thesis by auto
qed

text \<open>The route through the nearest common ancestor.\<close>

definition route :: "'a \<Rightarrow> 'a \<Rightarrow> 'a list" where
  "route a b = (case meet a b of
      None \<Rightarrow> []
    | Some c \<Rightarrow> take_through c (up a) @ filter (\<lambda>x. x \<noteq> c) (rev (takeWhile (\<lambda>x. x \<noteq> c) (up b))))"

lemma route_split:
  assumes ok: "ok a" "ok b" and c: "meet a b = Some c"
  shows "\<exists>ys zs. route a b = ys @ [c] @ rev zs \<and> up a = ys @ up c \<and> up b = zs @ up c \<and>
     distinct (ys @ [c] @ rev zs) \<and> ok c"
proof -
  obtain ys zs where s: "up a = ys @ up c" "up b = zs @ up c" "set ys \<inter> set (up b) = {}"
    "set zs \<inter> set (up a) = {}" "ok c"
    using meet_split [OF ok c] by blast
  obtain vs where u: "up c = c # vs" using up_hd [OF s(5)] by blast
  have d: "c \<notin> set ys" "c \<notin> set zs" "distinct ys" "distinct zs" "set ys \<inter> set zs = {}"
    using up_distinct [OF ok(1)] up_distinct [OF ok(2)] s u by auto
  have t: "c \<notin> set us \<Longrightarrow> take_through c (us @ c # ws) = us @ [c]" for us ws
    by (induction us) auto
  have "takeWhile (\<lambda>x. x \<noteq> c) (up b) = zs" using s(2) u d by (auto simp: takeWhile_append)
  moreover have "filter (\<lambda>x. x \<noteq> c) (rev zs) = rev zs" using d(2) by (auto simp: filter_id_conv)
  ultimately have "route a b = ys @ [c] @ rev zs"
    using c s(1) u t [OF d(1)] by (simp add: route_def)
  with s d show ?thesis by (intro exI [of _ ys] exI [of _ zs]) auto
qed

lemma route_props:
  assumes ok: "ok a" "ok b" and r: "route a b \<noteq> []"
  shows "hd (route a b) = a \<and> last (route a b) = b \<and> distinct (route a b) \<and>
     successively (\<lambda>x y. par x = Some y \<or> par y = Some x) (route a b)"
proof -
  obtain c where c: "meet a b = Some c" using r by (cases "meet a b") (auto simp: route_def)
  obtain ys zs where s: "route a b = ys @ [c] @ rev zs" "up a = ys @ up c" "up b = zs @ up c"
    "distinct (ys @ [c] @ rev zs)" "ok c"
    using route_split [OF ok c] by blast
  obtain vs where u: "up c = c # vs" using up_hd [OF s(5)] by blast
  obtain as bs where h: "up a = a # as" "up b = b # bs" using up_hd ok by blast
  have "hd (ys @ [c]) = a" "hd (zs @ [c]) = b" using s(2,3) u h by (cases ys; cases zs; auto)+
  moreover have "last (ys @ [c] @ rev zs) = hd (zs @ [c])" by (cases zs) auto
  moreover have "successively (\<lambda>x y. par x = Some y) (ys @ [c])"
    "successively (\<lambda>x y. par x = Some y) (zs @ [c])"
    using chain_edges up_chain [OF ok(1)] up_chain [OF ok(2)] s(2,3) u by metis+
  then have "successively (\<lambda>x y. par x = Some y \<or> par y = Some x) (ys @ [c] @ rev zs)"
    by (auto simp: successively_append_iff successively_rev hd_rev successively_Cons
        elim: successively_mono)
  ultimately show ?thesis using s by (simp add: hd_append split: if_splits)
qed

end

section \<open>The topology's parent map\<close>

definition tp_parent :: "Topology \<Rightarrow> PciNodeId \<Rightarrow> PciNodeId option" where
  "tp_parent t i = (case om_lookup (tp_nodes t) i of None \<Rightarrow> None | Some n \<Rightarrow> nd_parent n)"

text \<open>The ancestor walk from \<open>i\<close> ends at a node without a parent within the guard.\<close>

definition rooted :: "Topology \<Rightarrow> PciNodeId \<Rightarrow> bool" where
  "rooted t i = chain (tp_parent t) i (ancestors t i)"

definition tp_acyclic :: "Topology \<Rightarrow> bool" where
  "tp_acyclic t = list_all (\<lambda>kv. rooted t (fst kv)) (tp_nodes t)"

lemma anc_loop_None: "anc_loop n m None = []"
  by (cases n) auto

lemma anc_loop_walk:
  "anc_loop n (tp_nodes t) (Some i) = walk (tp_parent t) n i"
  by (induction n arbitrary: i)
     (auto simp: tp_parent_def anc_loop_None split: option.splits)

lemma ancestors_walk: "ancestors t i = walk (tp_parent t) (length (tp_nodes t) + 1) i"
  by (simp only: ancestors_def anc_loop_walk)

lemma tp_parent_key: "tp_parent t i \<noteq> None \<Longrightarrow> i \<in> fst ` set (tp_nodes t)"
  by (force simp: tp_parent_def dest: om_lookup_in_set split: option.splits)

lemma card_keys: "card (fst ` set (tp_nodes t)) \<le> length (tp_nodes t)"
  by (metis card_length length_map set_map)

text \<open>The guard is exactly enough: every chain fits, and a walk that does not end repeats a node.\<close>

lemma chain_ancestors: "chain (tp_parent t) i xs \<Longrightarrow> ancestors t i = xs"
  unfolding ancestors_walk
  using chain_length [of "fst ` set (tp_nodes t)" "tp_parent t" i xs] tp_parent_key [of t] card_keys [of t]
  by (intro chain_walk) auto

lemma rooted_iff_chain: "rooted t i \<longleftrightarrow> (\<exists>xs. chain (tp_parent t) i xs)"
  unfolding rooted_def using chain_ancestors by metis

lemma rooted_iff_distinct: "rooted t i \<longleftrightarrow> distinct (ancestors t i)"
proof
  assume "distinct (ancestors t i)"
  then show "rooted t i"
    unfolding rooted_def ancestors_walk
    using card_keys [of t] tp_parent_key [of t]
    by (intro walk_chain [of "fst ` set (tp_nodes t)"]) auto
qed (auto simp: rooted_def dest: chain_distinct)

lemma rooted_parent: "rooted t i \<Longrightarrow> tp_parent t i = Some p \<Longrightarrow> rooted t p"
  unfolding rooted_iff_chain
proof (elim exE)
  fix xs assume "chain (tp_parent t) i xs" and "tp_parent t i = Some p"
  then show "\<exists>xs. chain (tp_parent t) p xs" by (cases xs) auto
qed

lemma rooted_no_parent: "tp_parent t i = None \<Longrightarrow> rooted t i"
  unfolding rooted_iff_chain by (intro exI [of _ "[i]"]) simp

lemma tp_acyclic_iff: "tp_acyclic t \<longleftrightarrow> (\<forall>i. rooted t i)"
proof
  assume a: "tp_acyclic t"
  show "\<forall>i. rooted t i"
  proof
    fix i show "rooted t i"
    proof (cases "tp_parent t i")
      case (Some p)
      then have "i \<in> fst ` set (tp_nodes t)" by (intro tp_parent_key) simp
      with a show ?thesis by (auto simp: tp_acyclic_def list_all_iff)
    qed (rule rooted_no_parent)
  qed
qed (simp add: tp_acyclic_def list_all_iff)

interpretation tp: parent_chains "tp_parent t" "ancestors t" "rooted t" for t
  by unfold_locales (auto simp: rooted_def [symmetric] intro: rooted_parent)

lemma common_ancestor_meet: "common_ancestor t a b = tp.meet t a b"
  by (simp add: common_ancestor_def tp.meet_def)

lemma path_nodes_route: "path_nodes t a b = tp.route t a b"
  by (simp add: path_nodes_def tp.route_def common_ancestor_meet)

section \<open>The structural invariant\<close>

definition tp_inv :: "Topology \<Rightarrow> bool" where
  "tp_inv t = (om_wf (tp_nodes t)
     \<and> (\<forall>k n. om_lookup (tp_nodes t) k = Some n \<longrightarrow> nd_id n = k)
     \<and> (\<forall>k n p. om_lookup (tp_nodes t) k = Some n \<longrightarrow> nd_parent n = Some p \<longrightarrow>
          p \<noteq> k \<and> (\<exists>pn. om_lookup (tp_nodes t) p = Some pn \<and> k \<in> set (nd_children pn)))
     \<and> (\<forall>k n c. om_lookup (tp_nodes t) k = Some n \<longrightarrow> c \<in> set (nd_children n) \<longrightarrow>
          om_contains (tp_nodes t) c)
     \<and> (\<forall>k n k' n'. om_lookup (tp_nodes t) k = Some n \<longrightarrow> om_lookup (tp_nodes t) k' = Some n' \<longrightarrow>
          \<not> nd_removed n \<longrightarrow> \<not> nd_removed n' \<longrightarrow> nd_bdf n = nd_bdf n' \<longrightarrow> k = k'))"

lemma tp_invD:
  assumes "tp_inv t"
  shows tp_inv_wf: "om_wf (tp_nodes t)"
    and tp_inv_id: "om_lookup (tp_nodes t) k = Some n \<Longrightarrow> nd_id n = k"
    and tp_inv_parent: "om_lookup (tp_nodes t) k = Some n \<Longrightarrow> nd_parent n = Some p \<Longrightarrow>
          p \<noteq> k \<and> (\<exists>pn. om_lookup (tp_nodes t) p = Some pn \<and> k \<in> set (nd_children pn))"
    and tp_inv_child: "om_lookup (tp_nodes t) k = Some n \<Longrightarrow> c \<in> set (nd_children n) \<Longrightarrow>
          om_contains (tp_nodes t) c"
    and tp_inv_bdf: "om_lookup (tp_nodes t) k = Some n \<Longrightarrow> om_lookup (tp_nodes t) k' = Some n' \<Longrightarrow>
          \<not> nd_removed n \<Longrightarrow> \<not> nd_removed n' \<Longrightarrow> nd_bdf n = nd_bdf n' \<Longrightarrow> k = k'"
  using assms unfolding tp_inv_def by metis+

text \<open>Updating a node's fields other than its identity and its edges keeps the invariant.\<close>

lemma tp_inv_update:
  assumes inv: "tp_inv t" and k: "om_lookup (tp_nodes t) k = Some n"
    and same: "nd_id n' = nd_id n" "nd_parent n' = nd_parent n" "nd_children n' = nd_children n"
      "nd_bdf n' = nd_bdf n" "\<not> nd_removed n' \<Longrightarrow> \<not> nd_removed n"
  shows "tp_inv (t\<lparr>tp_nodes := om_insert k n' (tp_nodes t)\<rparr>)"
proof -
  let ?look = "om_lookup (om_insert k n' (tp_nodes t))"
  have old: "\<exists>m'. om_lookup (tp_nodes t) j = Some m' \<and> nd_id m' = nd_id m \<and> nd_parent m' = nd_parent m \<and>
      nd_children m' = nd_children m \<and> nd_bdf m' = nd_bdf m \<and> (\<not> nd_removed m \<longrightarrow> \<not> nd_removed m')"
    if "?look j = Some m" for j m using that k same by (auto split: if_splits)
  have new: "\<exists>m'. ?look j = Some m' \<and> nd_children m' = nd_children m"
    if "om_lookup (tp_nodes t) j = Some m" for j m using that k same by auto
  have "om_wf (om_insert k n' (tp_nodes t))" using tp_inv_wf [OF inv] by simp
  moreover have "nd_id m = j" if "?look j = Some m" for j m
    using old [OF that] tp_inv_id [OF inv] by metis
  moreover have "p \<noteq> j \<and> (\<exists>pn. ?look p = Some pn \<and> j \<in> set (nd_children pn))"
    if "?look j = Some m" "nd_parent m = Some p" for j m p
    using old [OF that(1)] that(2) tp_inv_parent [OF inv] new by metis
  moreover have "om_contains (om_insert k n' (tp_nodes t)) c"
    if "?look j = Some m" "c \<in> set (nd_children m)" for j m c
    using old [OF that(1)] that(2) tp_inv_child [OF inv] new unfolding om_contains_iff by metis
  moreover have "j = j'" if "?look j = Some m" "?look j' = Some m'" "\<not> nd_removed m"
    "\<not> nd_removed m'" "nd_bdf m = nd_bdf m'" for j m j' m'
    using old [OF that(1)] old [OF that(2)] that(3-5) tp_inv_bdf [OF inv] by metis
  ultimately show ?thesis by (simp add: tp_inv_def del: om_lookup_insert)
qed

lemma tp_inv_other: "tp_inv (t\<lparr>tp_next_id := x\<rparr>) = tp_inv t" "tp_inv (t\<lparr>tp_gen := g\<rparr>) = tp_inv t"
  by (simp_all add: tp_inv_def)

lemma bdf_entry_Some:
  "tp_inv t \<Longrightarrow> bdf_entry t b = Some (k, n) \<Longrightarrow>
   om_lookup (tp_nodes t) k = Some n \<and> \<not> nd_removed n \<and> nd_bdf n = b"
  unfolding bdf_entry_def by (auto dest!: find_split dest: tp_inv_wf simp: om_in_set_iff [symmetric])

lemma bdf_entry_None:
  "bdf_entry t b = None \<Longrightarrow> om_lookup (tp_nodes t) k = Some n \<Longrightarrow> nd_removed n \<or> nd_bdf n \<noteq> b"
  unfolding bdf_entry_def by (auto simp: find_None_iff dest: om_lookup_in_set)

text \<open>What \<open>add_node\<close> does to the state: a generation bump, nothing, or a new isolated node.\<close>

lemma tp_inv_new_node:
  assumes inv: "tp_inv t" and i: "om_lookup (tp_nodes t) i = None" and b: "bdf_entry t bdf = None"
    and n: "nd_id n = i" "nd_bdf n = bdf" "nd_parent n = None" "nd_children n = []"
  shows "tp_inv (t\<lparr>tp_nodes := om_insert i n (tp_nodes t)\<rparr>)"
proof -
  let ?look = "om_lookup (om_insert i n (tp_nodes t))"
  have "om_wf (om_insert i n (tp_nodes t))" using tp_inv_wf [OF inv] by simp
  moreover have "nd_id m = j" if "?look j = Some m" for j m
    using that n tp_inv_id [OF inv] by (auto split: if_splits)
  moreover have "p \<noteq> j \<and> (\<exists>pn. ?look p = Some pn \<and> j \<in> set (nd_children pn))"
    if "?look j = Some m" "nd_parent m = Some p" for j m p
  proof -
    have "om_lookup (tp_nodes t) j = Some m" using that n by (auto split: if_splits)
    from tp_inv_parent [OF inv this that(2)] i show ?thesis by auto
  qed
  moreover have "om_contains (om_insert i n (tp_nodes t)) c"
    if "?look j = Some m" "c \<in> set (nd_children m)" for j m c
    using that n tp_inv_child [OF inv, of j m c] by (auto simp: om_contains_def split: if_splits)
  moreover have "j = j'" if "?look j = Some m" "?look j' = Some m'" "\<not> nd_removed m"
    "\<not> nd_removed m'" "nd_bdf m = nd_bdf m'" for j m j' m'
    using that n tp_inv_bdf [OF inv, of j m j' m'] bdf_entry_None [OF b, of j m]
      bdf_entry_None [OF b, of j' m'] by (auto split: if_splits)
  ultimately show ?thesis by (simp add: tp_inv_def del: om_lookup_insert)
qed

lemma tp_inv_add_node:
  assumes inv: "tp_inv t"
  shows "tp_inv (snd (add_node i bdf kind gen src t))"
proof (cases "bdf_entry t bdf")
  case None
  with inv show ?thesis
    by (auto simp: add_node_def om_contains_def Node_default_def intro!: tp_inv_new_node)
next
  case (Some kn)
  obtain k n where kn: "kn = (k, n)" by (cases kn)
  have "om_lookup (tp_nodes t) k = Some n" using bdf_entry_Some [OF inv] Some kn by blast
  then have "tp_inv (t\<lparr>tp_nodes := om_insert k (n\<lparr>nd_generation := gen_inc (nd_generation n)\<rparr>) (tp_nodes t)\<rparr>)"
    by (rule tp_inv_update [OF inv]) auto
  with Some kn show ?thesis by (simp add: add_node_def)
qed

text \<open>A successful or refused attach, and the state it leaves.\<close>

definition attach_state :: "PciNodeId \<Rightarrow> PciNodeId \<Rightarrow> LinkId option \<Rightarrow> Node \<Rightarrow> Node \<Rightarrow> Topology \<Rightarrow> Topology" where
  "attach_state child parent link c p t =
     t\<lparr>tp_nodes := om_insert parent (attach_parent child link p)
        (om_insert child (attach_child parent link c) (tp_nodes t))\<rparr>"

lemma attach_fields [simp]:
  "nd_id (attach_child p l n) = nd_id n" "nd_id (attach_parent c l n) = nd_id n"
  "nd_parent (attach_child p l n) = Some p" "nd_parent (attach_parent c l n) = nd_parent n"
  "nd_children (attach_child p l n) = nd_children n"
  "set (nd_children (attach_parent c l n)) = insert c (set (nd_children n))"
  "nd_bdf (attach_child p l n) = nd_bdf n" "nd_bdf (attach_parent c l n) = nd_bdf n"
  "nd_removed (attach_child p l n) = nd_removed n" "nd_removed (attach_parent c l n) = nd_removed n"
  "nd_kind (attach_child p l n) = nd_kind n" "nd_kind (attach_parent c l n) = nd_kind n"
  by (auto simp: attach_child_def attach_parent_def)

lemma tp_inv_attach_state:
  assumes inv: "tp_inv t" and p: "om_lookup (tp_nodes t) parent = Some p"
    and c: "om_lookup (tp_nodes t) child = Some c" and ne: "child \<noteq> parent"
  shows "tp_inv (attach_state child parent link c p t)"
proof -
  let ?look = "om_lookup (tp_nodes (attach_state child parent link c p t))"
  note st = attach_state_def
  have old: "\<exists>m'. om_lookup (tp_nodes t) j = Some m' \<and> nd_id m' = nd_id m \<and> nd_bdf m' = nd_bdf m \<and>
      nd_removed m' = nd_removed m \<and> nd_parent m = (if j = child then Some parent else nd_parent m') \<and>
      set (nd_children m) = (if j = parent then insert child (set (nd_children m')) else set (nd_children m'))"
    if "?look j = Some m" for j m
    using that p c ne by (auto simp: st split: if_splits)
  have new: "\<exists>m'. ?look j = Some m' \<and> set (nd_children m) \<subseteq> set (nd_children m')"
    if "om_lookup (tp_nodes t) j = Some m" for j m
    using that p c ne by (auto simp: st)
  have "om_wf (tp_nodes (attach_state child parent link c p t))" using tp_inv_wf [OF inv] by (simp add: st)
  moreover have "nd_id m = j" if "?look j = Some m" for j m
    using old [OF that] tp_inv_id [OF inv] by metis
  moreover have "q \<noteq> j \<and> (\<exists>pn. ?look q = Some pn \<and> j \<in> set (nd_children pn))"
    if h: "?look j = Some m" "nd_parent m = Some q" for j m q
  proof (cases "j = child")
    case True
    then have "q = parent" using old [OF h(1)] h(2) by auto
    with True ne show ?thesis by (simp add: st)
  next
    case False
    then obtain m' where "om_lookup (tp_nodes t) j = Some m'" "nd_parent m' = Some q"
      using old [OF h(1)] h(2) by auto
    from tp_inv_parent [OF inv this] new show ?thesis by blast
  qed
  moreover have "om_contains (tp_nodes (attach_state child parent link c p t)) d"
    if "?look j = Some m" "d \<in> set (nd_children m)" for j m d
  proof -
    have "om_contains (tp_nodes t) d"
      using old [OF that(1)] that(2) tp_inv_child [OF inv] c by (auto simp: om_contains_iff split: if_splits)
    with new show ?thesis unfolding om_contains_iff by blast
  qed
  moreover have "j = j'" if "?look j = Some m" "?look j' = Some m'" "\<not> nd_removed m"
    "\<not> nd_removed m'" "nd_bdf m = nd_bdf m'" for j m j' m'
    using old [OF that(1)] old [OF that(2)] that(3-5) tp_inv_bdf [OF inv] by metis
  ultimately show ?thesis unfolding tp_inv_def by blast
qed

lemma tp_attach_cases:
  obtains (unchanged) r where "tp_attach child parent link t = (r, t)"
      "\<And>c. om_lookup (tp_nodes t) child = Some c \<Longrightarrow> tp_contains t parent \<Longrightarrow> child \<noteq> parent \<Longrightarrow>
         nd_parent c = Some parent"
  | (changed) c p where "om_lookup (tp_nodes t) parent = Some p" "om_lookup (tp_nodes t) child = Some c"
      "child \<noteq> parent" "nd_parent c \<noteq> Some parent"
      "tp_attach child parent link t =
        (if would_cycle (attach_state child parent link c p t) child parent
         then Err EC_HIERARCHY_CYCLE ''cycle detected'' else Success (), attach_state child parent link c p t)"
proof (cases "\<exists>c p. om_lookup (tp_nodes t) parent = Some p \<and> om_lookup (tp_nodes t) child = Some c \<and>
    child \<noteq> parent \<and> nd_parent c \<noteq> Some parent")
  case True
  then obtain c p where cp: "om_lookup (tp_nodes t) parent = Some p" "om_lookup (tp_nodes t) child = Some c"
    "child \<noteq> parent" "nd_parent c \<noteq> Some parent" by blast
  show ?thesis by (rule changed [OF cp]) (use cp in \<open>simp add: tp_attach_def attach_state_def Let_def\<close>)
next
  case False
  then have "\<exists>r. tp_attach child parent link t = (r, t)"
    by (auto simp: tp_attach_def split: option.splits)
  moreover have "nd_parent c = Some parent"
    if "om_lookup (tp_nodes t) child = Some c" "tp_contains t parent" "child \<noteq> parent" for c
    using False that by (auto simp: tp_contains_def om_contains_iff)
  ultimately show ?thesis using unchanged by blast
qed

lemma tp_inv_attach: "tp_inv t \<Longrightarrow> tp_inv (snd (tp_attach child parent link t))"
  by (cases rule: tp_attach_cases [of child parent link t]) (auto intro: tp_inv_attach_state)

lemma tp_inv_add_and_attach: "tp_inv t \<Longrightarrow> tp_inv (snd (add_and_attach i bdf kind gen src parent t))"
  using tp_inv_add_node [of t i bdf kind gen src]
  by (auto simp: add_and_attach_def intro: tp_inv_attach split: prod.splits Result.splits)

lemma tp_inv_remove: "tp_inv t \<Longrightarrow> tp_inv (snd (remove_node i t))"
  by (auto simp: remove_node_def tp_inv_other intro: tp_inv_update split: option.splits)

lemma tp_inv_bump: "tp_inv t \<Longrightarrow> tp_inv (snd (bump_generation i t))"
  by (auto simp: bump_generation_def intro: tp_inv_update split: option.splits)

lemma tp_inv_new: "tp_inv Topology_new"
  by (simp add: tp_inv_def Topology_new_def)

section \<open>Every call keeps the invariant\<close>

inductive tp_step :: "Topology \<Rightarrow> Topology \<Rightarrow> bool" where
  tp_step_root: "tp_step t (snd (add_root_complex rc bdf gen src t))"
| tp_step_bridge: "tp_step t (snd (add_bridge b bdf gen src parent t))"
| tp_step_endpoint: "tp_step t (snd (add_endpoint i bdf kind gen src parent t))"
| tp_step_attach: "tp_step t (snd (tp_attach child parent link t))"
| tp_step_remove: "tp_step t (snd (remove_node i t))"
| tp_step_bump: "tp_step t (snd (bump_generation i t))"

inductive_cases tp_stepE: "tp_step t t'"

definition tp_start :: "Topology \<Rightarrow> bool" where
  "tp_start t = (t = Topology_new)"

definition tp_reach :: "Topology \<Rightarrow> bool" where
  "tp_reach = reachable tp_start tp_step"

lemma tp_step_inv: "tp_inv t \<Longrightarrow> tp_step t t' \<Longrightarrow> tp_inv t'"
  by (auto elim!: tp_stepE simp: add_root_complex_def add_bridge_def add_endpoint_def fresh_node_id_def
      intro!: tp_inv_add_node tp_inv_add_and_attach tp_inv_attach tp_inv_remove tp_inv_bump
      simp: tp_inv_other)

interpretation tpi: invariant tp_start tp_step tp_inv
  by unfold_locales (auto simp: tp_start_def tp_inv_new intro: tp_step_inv)

lemma tp_reach_inv: "tp_reach t \<Longrightarrow> tp_inv t"
  unfolding tp_reach_def by (rule tpi.always)

section \<open>Attaching\<close>

lemma chain_transport:
  "chain par a xs \<Longrightarrow> (\<And>x. x \<in> set xs \<Longrightarrow> par' x = par x) \<Longrightarrow> chain par' a xs"
proof (induction xs arbitrary: a)
  case (Cons x xs)
  then show ?case by (cases "par a") auto
qed simp

lemma chain_reroute:
  assumes "chain par a (us @ x # vs)" and "\<And>u. u \<in> set us \<Longrightarrow> par' u = par u"
    and "chain par' x ws"
  shows "chain par' a (us @ ws)"
  using assms
proof (induction us arbitrary: a)
  case Nil
  then show ?case by simp
next
  case (Cons u us)
  then show ?case by (cases "par a") auto
qed

lemma walk_hits:
  assumes "chain par a (us @ x # vs)" and "\<And>u. u \<in> set us \<Longrightarrow> par' u = par u" and "length us < n"
  shows "x \<in> set (walk par' n a)"
  using assms
proof (induction us arbitrary: a n)
  case Nil
  then show ?case by (cases n) auto
next
  case (Cons u us)
  then show ?case by (cases n; cases "par a") auto
qed

lemma om_length_le: "length m \<le> length (om_insert k v m)"
  by (induction k v m rule: om_insert.induct) auto

lemma attach_state_length: "length (tp_nodes t) \<le> length (tp_nodes (attach_state child parent link c p t))"
  unfolding attach_state_def by (simp add: le_trans [OF om_length_le om_length_le])

lemma tp_parent_attach:
  assumes "child \<noteq> parent" and "om_lookup (tp_nodes t) parent = Some p"
  shows "tp_parent (attach_state child parent link c p t) = (tp_parent t)(child := Some parent)"
  using assms by (auto simp: tp_parent_def attach_state_def)

lemma rooted_all: "tp_acyclic t \<Longrightarrow> chain (tp_parent t) i (ancestors t i)"
  by (simp add: tp_acyclic_iff rooted_def)

lemma chain_fits: "chain (tp_parent t) i xs \<Longrightarrow> length xs \<le> length (tp_nodes t) + 1"
  using chain_length [of "fst ` set (tp_nodes t)" "tp_parent t" i xs] tp_parent_key [of t] card_keys [of t]
  by auto

lemma ancestors_avoid:
  assumes "tp_acyclic t" and "tp_parent t' = (tp_parent t)(child := Some parent)"
    and "child \<notin> set (ancestors t i)"
  shows "chain (tp_parent t') i (ancestors t i)"
  by (rule chain_transport [OF rooted_all [OF assms(1)]]) (use assms in auto)

text \<open>The code tests for a cycle after it has set the edge; the answer is the one before it.\<close>

lemma would_cycle_iff:
  assumes acyc: "tp_acyclic t" and par: "tp_parent t' = (tp_parent t)(child := Some parent)"
    and len: "length (tp_nodes t) \<le> length (tp_nodes t')"
  shows "would_cycle t' child parent \<longleftrightarrow> child \<in> set (ancestors t parent)"
proof
  assume w: "would_cycle t' child parent"
  show "child \<in> set (ancestors t parent)"
  proof (rule ccontr)
    assume n: "child \<notin> set (ancestors t parent)"
    from chain_ancestors [OF ancestors_avoid [OF acyc par n]] n w show False
      by (simp add: would_cycle_def)
  qed
next
  assume "child \<in> set (ancestors t parent)"
  then obtain us vs where s: "ancestors t parent = us @ child # vs" "child \<notin> set us"
    using split_list_first by metis
  have "length us < length (tp_nodes t') + 1"
    using chain_fits [OF rooted_all [OF acyc, of parent]] s(1) len by simp
  then have "child \<in> set (walk (tp_parent t') (length (tp_nodes t') + 1) parent)"
    using s by (intro walk_hits [OF rooted_all [OF acyc, of parent, unfolded s(1)]]) (auto simp: par)
  then show "would_cycle t' child parent" by (simp only: would_cycle_def ancestors_walk)
qed

lemma edge_keeps_acyclic:
  assumes acyc: "tp_acyclic t" and par: "tp_parent t' = (tp_parent t)(child := Some parent)"
    and free: "child \<notin> set (ancestors t parent)"
  shows "tp_acyclic t'"
  unfolding tp_acyclic_iff rooted_iff_chain
proof
  fix i
  show "\<exists>xs. chain (tp_parent t') i xs"
  proof (cases "child \<in> set (ancestors t i)")
    case True
    then obtain us vs where s: "ancestors t i = us @ child # vs" "child \<notin> set us"
      using split_list_first by metis
    have "chain (tp_parent t') child (child # ancestors t parent)"
      using ancestors_avoid [OF acyc par free] by (simp add: par)
    then have "chain (tp_parent t') i (us @ child # ancestors t parent)"
      by (rule chain_reroute [OF rooted_all [OF acyc, of i, unfolded s(1)], rotated])
         (use s in \<open>auto simp: par\<close>)
    then show ?thesis by blast
  qed (use ancestors_avoid [OF acyc par] in blast)
qed

text \<open>
  On an acyclic hierarchy \<open>attach\<close> succeeds exactly when both nodes are present and the child is
  not an ancestor of the parent, and then the hierarchy stays acyclic.
\<close>

lemma attach_acyclic:
  assumes acyc: "tp_acyclic t"
  shows "fst (tp_attach child parent link t) = Success () \<longleftrightarrow>
      tp_contains t child \<and> tp_contains t parent \<and> child \<notin> set (ancestors t parent)"
    and "fst (tp_attach child parent link t) = Success () \<Longrightarrow> tp_acyclic (snd (tp_attach child parent link t))"
proof -
  have self: "i \<in> set (ancestors t i)" for i
    by (simp add: ancestors_walk)
  show iff: "fst (tp_attach child parent link t) = Success () \<longleftrightarrow>
      tp_contains t child \<and> tp_contains t parent \<and> child \<notin> set (ancestors t parent)"
  proof (cases rule: tp_attach_cases [of child parent link t])
    case (changed c p)
    note par = tp_parent_attach [OF changed(3,1), where c = c and link = link]
    have "length (tp_nodes t) \<le> length (tp_nodes (attach_state child parent link c p t))"
      by (rule attach_state_length)
    from would_cycle_iff [OF acyc par this] changed show ?thesis
      by (simp add: tp_contains_def om_contains_def)
  next
    case (unchanged r)
    show ?thesis
    proof (cases "tp_contains t child \<and> tp_contains t parent \<and> child \<noteq> parent")
      case True
      then obtain c p where cp: "om_lookup (tp_nodes t) child = Some c" "om_lookup (tp_nodes t) parent = Some p"
        by (auto simp: tp_contains_def om_contains_def)
      have "nd_parent c = Some parent" using unchanged(2) cp True by blast
      then have "tp_parent t child = Some parent" using cp by (simp add: tp_parent_def)
      moreover have "chain (tp_parent t) child (ancestors t child)" by (rule rooted_all [OF acyc])
      ultimately have "ancestors t child = child # ancestors t parent"
        using chain_ancestors rooted_all [OF acyc] by (cases "ancestors t child") (auto dest: chain_ancestors)
      then have "child \<notin> set (ancestors t parent)"
        using chain_distinct [OF rooted_all [OF acyc, of child]] by simp
      then show ?thesis using True cp \<open>nd_parent c = Some parent\<close> by (simp add: tp_attach_def)
    next
      case False
      then show ?thesis using self
        by (auto simp: tp_attach_def tp_contains_def om_contains_def split: option.splits)
    qed
  qed
  assume ok: "fst (tp_attach child parent link t) = Success ()"
  show "tp_acyclic (snd (tp_attach child parent link t))"
  proof (cases rule: tp_attach_cases [of child parent link t])
    case (changed c p)
    note par = tp_parent_attach [OF changed(3,1), where c = c and link = link]
    from edge_keeps_acyclic [OF acyc par] ok iff changed(5) show ?thesis by simp
  qed (use acyc in simp)
qed

section \<open>Disciplined construction keeps the hierarchy acyclic\<close>

text \<open>
  Calls that add nodes with a BDF no current node has, and attaches that succeed. The other calls,
  an attach that reports a cycle and adding a known BDF under a parent, can leave a cycle.
\<close>

inductive tp_build :: "Topology \<Rightarrow> Topology \<Rightarrow> bool" where
  tp_build_root: "tp_build t (snd (add_root_complex rc bdf gen src t))"
| tp_build_bridge: "bdf_entry t bdf = None \<Longrightarrow> tp_build t (snd (add_bridge b bdf gen src parent t))"
| tp_build_endpoint: "bdf_entry t bdf = None \<Longrightarrow>
    tp_build t (snd (add_endpoint i bdf kind gen src parent t))"
| tp_build_attach: "fst (tp_attach child parent link t) = Success () \<Longrightarrow>
    tp_build t (snd (tp_attach child parent link t))"
| tp_build_remove: "tp_build t (snd (remove_node i t))"
| tp_build_bump: "tp_build t (snd (bump_generation i t))"

inductive_cases tp_buildE: "tp_build t t'"

definition tp_built :: "Topology \<Rightarrow> bool" where
  "tp_built = reachable tp_start tp_build"

lemma tp_build_step: "tp_build t t' \<Longrightarrow> tp_step t t'"
  by (induction rule: tp_build.induct) (rule tp_step.intros)+

lemma tp_acyclic_parents: "tp_parent t' = tp_parent t \<Longrightarrow> tp_acyclic t' = tp_acyclic t"
  by (simp add: tp_acyclic_iff rooted_iff_chain)

lemma tp_parent_simps [simp]:
  "tp_parent (t\<lparr>tp_next_id := x\<rparr>) = tp_parent t" "tp_parent (t\<lparr>tp_gen := g\<rparr>) = tp_parent t"
  by (auto simp: tp_parent_def)

lemma tp_parent_insert:
  "tp_parent (t\<lparr>tp_nodes := om_insert k n (tp_nodes t)\<rparr>) = (tp_parent t)(k := nd_parent n)"
  by (auto simp: tp_parent_def)

lemma tp_parent_same: "om_lookup (tp_nodes t) k = Some n \<Longrightarrow> nd_parent n' = nd_parent n \<Longrightarrow>
   tp_parent (t\<lparr>tp_nodes := om_insert k n' (tp_nodes t)\<rparr>) = tp_parent t"
  by (auto simp: tp_parent_def)

lemma tp_parent_add_node:
  assumes "tp_inv t"
  shows "tp_parent (snd (add_node i bdf kind gen src t)) = tp_parent t"
proof (cases "bdf_entry t bdf")
  case None
  then show ?thesis
    by (auto simp: add_node_def om_contains_def Node_default_def tp_parent_def)
next
  case (Some kn)
  obtain k n where kn: "kn = (k, n)" by (cases kn)
  have "om_lookup (tp_nodes t) k = Some n" using bdf_entry_Some [OF assms] Some kn by blast
  with Some kn show ?thesis by (simp add: add_node_def tp_parent_same)
qed

text \<open>Attaching a node that nobody has as a parent cannot close a cycle.\<close>

lemma attach_leaf:
  assumes acyc: "tp_acyclic t" and leaf: "\<And>j. tp_parent t j \<noteq> Some child"
  shows "tp_acyclic (snd (tp_attach child parent link t))"
proof (cases "child = parent")
  case True
  then show ?thesis using acyc by (auto simp: tp_attach_def split: option.splits)
next
  case False
  have "child \<notin> set (ancestors t parent)"
  proof
    assume "child \<in> set (ancestors t parent)"
    then obtain us vs where s: "ancestors t parent = us @ child # vs" using split_list by metis
    have c: "chain (tp_parent t) parent (us @ child # vs)" using rooted_all [OF acyc, of parent] s by simp
    show False
    proof (cases us rule: rev_cases)
      case Nil
      with c False show False by simp
    next
      case (snoc ws w)
      have "successively (\<lambda>x y. tp_parent t x = Some y) (us @ [child])" by (rule chain_edges [OF c])
      with snoc have "tp_parent t w = Some child" by (simp add: successively_append_iff)
      with leaf show False by blast
    qed
  qed
  then show ?thesis
    using attach_acyclic [OF acyc, of child parent link] acyc
    by (cases "fst (tp_attach child parent link t) = Success ()")
       (auto simp: tp_attach_def tp_contains_def om_contains_def split: option.splits)
qed

lemma attach_new:
  assumes inv: "tp_inv t" and acyc: "tp_acyclic t" and new: "bdf_entry t bdf = None"
  shows "tp_acyclic (snd (add_and_attach i bdf kind gen src parent t))"
proof (cases "om_contains (tp_nodes t) i")
  case True
  with new acyc show ?thesis by (simp add: add_and_attach_def add_node_def)
next
  case False
  define t' where "t' = snd (add_node i bdf kind gen src t)"
  have n: "add_node i bdf kind gen src t = (Success i, t')"
    using new False by (simp add: t'_def add_node_def)
  have p: "tp_parent t' = tp_parent t" unfolding t'_def by (rule tp_parent_add_node [OF inv])
  have "tp_parent t j \<noteq> Some i" for j
  proof
    assume "tp_parent t j = Some i"
    then obtain n where "om_lookup (tp_nodes t) j = Some n" "nd_parent n = Some i"
      by (auto simp: tp_parent_def split: option.splits)
    from tp_inv_parent [OF inv this] False show False by (auto simp: om_contains_def)
  qed
  with p acyc have "tp_acyclic (snd (tp_attach i parent None t'))"
    by (intro attach_leaf) (auto simp: tp_acyclic_parents [OF p])
  with n show ?thesis by (simp add: add_and_attach_def)
qed

lemma tp_build_acyclic:
  assumes inv: "tp_inv t" and acyc: "tp_acyclic t" and b: "tp_build t t'"
  shows "tp_acyclic t'"
  using b
proof cases
  case (tp_build_root rc bdf gen src)
  let ?t = "t\<lparr>tp_next_id := tp_next_id t + 1\<rparr>"
  have "t' = snd (add_node (StrongId (tp_next_id t)) bdf Dev_ROOT_COMPLEX gen src ?t)"
    using tp_build_root by (simp add: add_root_complex_def fresh_node_id_def)
  moreover have "tp_inv ?t" using inv by (simp add: tp_inv_other)
  ultimately have "tp_parent t' = tp_parent t" by (simp add: tp_parent_add_node)
  then show ?thesis using acyc tp_acyclic_parents by blast
next
  case (tp_build_bridge bdf b gen src parent)
  let ?t = "t\<lparr>tp_next_id := tp_next_id t + 1\<rparr>"
  have "tp_acyclic ?t" using acyc by (metis tp_acyclic_parents tp_parent_simps(1))
  moreover have "bdf_entry ?t bdf = None" using tp_build_bridge(2) by (simp add: bdf_entry_def)
  ultimately show ?thesis
    using attach_new [of ?t] inv by (simp add: tp_build_bridge(1) add_bridge_def fresh_node_id_def tp_inv_other)
next
  case (tp_build_endpoint bdf i kind gen src parent)
  then show ?thesis using attach_new [OF inv acyc] by (simp add: add_endpoint_def)
next
  case (tp_build_attach child parent link)
  then show ?thesis using attach_acyclic(2) [OF acyc] by simp
next
  case (tp_build_remove i)
  then have "tp_parent t' = tp_parent t"
    by (auto simp: remove_node_def tp_parent_same split: option.splits)
  then show ?thesis using acyc tp_acyclic_parents by blast
next
  case (tp_build_bump i)
  then have "tp_parent t' = tp_parent t"
    by (auto simp: bump_generation_def tp_parent_same split: option.splits)
  then show ?thesis using acyc tp_acyclic_parents by blast
qed

lemma tp_acyclic_new: "tp_acyclic Topology_new"
  by (simp add: tp_acyclic_def Topology_new_def)

interpretation tpb: invariant tp_start tp_build "\<lambda>t. tp_inv t \<and> tp_acyclic t"
proof
  show "tp_inv t \<and> tp_acyclic t" if "tp_start t" for t
    using that tp_inv_new tp_acyclic_new by (simp add: tp_start_def)
  show "tp_inv t' \<and> tp_acyclic t'" if "tp_inv t \<and> tp_acyclic t" "tp_build t t'" for t t'
    using that tp_step_inv tp_build_step tp_build_acyclic by blast
qed

lemma tp_built_props: "tp_built t \<Longrightarrow> tp_inv t \<and> tp_acyclic t"
  unfolding tp_built_def by (rule tpb.always)

lemma tp_built_reach: "tp_built t \<Longrightarrow> tp_reach t"
  unfolding tp_built_def tp_reach_def
  by (induction rule: reachable.induct) (auto intro: reach_init reach_step tp_build_step)

section \<open>Validation\<close>

definition current_ok :: "Topology \<Rightarrow> bool" where
  "current_ok t = list_all (\<lambda>kv. nd_removed (snd kv) \<or>
     Bdf_valid (nd_bdf (snd kv)) \<and> DeviceClass_valid (DeviceClass_code (nd_kind (snd kv)))) (tp_nodes t)"

lemma validate_loop_ok:
  assumes inv: "tp_inv t" and ok: "current_ok t" and sub: "set rest \<subseteq> set (tp_nodes t)"
    and d: "distinct (map fst rest)"
    and seen: "\<And>x. x \<in> set seen \<Longrightarrow> \<exists>k v. (k, v) \<in> set (tp_nodes t) \<and> k \<notin> fst ` set rest \<and>
      \<not> nd_removed v \<and> x = StrongId (bdf_pack (nd_bdf v))"
  shows "validate_loop t rest seen = Success ()"
  using sub d seen
proof (induction rest arbitrary: seen)
  case (Cons kv rest)
  obtain k v where kv: "kv = (k, v)" by (cases kv)
  have k: "om_lookup (tp_nodes t) k = Some v"
    using Cons.prems(1) kv om_in_set_lookup [OF tp_inv_wf [OF inv]] by auto
  have step: "set rest \<subseteq> set (tp_nodes t)" "distinct (map fst rest)" using Cons.prems(1,2) by auto
  show ?case
  proof (cases "nd_removed v")
    case True
    have "validate_loop t rest seen = Success ()"
      by (rule Cons.IH [OF step]) (use Cons.prems(3) in fastforce)
    with True kv show ?thesis by simp
  next
    case False
    then have v: "Bdf_valid (nd_bdf v)" "DeviceClass_valid (DeviceClass_code (nd_kind v))"
      using ok Cons.prems(1) kv by (auto simp: current_ok_def list_all_iff)
    have new: "StrongId (bdf_pack (nd_bdf v)) \<notin> set seen"
    proof
      assume "StrongId (bdf_pack (nd_bdf v)) \<in> set seen"
      then obtain k' v' where kv': "(k', v') \<in> set (tp_nodes t)" "k' \<notin> fst ` set (kv # rest)"
        "\<not> nd_removed v'" "bdf_pack (nd_bdf v) = bdf_pack (nd_bdf v')"
        using Cons.prems(3) by blast
      then have "k = k'"
        using tp_inv_bdf [OF inv k _ False kv'(3) bdf_pack_inj [OF kv'(4)]]
          om_in_set_lookup [OF tp_inv_wf [OF inv] kv'(1)] by blast
      with kv'(2) kv show False by simp
    qed
    have dang: "case nd_parent v of None \<Rightarrow> False | Some p \<Rightarrow> \<not> om_contains (tp_nodes t) p \<Longrightarrow> False"
      using tp_inv_parent [OF inv k] by (auto simp: om_contains_def split: option.splits)
    have "validate_loop t rest (StrongId (bdf_pack (nd_bdf v)) # seen) = Success ()"
    proof (rule Cons.IH [OF step])
      fix x assume x: "x \<in> set (StrongId (bdf_pack (nd_bdf v)) # seen)"
      show "\<exists>k v. (k, v) \<in> set (tp_nodes t) \<and> k \<notin> fst ` set rest \<and> \<not> nd_removed v \<and>
          x = StrongId (bdf_pack (nd_bdf v))"
      proof (cases "x \<in> set seen")
        case True
        then show ?thesis using Cons.prems(3) by fastforce
      next
        case x': False
        then show ?thesis using x Cons.prems(1,2) kv False
          by (intro exI [of _ k] exI [of _ v]) auto
      qed
    qed
    with False v new dang kv show ?thesis by (auto simp: to_identity_canonical)
  qed
qed simp

lemma tp_validate_ok: "tp_inv t \<Longrightarrow> current_ok t \<Longrightarrow> tp_validate t = Success ()"
  unfolding tp_validate_def
  by (rule validate_loop_ok) (auto intro: om_wf_distinct tp_inv_wf)

section \<open>Locality\<close>

lemma anc_loop_key:
  "x \<in> set (anc_loop n (tp_nodes t) cur) \<Longrightarrow> tp_inv t \<Longrightarrow> cur = Some x \<or> tp_contains t x"
proof (induction n "tp_nodes t" cur rule: anc_loop.induct)
  case (3 left c)
  show ?case
  proof (cases "om_lookup (tp_nodes t) c")
    case None
    with 3 show ?thesis by simp
  next
    case (Some n)
    then consider "x = c" | "x \<in> set (anc_loop left (tp_nodes t) (nd_parent n))" using 3 by auto
    then show ?thesis
    proof cases
      case 2
      then have "nd_parent n = Some x \<or> tp_contains t x" using 3 Some by blast
      then show ?thesis using tp_inv_parent [OF 3(3) Some] by (auto simp: tp_contains_def om_contains_def)
    qed simp
  qed
qed auto

lemma locality_total:
  assumes "tp_inv t"
  shows "locality t a b \<noteq> None"
proof (cases "a = b \<or> common_ancestor t a b = None")
  case False
  then obtain c where c: "common_ancestor t a b = Some c" "a \<noteq> b" by auto
  then have "c \<in> set (ancestors t a)" "c \<in> set (ancestors t b)"
    using find_split [of "\<lambda>x. x \<in> set (ancestors t b)" "ancestors t a" c]
    by (auto simp: common_ancestor_def)
  then have "c = a \<or> tp_contains t c" "c = b \<or> tp_contains t c"
    unfolding ancestors_def using anc_loop_key assms by blast+
  with c show ?thesis by (auto simp: locality_def tp_contains_def om_contains_def)
qed (auto simp: locality_def)

lemma common_ancestor_sym: "rooted t a \<Longrightarrow> rooted t b \<Longrightarrow> common_ancestor t a b = common_ancestor t b a"
  unfolding common_ancestor_meet by (rule tp.meet_sym)

lemma locality_sym: "tp_acyclic t \<Longrightarrow> locality t a b = locality t b a"
  using common_ancestor_sym [of t a b] by (auto simp: locality_def tp_acyclic_iff)

section \<open>Enumeration\<close>

lemma sort_key_strict:
  fixes f :: "'a \<Rightarrow> 'b::linorder"
  shows "distinct (map f xs) \<Longrightarrow> sorted_wrt (<) (map f (sort_key f xs))"
proof -
  assume "distinct (map f xs)"
  then have "distinct (map f (sort_key f xs))" by (simp add: distinct_map)
  then show ?thesis by (simp add: strict_sorted_iff)
qed

lemma all_nodes_props:
  assumes "tp_inv t"
  shows "set (all_nodes t) = {k. \<exists>n. om_lookup (tp_nodes t) k = Some n \<and> \<not> nd_removed n}"
    and "distinct (all_nodes t)"
proof -
  note wf = tp_inv_wf [OF assms]
  show "set (all_nodes t) = {k. \<exists>n. om_lookup (tp_nodes t) k = Some n \<and> \<not> nd_removed n}"
    by (force simp: all_nodes_def om_in_set_iff [OF wf, symmetric])
  have "distinct (map fst (filter (\<lambda>kv. \<not> nd_removed (snd kv)) (tp_nodes t)))"
    by (rule distinct_map_filter) (rule om_wf_distinct [OF wf])
  then show "distinct (all_nodes t)" by (simp add: all_nodes_def distinct_map)
qed

lemma current_bdfs_distinct:
  assumes inv: "tp_inv t"
  shows "distinct (map (\<lambda>kv. nd_bdf (snd kv)) (filter (\<lambda>kv. \<not> nd_removed (snd kv) \<and> P kv) (tp_nodes t)))"
proof -
  note wf = tp_inv_wf [OF inv]
  have d: "distinct (filter (\<lambda>kv. \<not> nd_removed (snd kv) \<and> P kv) (tp_nodes t))"
    using om_wf_distinct [OF wf] by (simp add: distinct_map)
  moreover have "inj_on (\<lambda>kv. nd_bdf (snd kv)) (set (filter (\<lambda>kv. \<not> nd_removed (snd kv) \<and> P kv) (tp_nodes t)))"
  proof (rule inj_onI)
    fix x y
    assume x: "x \<in> set (filter (\<lambda>kv. \<not> nd_removed (snd kv) \<and> P kv) (tp_nodes t))"
      and y: "y \<in> set (filter (\<lambda>kv. \<not> nd_removed (snd kv) \<and> P kv) (tp_nodes t))"
      and eq: "nd_bdf (snd x) = nd_bdf (snd y)"
    obtain k n k' n' where xy: "x = (k, n)" "y = (k', n')" by (cases x, cases y)
    with x y have l: "om_lookup (tp_nodes t) k = Some n" "om_lookup (tp_nodes t) k' = Some n'"
      "\<not> nd_removed n" "\<not> nd_removed n'" using om_in_set_lookup [OF wf] by auto
    have "k = k'" using tp_inv_bdf [OF inv l(1,2,3,4)] eq xy by simp
    with l xy show "x = y" by simp
  qed
  ultimately show ?thesis by (simp add: distinct_map)
qed

lemma endpoints_sorted:
  assumes inv: "tp_inv t"
  shows "\<exists>ns. endpoints t = map fst ns \<and> sorted_wrt (<) (map (\<lambda>kv. nd_bdf (snd kv)) ns) \<and>
     set ns = {(k, n). om_lookup (tp_nodes t) k = Some n \<and> \<not> nd_removed n \<and> is_endpoint_kind (nd_kind n)}"
proof -
  let ?xs = "filter (\<lambda>kv. \<not> nd_removed (snd kv) \<and> is_endpoint_kind (nd_kind (snd kv))) (tp_nodes t)"
  let ?ns = "sort_key (\<lambda>kv. nd_bdf (snd kv)) ?xs"
  have "sorted_wrt (<) (map (\<lambda>kv. nd_bdf (snd kv)) ?ns)"
    by (rule sort_key_strict) (rule current_bdfs_distinct [OF inv])
  moreover have "set ?ns = {(k, n). om_lookup (tp_nodes t) k = Some n \<and> \<not> nd_removed n \<and>
      is_endpoint_kind (nd_kind n)}"
    by (auto simp: om_in_set_iff [OF tp_inv_wf [OF inv], symmetric])
  ultimately show ?thesis unfolding endpoints_def by blast
qed

end
