(* ===== verification/PF_Measurement.thy ===== *)
theory PF_Measurement
  imports PF_Link
begin

text \<open>
  Measurement records and the measurement store, \<open>include/pciefabric/measurement.hpp\<close>. A store
  keeps one measurement per id and accepts another only with a newer generation. The locale
  \<open>fenced_store\<close> is that contract; its lemma gives the generation a store holds after any
  sequence of calls.
\<close>

record Measurement =
  ms_id :: MeasurementId
  ms_generation :: MeasurementGeneration
  ms_source :: PciNodeId
  ms_destination :: PciNodeId
  ms_transfer_class :: TransferClass
  ms_engine :: EngineKind
  ms_bytes :: TransferBytes
  ms_iterations :: IterationCount
  ms_duration_ns :: Nanoseconds
  ms_latency_ns :: Nanoseconds
  ms_provenance :: Provenance
  ms_path :: "PathId option"
  ms_path_generation :: "PathGeneration option"
  ms_sync_semantics :: string
  ms_warmup_ops :: u64
  ms_backend_detail :: string
  ms_start :: EpochMs
  ms_end :: EpochMs

definition Measurement_new :: "MeasurementId \<Rightarrow> MeasurementGeneration \<Rightarrow> PciNodeId \<Rightarrow> PciNodeId \<Rightarrow>
    TransferClass \<Rightarrow> EngineKind \<Rightarrow> TransferBytes \<Rightarrow> IterationCount \<Rightarrow> Nanoseconds \<Rightarrow> Provenance \<Rightarrow>
    Measurement" where
  "Measurement_new i g src dst cls backend bytes iters dur prov =
     \<lparr>ms_id = i, ms_generation = g, ms_source = src, ms_destination = dst, ms_transfer_class = cls,
      ms_engine = backend, ms_bytes = bytes, ms_iterations = iters, ms_duration_ns = dur,
      ms_latency_ns = 0, ms_provenance = prov, ms_path = None, ms_path_generation = None,
      ms_sync_semantics = [], ms_warmup_ops = 0, ms_backend_detail = [], ms_start = 0, ms_end = 0\<rparr>"

definition ms_set_path :: "PathId \<Rightarrow> PathGeneration \<Rightarrow> Measurement \<Rightarrow> Measurement" where
  "ms_set_path p g m = m\<lparr>ms_path := Some p, ms_path_generation := Some g\<rparr>"

definition throughput :: "Measurement \<Rightarrow> BytesPerSecond" where
  "throughput m =
     (if f64_le (f64_of_nat (unat (ms_duration_ns m))) 0 then 0
      else f64_div (f64_mul (f64_of_nat (unat (ms_bytes m))) f64_1e9)
             (f64_of_nat (unat (ms_duration_ns m))))"

definition throughput_gib :: "Measurement \<Rightarrow> GiBPerSecond" where
  "throughput_gib m = to_gib_per_sec (throughput m)"

section \<open>The store\<close>

type_synonym MeasurementStore = "(MeasurementId, Measurement) omap"

definition ms_ingest :: "Measurement \<Rightarrow> MeasurementStore \<Rightarrow> unit Result \<times> MeasurementStore" where
  "ms_ingest m s = (case om_lookup s (ms_id m) of
      Some old \<Rightarrow>
        if ms_generation old \<ge> ms_generation m
        then (Err EC_STALE_AUTHORITY ''measurement generation not newer'', s)
        else (Success (), om_insert (ms_id m) m s)
    | None \<Rightarrow> (Success (), om_insert (ms_id m) m s))"

definition ms_get :: "MeasurementStore \<Rightarrow> MeasurementId \<Rightarrow> Measurement option" where
  "ms_get s i = om_lookup s i"

definition latest_better :: "Measurement option \<Rightarrow> Measurement \<Rightarrow> bool" where
  "latest_better best m = (case best of None \<Rightarrow> True | Some b \<Rightarrow> ms_generation m > ms_generation b)"

fun latest_loop :: "PciNodeId \<Rightarrow> PciNodeId \<Rightarrow> TransferClass \<Rightarrow> MeasurementStore \<Rightarrow> Measurement option \<Rightarrow>
    Measurement option" where
  "latest_loop src dst cls [] best = best"
| "latest_loop src dst cls ((k, m) # rest) best = latest_loop src dst cls rest
     (if ms_source m = src \<and> ms_destination m = dst \<and> ms_transfer_class m = cls
         \<and> latest_better best m then Some m else best)"

definition ms_latest :: "MeasurementStore \<Rightarrow> PciNodeId \<Rightarrow> PciNodeId \<Rightarrow> TransferClass \<Rightarrow> Measurement option" where
  "ms_latest s src dst cls = latest_loop src dst cls s None"

definition ms_size :: "MeasurementStore \<Rightarrow> nat" where
  "ms_size s = length s"

definition ms_all :: "MeasurementStore \<Rightarrow> Measurement list" where
  "ms_all s = map snd s"

definition count_for_path :: "MeasurementStore \<Rightarrow> PathId \<Rightarrow> nat" where
  "count_for_path s p = length (filter (\<lambda>km. ms_path (snd km) = Some p) s)"

section \<open>Generation fencing\<close>

locale fenced_store =
  fixes ver :: "'s \<Rightarrow> 'k \<Rightarrow> 'g::linorder option"
    and put :: "'v \<Rightarrow> 's \<Rightarrow> bool \<times> 's"
    and key :: "'v \<Rightarrow> 'k" and gen :: "'v \<Rightarrow> 'g"
  assumes put_accepts: "fst (put v s) \<longleftrightarrow> (\<forall>g. ver s (key v) = Some g \<longrightarrow> g < gen v)"
    and put_stores: "fst (put v s) \<Longrightarrow> ver (snd (put v s)) = (ver s)(key v := Some (gen v))"
    and put_refuses: "\<not> fst (put v s) \<Longrightarrow> snd (put v s) = s"
begin

definition newest :: "'g option \<Rightarrow> 'g \<Rightarrow> 'g option" where
  "newest g h = (case g of None \<Rightarrow> Some h | Some g' \<Rightarrow> Some (max g' h))"

lemma put_ver: "ver (snd (put v s)) k = (if key v = k then newest (ver s k) (gen v) else ver s k)"
  using put_accepts [of v s] put_stores [of v s] put_refuses [of v s]
  by (cases "fst (put v s)") (auto simp: newest_def max_def not_less split: option.splits)

lemma puts_ver:
  "ver (fold (\<lambda>v s. snd (put v s)) vs s) k = fold (\<lambda>v g. newest g (gen v)) (filter (\<lambda>v. key v = k) vs) (ver s k)"
  by (induction vs arbitrary: s) (simp_all add: put_ver)

lemma fold_newest: "fold (\<lambda>v g. newest g (gen v)) vs (Some g) = Some (Max (insert g (gen ` set vs)))"
proof (induction vs arbitrary: g)
  case (Cons v vs)
  have "Max (insert g (gen ` set (v # vs))) = Max (insert (max g (gen v)) (gen ` set vs))"
    by (cases "set vs = {}") (simp_all add: max.assoc max.left_commute)
  with Cons show ?case by (simp add: newest_def)
qed simp

text \<open>After any calls, in any order, a key holds the newest generation it was offered.\<close>

lemma puts_newest:
  assumes "filter (\<lambda>v. key v = k) vs \<noteq> []" and "ver s k = None"
  shows "ver (fold (\<lambda>v s. snd (put v s)) vs s) k = Some (Max (gen ` set (filter (\<lambda>v. key v = k) vs)))"
proof -
  obtain w ws where w: "filter (\<lambda>v. key v = k) vs = w # ws" using assms(1) by (cases "filter (\<lambda>v. key v = k) vs") auto
  have "newest None (gen w) = Some (gen w)" by (simp add: newest_def)
  with assms(2) w show ?thesis by (simp add: puts_ver fold_newest)
qed

lemma put_monotone: "ver s k = Some g \<Longrightarrow> \<exists>h. ver (snd (put v s)) k = Some h \<and> g \<le> h"
  by (auto simp: put_ver newest_def)

end

definition ms_ver :: "MeasurementStore \<Rightarrow> MeasurementId \<Rightarrow> MeasurementGeneration option" where
  "ms_ver s i = map_option ms_generation (ms_get s i)"

definition ms_put :: "Measurement \<Rightarrow> MeasurementStore \<Rightarrow> bool \<times> MeasurementStore" where
  "ms_put m s = (res_ok (fst (ms_ingest m s)), snd (ms_ingest m s))"

interpretation msf: fenced_store ms_ver ms_put ms_id ms_generation
  by unfold_locales
     (auto simp: ms_put_def ms_ingest_def ms_ver_def ms_get_def fun_eq_iff split: option.splits if_splits)

definition ingest_all :: "Measurement list \<Rightarrow> MeasurementStore \<Rightarrow> MeasurementStore" where
  "ingest_all ms s = fold (\<lambda>m s. snd (ms_ingest m s)) ms s"

lemma ingest_all_newest:
  assumes "\<exists>m \<in> set ms. ms_id m = i"
  shows "map_option ms_generation (ms_get (ingest_all ms []) i) =
    Some (Max (ms_generation ` {m \<in> set ms. ms_id m = i}))"
proof -
  have "filter (\<lambda>m. ms_id m = i) ms \<noteq> []" using assms by (auto simp: filter_empty_conv)
  from msf.puts_newest [OF this, of "[]"] show ?thesis
    by (simp add: ms_ver_def ms_get_def ms_put_def ingest_all_def)
qed

text \<open>The stored measurement is one of those offered, under its own id.\<close>

definition ms_inv :: "MeasurementStore \<Rightarrow> bool" where
  "ms_inv s = (om_wf s \<and> (\<forall>i m. om_lookup s i = Some m \<longrightarrow> ms_id m = i))"

lemma ms_inv_ingest: "ms_inv s \<Longrightarrow> ms_inv (snd (ms_ingest m s))"
  by (auto simp: ms_inv_def ms_ingest_def split: option.splits)

lemma ms_inv_all: "ms_inv s \<Longrightarrow> ms_inv (ingest_all ms s)"
  unfolding ingest_all_def by (induction ms arbitrary: s) (simp_all add: ms_inv_ingest)

section \<open>Latest\<close>

definition ms_matches :: "PciNodeId \<Rightarrow> PciNodeId \<Rightarrow> TransferClass \<Rightarrow> Measurement \<Rightarrow> bool" where
  "ms_matches src dst cls m = (ms_source m = src \<and> ms_destination m = dst \<and> ms_transfer_class m = cls)"

lemma latest_loop_best:
  assumes "latest_loop src dst cls s best = Some m"
  shows "(best = Some m \<or> m \<in> snd ` set s \<and> ms_matches src dst cls m) \<and>
    (\<forall>b. best = Some b \<longrightarrow> ms_generation b \<le> ms_generation m) \<and>
    (\<forall>x \<in> snd ` set s. ms_matches src dst cls x \<longrightarrow> ms_generation x \<le> ms_generation m)"
  using assms
proof (induction src dst cls s best rule: latest_loop.induct)
  case (2 src dst cls k x rest best)
  then show ?case
    by (auto simp: latest_better_def ms_matches_def not_less split: if_splits option.splits)
qed simp

lemma latest_loop_None:
  "latest_loop src dst cls s best = None \<Longrightarrow> best = None \<and> (\<forall>x \<in> snd ` set s. \<not> ms_matches src dst cls x)"
  by (induction src dst cls s best rule: latest_loop.induct)
     (auto simp: latest_better_def ms_matches_def split: if_splits option.splits)

lemma ms_latest_Some:
  "ms_latest s src dst cls = Some m \<Longrightarrow> m \<in> set (ms_all s) \<and> ms_matches src dst cls m \<and>
   (\<forall>x \<in> set (ms_all s). ms_matches src dst cls x \<longrightarrow> ms_generation x \<le> ms_generation m)"
  unfolding ms_latest_def ms_all_def by (drule latest_loop_best) auto

lemma ms_latest_None:
  "ms_latest s src dst cls = None \<longleftrightarrow> (\<forall>x \<in> set (ms_all s). \<not> ms_matches src dst cls x)"
  using ms_latest_Some [of s src dst cls] latest_loop_None [of src dst cls s None]
  by (cases "ms_latest s src dst cls") (auto simp: ms_latest_def ms_all_def)

lemma throughput_path [simp]: "throughput (ms_set_path p g m) = throughput m"
  by (simp add: throughput_def ms_set_path_def)

end
