(* ===== verification/PF_Path.thy ===== *)
theory PF_Path
  imports PF_Topology PF_Measurement
begin

text \<open>
  Resolved paths, \<open>include/pciefabric/path.hpp\<close>: the path record, the semantic class of a pair of
  nodes and the construction of a path's structural part. \<open>std::set<Capability>\<close> is a duplicate-free
  list in insertion order; the code only inserts, clears and tests membership.
\<close>

record Path =
  pa_id :: PathId
  pa_generation :: PathGeneration
  pa_source :: PciNodeId
  pa_destination :: PciNodeId
  pa_class :: PathClass
  pa_bridge_chain :: "PciNodeId list"
  pa_links :: "LinkId list"
  pa_locality :: LocalityClass
  pa_theoretical :: "LinkEnvelope option"
  pa_caps :: "Capability list"
  pa_measured_bps :: "BytesPerSecond option"
  pa_measured_prov :: Provenance
  pa_history :: "MeasurementId list"
  pa_freshness :: FreshnessRecord
  pa_contention :: ContentionState
  pa_contention_score :: ContentionScore
  pa_shared :: "PciNodeId list"
  pa_confidence :: Confidence
  pa_structural_prov :: Provenance
  pa_epoch :: CoordinatorEpoch
  pa_boot :: WorkerBootId
  pa_host_gen :: HostGeneration
  pa_path_gen :: PathGeneration
  pa_device_gen :: DeviceGeneration

definition Path_new :: "PathId \<Rightarrow> PathGeneration \<Rightarrow> Path" where
  "Path_new i g = \<lparr>pa_id = i, pa_generation = g, pa_source = StrongId 0, pa_destination = StrongId 0,
     pa_class = PC_UNKNOWN, pa_bridge_chain = [], pa_links = [], pa_locality = Loc_UNKNOWN,
     pa_theoretical = None, pa_caps = [], pa_measured_bps = None, pa_measured_prov = Prov_UNKNOWN,
     pa_history = [], pa_freshness = FreshnessRecord_default, pa_contention = Cont_UNKNOWN,
     pa_contention_score = 0, pa_shared = [], pa_confidence = 0, pa_structural_prov = Prov_REPORTED,
     pa_epoch = StrongId 0, pa_boot = StrongId 0, pa_host_gen = Generation 0,
     pa_path_gen = Generation 0, pa_device_gen = Generation 0\<rparr>"

definition pa_set_endpoints :: "PciNodeId \<Rightarrow> PciNodeId \<Rightarrow> Path \<Rightarrow> Path" where
  "pa_set_endpoints s d p = p\<lparr>pa_source := s, pa_destination := d\<rparr>"

definition hop_count :: "Path \<Rightarrow> u32" where
  "hop_count p = (if pa_bridge_chain p = [] then 0 else of_nat (length (pa_bridge_chain p) - 1))"

definition pa_add_capability :: "Capability \<Rightarrow> Path \<Rightarrow> Path" where
  "pa_add_capability c p = p\<lparr>pa_caps := List.insert c (pa_caps p)\<rparr>"

definition pa_has_capability :: "Path \<Rightarrow> Capability \<Rightarrow> bool" where
  "pa_has_capability p c = (c \<in> set (pa_caps p))"

definition pa_set_capabilities :: "Capability list \<Rightarrow> Path \<Rightarrow> Path" where
  "pa_set_capabilities cs p = fold pa_add_capability cs (p\<lparr>pa_caps := []\<rparr>)"

definition pa_set_best_measured :: "BytesPerSecond \<Rightarrow> Provenance \<Rightarrow> Path \<Rightarrow> Path" where
  "pa_set_best_measured b pr p = p\<lparr>pa_measured_bps := Some b, pa_measured_prov := pr\<rparr>"

definition pa_set_authority :: "CoordinatorEpoch \<Rightarrow> WorkerBootId \<Rightarrow> HostGeneration \<Rightarrow> PathGeneration \<Rightarrow>
    DeviceGeneration \<Rightarrow> Path \<Rightarrow> Path" where
  "pa_set_authority e b h g d p = p\<lparr>pa_epoch := e, pa_boot := b, pa_host_gen := h, pa_path_gen := g,
     pa_device_gen := d\<rparr>"

definition authority_matches :: "Path \<Rightarrow> CoordinatorEpoch \<Rightarrow> WorkerBootId \<Rightarrow> bool" where
  "authority_matches p e b = (pa_epoch p = e \<and> pa_boot p = b)"

section \<open>The semantic class\<close>

definition class_of_kinds :: "DeviceClass \<Rightarrow> DeviceClass \<Rightarrow> PathClass" where
  "class_of_kinds s d =
     (if is_endpoint_kind s \<and> is_root_kind d then
        (if s = Dev_ACCELERATOR then PC_ACCELERATOR_TO_HOST else PC_ENDPOINT_TO_HOST)
      else if is_root_kind s \<and> is_endpoint_kind d then
        (if d = Dev_ACCELERATOR then PC_HOST_TO_ACCELERATOR else PC_HOST_TO_ENDPOINT)
      else if is_endpoint_kind s \<and> is_endpoint_kind d then
        (if s = Dev_ACCELERATOR \<and> d = Dev_NIC then PC_ACCELERATOR_TO_NIC
         else if s = Dev_ACCELERATOR \<and> d = Dev_STORAGE then PC_ACCELERATOR_TO_STORAGE
         else if s = Dev_NIC \<and> d = Dev_ACCELERATOR then PC_NIC_TO_ACCELERATOR
         else if s = Dev_STORAGE \<and> d = Dev_ACCELERATOR then PC_STORAGE_TO_ACCELERATOR
         else PC_PEER_ENDPOINT_PATH)
      else PC_UNKNOWN)"

definition compute_path_class :: "Topology \<Rightarrow> PciNodeId \<Rightarrow> PciNodeId \<Rightarrow> PathClass" where
  "compute_path_class t src dst = (case (tp_node t src, tp_node t dst) of
      (Some s, Some d) \<Rightarrow> class_of_kinds (nd_kind s) (nd_kind d)
    | _ \<Rightarrow> PC_UNKNOWN)"

section \<open>Building a path\<close>

text \<open>\<open>None\<close> where \<open>topo.locality\<close> throws.\<close>

definition build_path :: "Topology \<Rightarrow> PathId \<Rightarrow> PathGeneration \<Rightarrow> PciNodeId \<Rightarrow> PciNodeId \<Rightarrow>
    CoordinatorEpoch \<Rightarrow> WorkerBootId \<Rightarrow> Path option" where
  "build_path t i gen src dst epoch boot = (case locality t src dst of
      None \<Rightarrow> None
    | Some loc \<Rightarrow> Some (pa_set_authority epoch boot (Generation 1) gen (Generation 1)
        ((pa_set_endpoints src dst (Path_new i gen))
          \<lparr>pa_class := compute_path_class t src dst,
           pa_bridge_chain := path_nodes t src dst,
           pa_locality := loc,
           pa_shared := (case shared_contention_node t src dst of None \<Rightarrow> [] | Some n \<Rightarrow> [n]),
           pa_confidence := f64_lit 1 2\<rparr>)))"

section \<open>Laws\<close>

lemma class_of_kinds_peer:
  "class_of_kinds s d \<in> {PC_ACCELERATOR_TO_NIC, PC_ACCELERATOR_TO_STORAGE, PC_NIC_TO_ACCELERATOR,
     PC_STORAGE_TO_ACCELERATOR, PC_PEER_ENDPOINT_PATH} \<longleftrightarrow> is_endpoint_kind s \<and> is_endpoint_kind d"
  by (auto simp: class_of_kinds_def is_endpoint_kind_def is_root_kind_def)

lemma class_never_endpoint_to_endpoint: "compute_path_class t a b \<noteq> PC_ENDPOINT_TO_ENDPOINT"
  by (auto simp: compute_path_class_def class_of_kinds_def split: option.splits)

lemma build_path_total:
  assumes "tp_inv t"
  shows "\<exists>p. build_path t i gen src dst epoch boot = Some p"
  using locality_total [OF assms, of src dst] by (auto simp: build_path_def)

lemma build_path_fields:
  "build_path t i gen src dst epoch boot = Some p \<Longrightarrow>
   pa_id p = i \<and> pa_source p = src \<and> pa_destination p = dst \<and> pa_bridge_chain p = path_nodes t src dst \<and>
   Some (pa_locality p) = locality t src dst \<and> pa_class p = compute_path_class t src dst \<and>
   authority_matches p epoch boot \<and> pa_measured_bps p = None \<and> pa_theoretical p = None \<and>
   fr_requires_revalidation (pa_freshness p)"
  by (auto simp: build_path_def pa_set_authority_def pa_set_endpoints_def Path_new_def authority_matches_def
      FreshnessRecord_default_def fr_requires_revalidation_def split: option.splits)

text \<open>The node chain of a path in an acyclic hierarchy.\<close>

lemma path_nodes_props:
  assumes "tp_acyclic t" and "path_nodes t a b \<noteq> []"
  shows "hd (path_nodes t a b) = a \<and> last (path_nodes t a b) = b \<and> distinct (path_nodes t a b) \<and>
    successively (\<lambda>x y. tp_parent t x = Some y \<or> tp_parent t y = Some x) (path_nodes t a b)"
  using tp.route_props [of t a b] assms by (simp add: path_nodes_route tp_acyclic_iff)

lemma path_nodes_empty:
  assumes "tp_acyclic t"
  shows "path_nodes t a b = [] \<longleftrightarrow> set (ancestors t a) \<inter> set (ancestors t b) = {}"
proof -
  have r: "rooted t a" "rooted t b" using assms by (simp_all add: tp_acyclic_iff)
  have "take_through c (ancestors t a) \<noteq> []" for c
    using tp.up_hd [OF r(1)] by auto
  then show ?thesis
    by (auto simp: path_nodes_def common_ancestor_def find_None_iff split: option.splits
        dest: find_split)
qed

end
