(* ===== verification/PF_Codec.thy ===== *)
theory PF_Codec
  imports PF_Binary64
begin

text \<open>
  The binary codec, \<open>include/pciefabric/codec.hpp\<close>. A \<open>Writer\<close> method is the list of bytes it
  appends to the buffer. A \<open>Reader\<close> is its offset \<open>pos_\<close> and the bytes from \<open>data_ + pos_\<close> up to
  \<open>data_ + size_\<close>, so \<open>size_\<close> is the offset plus the length of that list. Reading gives a value and
  the advanced reader, the code's typed error, or \<open>Undef\<close>: a C++ access outside the buffer, which
  \<open>Reader::string\<close> can make because it checks the length against two constants and not against
  \<open>size_\<close>.

  The locale \<open>codec\<close> is the contract of an encoder and a decoder: at an offset where the value
  fits, the decoder reads back what the encoder wrote. Its lemmas lift the contract to counted
  lists. \<open>exact_codec\<close> adds that only encodings are accepted.
\<close>

section \<open>CRC-32\<close>

definition crc_step :: "u32 \<Rightarrow> u32" where
  "crc_step crc = drop_bit 1 crc XOR (0xEDB88320 AND (- (crc AND 1)))"

definition crc_byte :: "u8 \<Rightarrow> u32 \<Rightarrow> u32" where
  "crc_byte b crc = (crc_step ^^ 8) (crc XOR ucast b)"

definition crc32_seed :: "bytes \<Rightarrow> u32 \<Rightarrow> u32" where
  "crc32_seed data seed = fold crc_byte data seed XOR 0xFFFFFFFF"

definition crc32 :: "bytes \<Rightarrow> u32" where
  "crc32 data = crc32_seed data 0xFFFFFFFF"

section \<open>Writer\<close>

definition w_u8 :: "u8 \<Rightarrow> bytes" where
  "w_u8 v = [v]"

text \<open>\<open>n\<close> little-endian bytes of a word.\<close>

definition le_bytes :: "nat \<Rightarrow> 'a::len word \<Rightarrow> bytes" where
  "le_bytes n v = map (\<lambda>i. ucast (drop_bit (i * 8) v)) [0..<n]"

definition w_u16 :: "u16 \<Rightarrow> bytes" where
  "w_u16 v = w_u8 (ucast v) @ w_u8 (ucast (drop_bit 8 v))"

definition w_u32 :: "u32 \<Rightarrow> bytes" where
  "w_u32 v = le_bytes 4 v"

definition w_u64 :: "u64 \<Rightarrow> bytes" where
  "w_u64 v = le_bytes 8 v"

definition w_i32 :: "int \<Rightarrow> bytes" where
  "w_i32 v = w_u32 (of_int v)"

text \<open>The first \<open>n\<close> bytes behind a pointer.\<close>

definition w_bytes :: "bytes \<Rightarrow> nat \<Rightarrow> bytes" where
  "w_bytes p n = take n p"

definition w_f64 :: "f64 \<Rightarrow> bytes" where
  "w_f64 v = w_u64 v"

definition w_bool :: "bool \<Rightarrow> bytes" where
  "w_bool v = w_u8 (if v then 1 else 0)"

definition string_bytes :: "string \<Rightarrow> bytes" where
  "string_bytes s = map (\<lambda>c. of_nat (of_char c)) s"

definition bytes_string :: "bytes \<Rightarrow> string" where
  "bytes_string bs = map (\<lambda>b. char_of (unat b)) bs"

definition w_string :: "string \<Rightarrow> bytes" where
  "w_string s = w_u32 (of_nat (length s)) @ string_bytes s"

definition w_count :: "nat \<Rightarrow> bytes" where
  "w_count n = w_u32 (of_nat n)"

section \<open>Reader\<close>

datatype Reader = Rd (rd_pos: nat) (rd_rest: bytes)

datatype 'a outcome = Done 'a | Fail ErrorCode string | Undef

type_synonym 'a reader = "Reader \<Rightarrow> ('a \<times> Reader) outcome"

definition rd_size :: "Reader \<Rightarrow> nat" where
  "rd_size r = rd_pos r + length (rd_rest r)"

definition rd_open :: "bytes \<Rightarrow> Reader" where
  "rd_open data = Rd 0 data"

definition rd_return :: "'a \<Rightarrow> 'a reader" where
  "rd_return a r = Done (a, r)"

definition rd_fail :: "ErrorCode \<Rightarrow> string \<Rightarrow> 'a reader" where
  "rd_fail c m r = Fail c m"

text \<open>\<open>auto x = m; if (!x) return err(x.code(), x.message()); ...\<close>\<close>

definition rd_bind :: "'a reader \<Rightarrow> ('a \<Rightarrow> 'b reader) \<Rightarrow> 'b reader" where
  "rd_bind m f r = (case m r of Done (a, r') \<Rightarrow> f a r' | Fail c msg \<Rightarrow> Fail c msg | Undef \<Rightarrow> Undef)"

text \<open>\<open>if (!x || !good(x)) return err(code, message)\<close>, the test used for one-byte enums.\<close>

definition rd_check :: "'a reader \<Rightarrow> ('a \<Rightarrow> 'b option) \<Rightarrow> ErrorCode \<Rightarrow> string \<Rightarrow> ('b \<Rightarrow> 'c reader) \<Rightarrow>
    'c reader" where
  "rd_check m good c msg f r = (case m r of
      Done (a, r') \<Rightarrow> (case good a of None \<Rightarrow> Fail c msg | Some b \<Rightarrow> f b r')
    | Fail _ _ \<Rightarrow> Fail c msg | Undef \<Rightarrow> Undef)"

definition rd_run :: "'a reader \<Rightarrow> bytes \<Rightarrow> 'a outcome" where
  "rd_run m data = (case m (rd_open data) of Done (a, _) \<Rightarrow> Done a | Fail c msg \<Rightarrow> Fail c msg | Undef \<Rightarrow> Undef)"

definition r_u8 :: "u8 reader" where
  "r_u8 r = (case rd_rest r of [] \<Rightarrow> Fail EC_TRUNCATED ''u8 overrun''
     | b # bs \<Rightarrow> Done (b, Rd (rd_pos r + 1) bs))"

definition r_u16 :: "u16 reader" where
  "r_u16 = rd_bind r_u8 (\<lambda>lo. rd_bind r_u8 (\<lambda>hi. rd_return (ucast lo OR push_bit 8 (ucast hi))))"

text \<open>The loops of \<open>u32\<close> and \<open>u64\<close>: bytes left, index \<open>i\<close>, value so far.\<close>

primrec r_le :: "nat \<Rightarrow> nat \<Rightarrow> 'a::len word \<Rightarrow> 'a word reader" where
  "r_le 0 i v = rd_return v"
| "r_le (Suc left) i v = rd_bind r_u8 (\<lambda>b. r_le left (i + 1) (v OR push_bit (i * 8) (ucast b)))"

definition r_u32 :: "u32 reader" where
  "r_u32 = r_le 4 0 0"

definition r_u64 :: "u64 reader" where
  "r_u64 = r_le 8 0 0"

definition r_i32 :: "int reader" where
  "r_i32 = rd_bind r_u32 (\<lambda>u. rd_return (sint u))"

definition r_f64 :: "f64 reader" where
  "r_f64 = r_u64"

definition r_bool :: "bool reader" where
  "r_bool = rd_bind r_u8 (\<lambda>b. rd_return (b \<noteq> 0))"

definition max_string :: u64 where
  "max_string = 256 * 1024"

definition max_count :: u32 where
  "max_count = 16 * 1024 * 1024"

text \<open>\<open>len > (max_string_ - pos_)\<close> is a 64-bit unsigned comparison; the difference wraps.\<close>

definition string_refused :: "nat \<Rightarrow> u32 \<Rightarrow> bool" where
  "string_refused pos len = (ucast len > max_string - of_nat pos \<or> len > 64 * 1024)"

definition r_string :: "string reader" where
  "r_string = rd_bind r_u32 (\<lambda>len r.
     if string_refused (rd_pos r) len then Fail EC_PROTOCOL_OVERFLOW ''string length out of bounds''
     else if length (rd_rest r) < unat len then Undef
     else Done (bytes_string (take (unat len) (rd_rest r)),
            Rd (rd_pos r + unat len) (drop (unat len) (rd_rest r))))"

definition r_count :: "u32 reader" where
  "r_count = rd_bind r_u32 (\<lambda>n.
     if n > max_count then rd_fail EC_PROTOCOL_OVERFLOW ''count out of bounds'' else rd_return n)"

definition rd_remaining :: "Reader \<Rightarrow> nat" where
  "rd_remaining r = rd_size r - rd_pos r"

definition rd_at_end :: "Reader \<Rightarrow> bool" where
  "rd_at_end r = (rd_pos r = rd_size r)"

definition rd_require_end :: "unit reader" where
  "rd_require_end r = (if rd_pos r \<noteq> rd_size r then Fail EC_PROTOCOL_MALFORMED ''trailing garbage''
     else Done ((), r))"

text \<open>\<open>for (i = 0; i < n; ++i) { auto x = dec(r); if (!x) return err; xs.push_back(x); }\<close>\<close>

primrec rd_times :: "nat \<Rightarrow> 'a reader \<Rightarrow> 'a list reader" where
  "rd_times 0 dec = rd_return []"
| "rd_times (Suc n) dec = rd_bind dec (\<lambda>x. rd_bind (rd_times n dec) (\<lambda>xs. rd_return (x # xs)))"

text \<open>The same with the duplicate test of \<open>deserialize\<close>.\<close>

primrec rd_times_unique :: "nat \<Rightarrow> 'a reader \<Rightarrow> ('a \<Rightarrow> 'k) \<Rightarrow> string \<Rightarrow> 'k list \<Rightarrow> 'a list reader" where
  "rd_times_unique 0 dec key msg seen = rd_return []"
| "rd_times_unique (Suc n) dec key msg seen = rd_bind dec (\<lambda>x.
     if key x \<in> set seen then rd_fail EC_DUPLICATE_IDENTITY msg
     else rd_bind (rd_times_unique n dec key msg (key x # seen)) (\<lambda>xs. rd_return (x # xs)))"

section \<open>Evaluation rules of the reader\<close>

named_theorems rd_simps \<open>evaluation of readers on written bytes\<close>

lemma rd_bind_simps [rd_simps]:
  "m r = Done (a, r') \<Longrightarrow> rd_bind m f r = f a r'"
  "m r = Fail c msg \<Longrightarrow> rd_bind m f r = Fail c msg"
  "m r = Undef \<Longrightarrow> rd_bind m f r = Undef"
  by (simp_all add: rd_bind_def)

lemma rd_check_simps [rd_simps]:
  "m r = Done (a, r') \<Longrightarrow> good a = Some b \<Longrightarrow> rd_check m good c msg f r = f b r'"
  "m r = Done (a, r') \<Longrightarrow> good a = None \<Longrightarrow> rd_check m good c msg f r = Fail c msg"
  by (simp_all add: rd_check_def)

lemma rd_basic [rd_simps, simp]:
  "rd_return a r = Done (a, r)" "rd_fail c m r = Fail c m"
  by (simp_all add: rd_return_def rd_fail_def)

lemma r_u8_simps [rd_simps, simp]:
  "r_u8 (Rd p (b # bs)) = Done (b, Rd (p + 1) bs)" "r_u8 (Rd p []) = Fail EC_TRUNCATED ''u8 overrun''"
  by (simp_all add: r_u8_def)

lemma r_u8_write [rd_simps, simp]: "r_u8 (Rd p (w_u8 b @ bs)) = Done (b, Rd (p + 1) bs)"
  by (simp add: w_u8_def)

lemma rd_require_end_simps [rd_simps, simp]:
  "rd_require_end (Rd p []) = Done ((), Rd p [])"
  "rd_require_end (Rd p (b # bs)) = Fail EC_PROTOCOL_MALFORMED ''trailing garbage''"
  by (simp_all add: rd_require_end_def rd_size_def)

section \<open>Little-endian words\<close>

lemma le_step:
  "take_bit (i * 8) v OR push_bit (i * 8) (ucast (ucast (drop_bit (i * 8) v) :: u8)) = take_bit ((i + 1) * 8) v"
  for v :: "'a::len word"
proof (rule bit_word_eqI)
  fix n assume "n < LENGTH('a)"
  have "n < i * 8 \<or> (\<exists>k. n = i * 8 + k \<and> k < 8) \<or> (i + 1) * 8 \<le> n"
    by (metis add.commute le_Suc_ex linorder_not_le mult_Suc nat_add_left_cancel_less
        semiring_normalization_rules(2) Suc_eq_plus1 mult.commute)
  then show "bit (take_bit (i * 8) v OR push_bit (i * 8) (ucast (ucast (drop_bit (i * 8) v) :: u8))) n =
      bit (take_bit ((i + 1) * 8) v) n"
    using \<open>n < LENGTH('a)\<close> by (auto simp: bit_simps)
qed

lemma r_le_write:
  "r_le k i (take_bit (i * 8) v) (Rd p (map (\<lambda>j. ucast (drop_bit (j * 8) v)) [i..<i + k] @ bs)) =
   Done (take_bit ((i + k) * 8) v, Rd (p + k) bs)"
  for v :: "'a::len word"
proof (induction k arbitrary: i p)
  case (Suc k)
  have "[i..<i + Suc k] = i # [i + 1..<(i + 1) + k]" by (simp add: upt_rec)
  then show ?case
    using Suc [of "i + 1" "p + 1"] le_step [of i v] by (simp add: rd_bind_def)
qed simp

lemma le_bytes_length [simp]: "length (le_bytes n v) = n"
  by (simp add: le_bytes_def)

lemma r_le_bytes: "LENGTH('a) \<le> n * 8 \<Longrightarrow> r_le n 0 0 (Rd p (le_bytes n v @ bs)) = Done (v, Rd (p + n) bs)"
  for v :: "'a::len word"
  using r_le_write [of n 0 v p bs] by (simp add: le_bytes_def take_bit_word_eq_self)

lemma r_u32_write [rd_simps, simp]: "r_u32 (Rd p (w_u32 v @ bs)) = Done (v, Rd (p + 4) bs)"
  by (simp add: r_u32_def w_u32_def r_le_bytes)

lemma r_i32_write:
  assumes "- (2 ^ 31) \<le> v" and "v < 2 ^ 31"
  shows "r_i32 (Rd p (w_i32 v @ bs)) = Done (v, Rd (p + 4) bs)"
proof -
  have "sint (of_int v :: 32 word) = v" using assms by (simp add: signed_of_int signed_take_bit_int_eq_self)
  then show ?thesis by (simp add: r_i32_def w_i32_def rd_bind_def rd_return_def)
qed

lemma r_u64_write [rd_simps, simp]: "r_u64 (Rd p (w_u64 v @ bs)) = Done (v, Rd (p + 8) bs)"
  by (simp add: r_u64_def w_u64_def r_le_bytes)

lemma r_f64_write [rd_simps, simp]: "r_f64 (Rd p (w_f64 v @ bs)) = Done (v, Rd (p + 8) bs)"
  by (simp add: r_f64_def w_f64_def)

lemma r_bool_write [rd_simps, simp]: "r_bool (Rd p (w_bool v @ bs)) = Done (v, Rd (p + 1) bs)"
  by (simp add: r_bool_def w_bool_def rd_bind_def)

lemma r_u16_write [rd_simps, simp]: "r_u16 (Rd p (w_u16 v @ bs)) = Done (v, Rd (p + 2) bs)"
proof -
  have "ucast (ucast v :: u8) OR push_bit 8 (ucast (ucast (drop_bit 8 v) :: u8)) = v"
    using le_step [of 0 v] le_step [of 1 v] by (simp add: take_bit_word_eq_self)
  then show ?thesis by (simp add: r_u16_def w_u16_def w_u8_def rd_bind_def)
qed

text \<open>The other direction: what a word reader accepts is the word's encoding.\<close>

lemma le_low: "take_bit k acc = acc \<Longrightarrow> take_bit k (acc OR push_bit k w) = acc"
  for acc w :: "'a::len word"
proof (rule bit_word_eqI)
  fix n assume a: "take_bit k acc = acc" and "n < LENGTH('a)"
  have "bit acc n \<longleftrightarrow> n < k \<and> bit acc n" by (metis a bit_take_bit_iff)
  then show "bit (take_bit k (acc OR push_bit k w)) n = bit acc n" by (auto simp: bit_simps)
qed

lemma le_high:
  fixes v acc :: "'a::len word"
  assumes v: "take_bit (k + 8) v = acc OR push_bit k (ucast b)" and acc: "take_bit k acc = acc"
    and len: "k + 8 \<le> LENGTH('a)"
  shows "(ucast (drop_bit k v) :: u8) = b"
proof (rule bit_word_eqI)
  fix n assume n: "n < LENGTH(8)"
  have "bit (take_bit (k + 8) v) (k + n) = bit (acc OR push_bit k (ucast b)) (k + n)" by (simp only: v)
  moreover have "\<not> bit acc (k + n)" by (metis acc bit_take_bit_iff not_add_less1)
  ultimately show "bit (ucast (drop_bit k v) :: u8) n = bit b n"
    using n len by (auto simp: bit_simps add.commute)
qed

lemma r_le_exact:
  fixes v acc :: "'a::len word"
  assumes "r_le k i acc (Rd p bs) = Done (v, Rd p' rest)" and "take_bit (i * 8) acc = acc"
    and "(i + k) * 8 \<le> LENGTH('a)"
  shows "take_bit (i * 8) v = acc \<and> bs = map (\<lambda>j. ucast (drop_bit (j * 8) v)) [i..<i + k] @ rest \<and> p' = p + k"
  using assms
proof (induction k arbitrary: i acc p bs)
  case (Suc k)
  obtain b bs' where bs: "bs = b # bs'"
    using Suc.prems(1) by (cases bs) (auto simp: rd_bind_def)
  let ?acc = "acc OR push_bit (i * 8) (ucast b)"
  have acc: "take_bit ((i + 1) * 8) ?acc = ?acc"
  proof (rule bit_word_eqI)
    fix n assume "n < LENGTH('a)"
    have "bit acc n \<longrightarrow> n < i * 8" by (metis Suc.prems(2) bit_take_bit_iff)
    then show "bit (take_bit ((i + 1) * 8) ?acc) n = bit ?acc n"
      by (auto simp: bit_simps dest: bit_imp_le_length)
  qed
  have "r_le k (i + 1) ?acc (Rd (p + 1) bs') = Done (v, Rd p' rest)"
    using Suc.prems(1) bs by (simp add: rd_bind_def)
  from Suc.IH [OF this acc] Suc.prems(3)
  have ih: "take_bit ((i + 1) * 8) v = ?acc"
    "bs' = map (\<lambda>j. ucast (drop_bit (j * 8) v)) [i + 1..<i + 1 + k] @ rest" "p' = p + 1 + k"
    by simp_all
  have "ucast (drop_bit (i * 8) v) = b"
    using ih(1) Suc.prems(2,3) by (intro le_high [of "i * 8" v acc]) (simp_all add: add.commute)
  moreover have "take_bit (i * 8) v = acc"
    using arg_cong [OF ih(1), of "take_bit (i * 8)"] le_low [OF Suc.prems(2)] by simp
  moreover have "[i..<i + Suc k] = i # [i + 1..<i + 1 + k]" by (simp add: upt_rec)
  ultimately show ?case using ih bs by simp
qed simp

section \<open>Strings\<close>

lemma string_bytes_length [simp]: "length (string_bytes s) = length s" "length (bytes_string bs) = length bs"
  by (simp_all add: string_bytes_def bytes_string_def)

lemma bytes_string_bytes [simp]: "bytes_string (string_bytes s) = s"
proof -
  have "char_of (unat (of_nat (of_char c) :: u8)) = c" for c
  proof -
    have "(of_char c :: nat) < 256" by simp
    then have "unat (of_nat (of_char c) :: u8) = of_char c" by (simp add: unat_of_nat take_bit_nat_eq_self)
    then show ?thesis by simp
  qed
  then show ?thesis by (simp add: bytes_string_def string_bytes_def o_def)
qed

lemma string_bytes_string [simp]: "string_bytes (bytes_string bs) = bs"
proof -
  have "(of_nat (of_char (char_of (unat b) :: char)) :: u8) = b" for b :: u8
  proof -
    have "unat b < 256" using unsigned_less [of b, where ?'a = nat] by simp
    then show ?thesis by simp
  qed
  then show ?thesis by (simp add: bytes_string_def string_bytes_def o_def)
qed

text \<open>Where a string written at offset \<open>p\<close> is read back.\<close>

definition string_fits :: "string \<Rightarrow> nat \<Rightarrow> bool" where
  "string_fits s p = (length s < 2 ^ 32 \<and> \<not> string_refused (p + 4) (of_nat (length s)))"

lemma r_string_write [rd_simps]:
  "string_fits s p \<Longrightarrow> r_string (Rd p (w_string s @ bs)) = Done (s, Rd (p + 4 + length s) bs)"
  by (simp add: r_string_def w_string_def rd_bind_def string_fits_def unat_of_nat take_bit_nat_eq_self)

text \<open>In the first 256 KiB every string of at most 64 KiB is read back.\<close>

lemma string_fits_small:
  assumes "length s \<le> 65536" and "p + 4 + length s \<le> 262144"
  shows "string_fits s p"
proof -
  have len: "length s < 2 ^ 32" using assms(1) by simp
  have u: "unat (of_nat (length s) :: u32) = length s" "unat (of_nat (length s) :: u64) = length s"
    "unat (of_nat (p + 4) :: u64) = p + 4"
    using assms by (simp_all only: unat_of_nat) (simp_all add: take_bit_nat_eq_self)
  have "(of_nat (p + 4) :: u64) \<le> max_string"
    using assms u(3) by (simp only: word_le_nat_alt) (simp add: max_string_def)
  then have "unat (max_string - of_nat (p + 4)) = 262144 - (p + 4)"
    using u(3) by (simp only: unat_sub) (simp add: max_string_def)
  moreover have "unat (ucast (of_nat (length s) :: u32) :: u64) = length s"
    unfolding unsigned_ucast_eq u using len by (simp add: take_bit_nat_eq_self)
  ultimately have "\<not> ucast (of_nat (length s) :: u32) > max_string - of_nat (p + 4)"
    using assms by (simp only: word_less_nat_alt)
  moreover have "\<not> (of_nat (length s) :: u32) > 64 * 1024"
    using assms(1) u by (simp only: word_less_nat_alt) simp
  ultimately show ?thesis using len by (simp add: string_fits_def string_refused_def)
qed

lemma string_fits_length: "string_fits s p \<Longrightarrow> length s \<le> 65536"
  by (auto simp: string_fits_def string_refused_def word_less_nat_alt unat_of_nat take_bit_nat_eq_self not_less)

text \<open>Exactly when \<open>string\<close> reads outside the buffer.\<close>

lemma r_string_Undef:
  "r_string (Rd p (w_u32 len @ bs)) = Undef \<longleftrightarrow> \<not> string_refused (p + 4) len \<and> length bs < unat len"
  by (simp add: r_string_def rd_bind_def)

lemma rd_times_bytes: "rd_times (length xs) r_u8 (Rd p (xs @ bs)) = Done (xs, Rd (p + length xs) bs)"
  by (induction xs arbitrary: p) (simp_all add: rd_bind_def)

section \<open>The codec contract\<close>

locale codec =
  fixes enc :: "'a \<Rightarrow> bytes" and dec :: "'a reader"
    and fits :: "'a \<Rightarrow> nat \<Rightarrow> bool" and norm :: "'a \<Rightarrow> 'a"
  assumes dec_enc: "fits a p \<Longrightarrow> dec (Rd p (enc a @ bs)) = Done (norm a, Rd (p + length (enc a)) bs)"
begin

fun list_fits :: "'a list \<Rightarrow> nat \<Rightarrow> bool" where
  "list_fits [] p = True"
| "list_fits (x # xs) p = (fits x p \<and> list_fits xs (p + length (enc x)))"

lemma times_enc:
  "list_fits xs p \<Longrightarrow> rd_times (length xs) dec (Rd p (concat (map enc xs) @ bs)) =
   Done (map norm xs, Rd (p + length (concat (map enc xs))) bs)"
proof (induction xs arbitrary: p)
  case (Cons x xs)
  then show ?case using dec_enc [of x p "concat (map enc xs) @ bs"]
    by (simp add: rd_bind_def add.assoc)
qed simp

lemma times_unique_enc:
  "list_fits xs p \<Longrightarrow> distinct (map (\<lambda>x. key (norm x)) xs) \<Longrightarrow>
   set seen \<inter> set (map (\<lambda>x. key (norm x)) xs) = {} \<Longrightarrow>
   rd_times_unique (length xs) dec key msg seen (Rd p (concat (map enc xs) @ bs)) =
   Done (map norm xs, Rd (p + length (concat (map enc xs))) bs)"
proof (induction xs arbitrary: p seen)
  case (Cons x xs)
  then show ?case using dec_enc [of x p "concat (map enc xs) @ bs"]
    by (simp add: rd_bind_def add.assoc)
qed simp

lemma times_unique_dup:
  "list_fits xs p \<Longrightarrow> \<not> (distinct (map (\<lambda>x. key (norm x)) xs) \<and>
     set seen \<inter> set (map (\<lambda>x. key (norm x)) xs) = {}) \<Longrightarrow>
   rd_times_unique (length xs) dec key msg seen (Rd p (concat (map enc xs) @ bs)) =
     Fail EC_DUPLICATE_IDENTITY msg"
proof (induction xs arbitrary: p seen)
  case (Cons x xs)
  show ?case
  proof (cases "key (norm x) \<in> set seen")
    case True
    with Cons.prems dec_enc [of x p "concat (map enc xs) @ bs"] show ?thesis by (simp add: rd_bind_def)
  next
    case False
    with Cons.prems have "\<not> (distinct (map (\<lambda>x. key (norm x)) xs) \<and>
        set (key (norm x) # seen) \<inter> set (map (\<lambda>x. key (norm x)) xs) = {})"
      by auto
    with Cons.IH [of "p + length (enc x)" "key (norm x) # seen"] Cons.prems False
      dec_enc [of x p "concat (map enc xs) @ bs"]
    show ?thesis by (simp add: rd_bind_def)
  qed
qed simp

end

locale exact_codec = codec +
  assumes enc_dec: "dec (Rd p bs) = Done (a, Rd p' rest) \<Longrightarrow> bs = enc a @ rest \<and> p' = p + length (enc a)"
    and norm_id: "norm a = a"
begin

lemma dec_iff: "fits a p \<Longrightarrow>
    dec (Rd p bs) = Done (a, r) \<longleftrightarrow> (\<exists>rest. bs = enc a @ rest \<and> r = Rd (p + length (enc a)) rest)"
  using dec_enc [of a p] enc_dec norm_id by (cases r) auto

end

lemma w_lengths [simp]:
  "length (w_u8 a) = 1" "length (w_u16 b) = 2" "length (w_u32 c) = 4" "length (w_u64 d) = 8"
  "length (w_f64 e) = 8" "length (w_bool t) = 1" "length (w_string s) = 4 + length s"
  by (simp_all add: w_u8_def w_u16_def w_u32_def w_u64_def w_f64_def w_bool_def w_string_def)

interpretation u8c: exact_codec w_u8 r_u8 "\<lambda>_ _. True" "\<lambda>x. x"
  by unfold_locales (auto simp: r_u8_def w_u8_def split: list.splits)

interpretation u32c: exact_codec w_u32 r_u32 "\<lambda>_ _. True" "\<lambda>x. x"
proof unfold_locales
  show "bs = w_u32 a @ rest \<and> p' = p + length (w_u32 a)"
    if "r_u32 (Rd p bs) = Done (a, Rd p' rest)" for p bs a p' rest
    using r_le_exact [of 4 0 0 p bs a p' rest] that by (simp add: r_u32_def w_u32_def le_bytes_def)
qed auto

interpretation u64c: exact_codec w_u64 r_u64 "\<lambda>_ _. True" "\<lambda>x. x"
proof unfold_locales
  show "bs = w_u64 a @ rest \<and> p' = p + length (w_u64 a)"
    if "r_u64 (Rd p bs) = Done (a, Rd p' rest)" for p bs a p' rest
    using r_le_exact [of 8 0 0 p bs a p' rest] that by (simp add: r_u64_def w_u64_def le_bytes_def)
qed auto

interpretation strc: exact_codec w_string r_string string_fits "\<lambda>s. s"
proof unfold_locales
  show "bs = w_string a @ rest \<and> p' = p + length (w_string a)"
    if r: "r_string (Rd p bs) = Done (a, Rd p' rest)" for p bs a p' rest
  proof -
    obtain len q bs' where l: "r_u32 (Rd p bs) = Done (len, Rd q bs')"
      using r by (auto simp: r_string_def rd_bind_def split: outcome.splits)
         (metis Reader.collapse)
    from u32c.enc_dec [OF this] have bs: "bs = w_u32 len @ bs'" "q = p + 4" by simp_all
    from r l have "unat len \<le> length bs'" "a = bytes_string (take (unat len) bs')"
      "rest = drop (unat len) bs'" "p' = q + unat len"
      by (auto simp: r_string_def rd_bind_def split: if_splits)
    then show ?thesis using bs by (simp add: w_string_def min_def)
  qed
qed (auto simp: r_string_write add.assoc)

end
