(* ===== verification/PF_Crc.thy ===== *)
theory PF_Crc
  imports PF_Codec
begin

text \<open>
  Error detection of the checksum \<open>crc32\<close> of \<open>codec.hpp\<close>: one step of the bit loop is a linear
  bijection of the 32-bit state, so two inputs of the same length that differ only within four
  consecutive bytes have different checksums, whatever surrounds them.
\<close>

section \<open>The step is linear and injective\<close>

lemma crc_step_if: "crc_step c = drop_bit 1 c XOR (if bit c 0 then 0xEDB88320 else 0)"
proof -
  have "- (c AND 1) = (if bit c 0 then - 1 else 0)" by (simp add: and_one_eq bit_0 odd_iff_mod_2_eq_one)
  then show ?thesis by (simp add: crc_step_def)
qed

lemma crc_step_linear: "crc_step (a XOR b) = crc_step a XOR crc_step b"
  by (rule bit_word_eqI) (auto simp: crc_step_if bit_simps)

lemma crc_step_top: "bit (crc_step c) 31 = bit c 0"
proof -
  have "bit (0xEDB88320 :: u32) 31" by simp
  then show ?thesis by (auto simp: crc_step_if bit_simps dest: bit_imp_le_length)
qed

lemma crc_step_inj: "crc_step a = crc_step b \<Longrightarrow> a = b"
proof -
  assume eq: "crc_step a = crc_step b"
  then have b0: "bit a 0 = bit b 0" by (metis crc_step_top)
  have "drop_bit 1 a = crc_step a XOR (if bit a 0 then 0xEDB88320 else 0)"
    by (simp add: crc_step_if xor.assoc)
  also have "\<dots> = crc_step b XOR (if bit b 0 then 0xEDB88320 else 0)" by (simp only: eq b0)
  also have "\<dots> = drop_bit 1 b" by (simp add: crc_step_if xor.assoc)
  finally have d: "drop_bit 1 a = drop_bit 1 b" .
  show ?thesis
  proof (rule bit_word_eqI)
    fix n assume "n < LENGTH(32)"
    show "bit a n = bit b n"
    proof (cases n)
      case (Suc k)
      have "bit (drop_bit 1 a) k = bit (drop_bit 1 b) k" by (simp only: d)
      with Suc show ?thesis by (simp add: bit_simps)
    qed (use b0 in simp)
  qed
qed

lemma crc_steps_linear: "(crc_step ^^ n) (a XOR b) = (crc_step ^^ n) a XOR (crc_step ^^ n) b"
  by (induction n) (simp_all add: crc_step_linear)

lemma crc_steps_inj: "(crc_step ^^ n) a = (crc_step ^^ n) b \<Longrightarrow> a = b"
  by (induction n) (auto dest: crc_step_inj)

text \<open>Low zero bits are shifted out unchanged.\<close>

lemma crc_step_push: "take_bit 31 w = w \<Longrightarrow> crc_step (push_bit 1 w) = w"
proof (rule bit_word_eqI)
  fix n assume w: "take_bit 31 w = w" and "n < LENGTH(32)"
  have "bit w n \<longrightarrow> n < 31" by (metis w bit_take_bit_iff)
  moreover have b0: "bit (push_bit 1 w) 0 = False" by (simp only: bit_push_bit_iff) simp
  moreover have "bit (push_bit 1 w) (1 + n) = (1 + n < 32 \<and> bit w n)"
    by (simp only: bit_push_bit_iff possible_bit_word) simp
  ultimately show "bit (crc_step (push_bit 1 w)) n = bit w n"
    by (simp only: crc_step_if b0 if_False xor.right_neutral bit_drop_bit_eq o_apply) auto
qed

lemma crc_steps_push: "n \<le> 32 \<Longrightarrow> take_bit (32 - n) w = w \<Longrightarrow> (crc_step ^^ n) (push_bit n w) = w"
proof (induction n arbitrary: w)
  case (Suc n)
  have "take_bit 31 (push_bit n w) = push_bit n w"
  proof (rule bit_word_eqI)
    fix k assume "k < LENGTH(32)"
    have "bit w (k - n) \<longrightarrow> k - n < 32 - Suc n" by (metis Suc.prems(2) bit_take_bit_iff)
    then show "bit (take_bit 31 (push_bit n w)) k = bit (push_bit n w) k"
      using Suc.prems(1) by (auto simp: bit_simps)
  qed
  then have "crc_step (push_bit 1 (push_bit n w)) = push_bit n w" by (rule crc_step_push)
  moreover have "take_bit (32 - n) w = w"
  proof (rule bit_word_eqI)
    fix k assume "k < LENGTH(32)"
    have "bit w k \<longrightarrow> k < 32 - Suc n" by (metis Suc.prems(2) bit_take_bit_iff)
    then show "bit (take_bit (32 - n) w) k = bit w k" by (auto simp: bit_simps)
  qed
  then have "(crc_step ^^ n) (push_bit n w) = w" using Suc by simp
  ultimately show ?case by (simp add: funpow_Suc_right push_bit_push_bit del: funpow.simps)
qed simp

section \<open>A burst of at most four bytes\<close>

fun burst_word :: "bytes \<Rightarrow> u32" where
  "burst_word [] = 0"
| "burst_word (b # bs) = ucast b XOR push_bit 8 (burst_word bs)"

lemma burst_word_small: "take_bit (8 * length bs) (burst_word bs) = burst_word bs"
proof (induction bs)
  case (Cons b bs)
  show ?case
  proof (rule bit_word_eqI)
    fix n assume "n < LENGTH(32)"
    have "bit (burst_word bs) (n - 8) \<longrightarrow> n - 8 < 8 * length bs" by (metis Cons bit_take_bit_iff)
    then show "bit (take_bit (8 * length (b # bs)) (burst_word (b # bs))) n = bit (burst_word (b # bs)) n"
      by (auto simp: bit_simps dest: bit_imp_le_length)
  qed
qed simp

lemma burst_word_inj:
  "length bs = length cs \<Longrightarrow> length bs \<le> 4 \<Longrightarrow> burst_word bs = burst_word cs \<Longrightarrow> bs = cs"
proof (induction bs cs rule: list_induct2)
  case (Cons b bs c cs)
  have bits: "bit (burst_word (b # bs)) n = bit (burst_word (c # cs)) n" for n
    using Cons.prems(2) by (simp only:)
  have "b = c"
  proof (rule bit_word_eqI)
    fix n assume "n < LENGTH(8)"
    then show "bit b n = bit c n" using bits [of n] by (simp add: bit_simps)
  qed
  moreover have "burst_word bs = burst_word cs"
  proof (rule bit_word_eqI)
    fix n assume "n < LENGTH(32)"
    have small: "bit (burst_word xs) n \<longrightarrow> n < 8 * length xs" for xs
      by (metis burst_word_small bit_take_bit_iff)
    show "bit (burst_word bs) n = bit (burst_word cs) n"
    proof (cases "n < 24")
      case True
      then show ?thesis using bits [of "n + 8"] by (auto simp: bit_simps dest: bit_imp_le_length)
    next
      case False
      then show ?thesis using small [of bs] small [of cs] Cons.hyps Cons.prems(1) by auto
    qed
  qed
  ultimately show ?case using Cons by simp
qed simp

lemma fold_crc_burst:
  "length bs \<le> 4 \<Longrightarrow> fold crc_byte bs s = (crc_step ^^ (8 * length bs)) (s XOR burst_word bs)"
proof (induction bs arbitrary: s)
  case (Cons b bs)
  have small: "take_bit (32 - 8) (burst_word bs) = burst_word bs"
  proof (rule bit_word_eqI)
    fix n assume "n < LENGTH(32)"
    have "bit (burst_word bs) n \<longrightarrow> n < 8 * length bs" by (metis burst_word_small bit_take_bit_iff)
    then show "bit (take_bit (32 - 8) (burst_word bs)) n = bit (burst_word bs) n"
      using Cons.prems by (auto simp: bit_simps)
  qed
  have "crc_byte b s XOR burst_word bs =
      (crc_step ^^ 8) (s XOR ucast b) XOR (crc_step ^^ 8) (push_bit 8 (burst_word bs))"
    using crc_steps_push [OF _ small] by (simp only: crc_byte_def)
  also have "\<dots> = (crc_step ^^ 8) (s XOR burst_word (b # bs))"
    by (simp only: crc_steps_linear [symmetric] burst_word.simps xor.assoc)
  finally have "crc_byte b s XOR burst_word bs = (crc_step ^^ 8) (s XOR burst_word (b # bs))" .
  moreover have "8 * length (b # bs) = 8 * length bs + 8" by simp
  ultimately show ?case using Cons.IH [of "crc_byte b s"] Cons.prems
    by (simp only: funpow_add o_apply fold_simps)
qed simp

lemma fold_crc_inj: "fold crc_byte xs s = fold crc_byte xs t \<Longrightarrow> s = t"
proof (induction xs arbitrary: s t)
  case (Cons x xs)
  then have "(crc_step ^^ 8) (s XOR ucast x) = (crc_step ^^ 8) (t XOR ucast x)"
    by (metis crc_byte_def fold_simps(2))
  then have "s XOR ucast x = t XOR ucast x" by (rule crc_steps_inj)
  then have "(s XOR ucast x) XOR ucast x = (t XOR ucast x) XOR ucast x" by (simp only:)
  then show ?case by (simp only: xor.assoc xor_self_eq xor.right_neutral)
qed simp

lemma crc_detects_burst:
  assumes "length b = length b'" and "length b \<le> 4" and "b \<noteq> b'"
  shows "crc32 (pre @ b @ post) \<noteq> crc32 (pre @ b' @ post)"
proof
  assume eq: "crc32 (pre @ b @ post) = crc32 (pre @ b' @ post)"
  let ?s = "fold crc_byte pre 0xFFFFFFFF"
  have "fold crc_byte post (fold crc_byte b ?s) = fold crc_byte post (fold crc_byte b' ?s)"
  proof -
    have "(x XOR 0xFFFFFFFF) XOR 0xFFFFFFFF = x" for x :: u32
      by (simp only: xor.assoc xor_self_eq xor.right_neutral)
    with eq show ?thesis by (simp only: crc32_def crc32_seed_def fold_append o_apply) metis
  qed
  then have "fold crc_byte b ?s = fold crc_byte b' ?s" by (rule fold_crc_inj)
  then have "(crc_step ^^ (8 * length b)) (?s XOR burst_word b) = (crc_step ^^ (8 * length b)) (?s XOR burst_word b')"
    using assms(1,2) by (simp only: fold_crc_burst)
  then have "?s XOR burst_word b = ?s XOR burst_word b'" by (rule crc_steps_inj)
  then have "?s XOR (?s XOR burst_word b) = ?s XOR (?s XOR burst_word b')" by (simp only:)
  then have "burst_word b = burst_word b'"
    by (simp only: xor.assoc [symmetric] xor_self_eq xor.left_neutral)
  with burst_word_inj [OF assms(1,2)] assms(3) show False by simp
qed

end
