(* ===== verification/PF_Protocol.thy ===== *)
theory PF_Protocol
  imports PF_Crc
begin

text \<open>
  The framed wire protocol, \<open>include/pciefabric/protocol.hpp\<close>: the frame and its encoding, the frame
  decoder with its checks in the code's order, and the payloads of the register, release and ack
  messages. A frame decoder never leaves its buffer; \<open>read_ack\<close> can, through \<open>Reader::string\<close>.
\<close>

section \<open>Frames\<close>

datatype MsgKind = MSG_HELLO | MSG_REGISTER | MSG_INVENTORY | MSG_PATH_SNAPSHOT | MSG_MEASUREMENT
  | MSG_RESERVE | MSG_RELEASE | MSG_POLICY_UPDATE | MSG_HEARTBEAT | MSG_REVALIDATE | MSG_ACK | MSG_ERROR

definition MsgKind_all :: "MsgKind list" where
  "MsgKind_all = [MSG_HELLO, MSG_REGISTER, MSG_INVENTORY, MSG_PATH_SNAPSHOT, MSG_MEASUREMENT,
     MSG_RESERVE, MSG_RELEASE, MSG_POLICY_UPDATE, MSG_HEARTBEAT, MSG_REVALIDATE, MSG_ACK, MSG_ERROR]"

definition MsgKind_code :: "MsgKind \<Rightarrow> u8" where
  "MsgKind_code k = (case k of MSG_HELLO \<Rightarrow> 1 | MSG_REGISTER \<Rightarrow> 2 | MSG_INVENTORY \<Rightarrow> 3
     | MSG_PATH_SNAPSHOT \<Rightarrow> 4 | MSG_MEASUREMENT \<Rightarrow> 5 | MSG_RESERVE \<Rightarrow> 6 | MSG_RELEASE \<Rightarrow> 7
     | MSG_POLICY_UPDATE \<Rightarrow> 8 | MSG_HEARTBEAT \<Rightarrow> 9 | MSG_REVALIDATE \<Rightarrow> 10 | MSG_ACK \<Rightarrow> 11
     | MSG_ERROR \<Rightarrow> 12)"

text \<open>\<open>static_cast<MsgKind>\<close> after the range check \<open>1 .. 12\<close>.\<close>

definition MsgKind_of :: "u8 \<Rightarrow> MsgKind option" where
  "MsgKind_of c = (if c < 1 \<or> c > 12 then None else Some (MsgKind_all ! (unat c - 1)))"

datatype Frame = Frame (fm_kind: MsgKind) (fm_payload: bytes)

definition kMagic :: bytes where
  "kMagic = string_bytes ''PFAB''"

definition kVersion :: u32 where
  "kVersion = 1"

definition kMaxPayload :: nat where
  "kMaxPayload = 16 * 1024 * 1024"

definition kHeaderSize :: nat where
  "kHeaderSize = 4 + 4 + 1 + 8 + 4"

definition frame_encode :: "Frame \<Rightarrow> bytes" where
  "frame_encode f = kMagic @ w_u32 kVersion @ w_u8 (MsgKind_code (fm_kind f))
     @ w_u64 (of_nat (length (fm_payload f))) @ w_u32 (crc32 (fm_payload f)) @ fm_payload f"

definition frame_body :: "bytes \<Rightarrow> Frame reader" where
  "frame_body buf =
     rd_bind (rd_times 4 r_u8) (\<lambda>mg.
     if mg \<noteq> kMagic then rd_fail EC_PROTOCOL_MALFORMED ''bad magic'' else
     rd_bind r_u32 (\<lambda>ver.
     if ver \<noteq> kVersion then rd_fail EC_PROTOCOL_VERSION ''unsupported version'' else
     rd_bind r_u8 (\<lambda>kind. case MsgKind_of kind of
       None \<Rightarrow> rd_fail EC_INVALID_ENUM ''invalid message kind''
     | Some k \<Rightarrow>
     rd_bind r_u64 (\<lambda>len.
     if unat len > kMaxPayload then rd_fail EC_PROTOCOL_OVERFLOW ''payload too large'' else
     rd_bind r_u32 (\<lambda>crc.
     if length buf \<noteq> kHeaderSize + unat len
     then rd_fail EC_PROTOCOL_MALFORMED ''frame length mismatch'' else
     if crc32 (take (unat len) (drop kHeaderSize buf)) \<noteq> crc
     then rd_fail EC_PROTOCOL_CHECKSUM ''crc mismatch''
     else rd_return (Frame k (take (unat len) (drop kHeaderSize buf))))))))"

definition frame_decode :: "bytes \<Rightarrow> Frame outcome" where
  "frame_decode buf =
     (if length buf < kHeaderSize then Fail EC_TRUNCATED ''frame too small''
      else rd_run (frame_body buf) buf)"

section \<open>Payloads\<close>

datatype RegisterRequest = RegisterRequest (reg_worker: u64) (reg_boot: u64) (reg_host_gen: u64)

definition write_register :: "RegisterRequest \<Rightarrow> bytes" where
  "write_register q = w_u64 (reg_worker q) @ w_u64 (reg_boot q) @ w_u64 (reg_host_gen q)"

definition read_register :: "bytes \<Rightarrow> RegisterRequest outcome" where
  "read_register = rd_run (rd_bind r_u64 (\<lambda>w. rd_bind r_u64 (\<lambda>b. rd_bind r_u64 (\<lambda>h.
     rd_bind rd_require_end (\<lambda>_. rd_return (RegisterRequest w b h))))))"

datatype ReleaseRequest =
  ReleaseRequest (rl_reservation: u64) (rl_boot: u64) (rl_gen: u64) (rl_epoch: u64)

definition write_release :: "ReleaseRequest \<Rightarrow> bytes" where
  "write_release q = w_u64 (rl_reservation q) @ w_u64 (rl_boot q) @ w_u64 (rl_gen q) @ w_u64 (rl_epoch q)"

definition read_release :: "bytes \<Rightarrow> ReleaseRequest outcome" where
  "read_release = rd_run (rd_bind r_u64 (\<lambda>a. rd_bind r_u64 (\<lambda>b. rd_bind r_u64 (\<lambda>g. rd_bind r_u64 (\<lambda>e.
     rd_bind rd_require_end (\<lambda>_. rd_return (ReleaseRequest a b g e)))))))"

datatype Ack = Ack (ak_epoch: u64) (ak_seq: u64) (ak_ok: bool) (ak_message: string)

definition write_ack :: "u64 \<Rightarrow> u64 \<Rightarrow> bool \<Rightarrow> string \<Rightarrow> bytes" where
  "write_ack epoch seq ok msg = w_u64 epoch @ w_u64 seq @ w_u8 (if ok then 1 else 0) @ w_string msg"

definition read_ack :: "bytes \<Rightarrow> Ack outcome" where
  "read_ack = rd_run (rd_bind r_u64 (\<lambda>ep. rd_bind r_u64 (\<lambda>sq. rd_bind r_u8 (\<lambda>okb. rd_bind r_string (\<lambda>m.
     rd_bind rd_require_end (\<lambda>_. rd_return (Ack ep sq (okb \<noteq> 0) m)))))))"

section \<open>Frames round trip, and nothing else is accepted\<close>

lemma MsgKind_of_code [simp]: "MsgKind_of (MsgKind_code k) = Some k"
  by (cases k) (simp_all add: MsgKind_of_def MsgKind_code_def MsgKind_all_def)

lemma MsgKind_code_nth: "i < 12 \<Longrightarrow> MsgKind_code (MsgKind_all ! i) = of_nat (Suc i)"
proof -
  have "list_all (\<lambda>i. MsgKind_code (MsgKind_all ! i) = of_nat (Suc i)) [0..<12]"
    by (simp add: upt_rec MsgKind_code_def MsgKind_all_def)
  then show "i < 12 \<Longrightarrow> ?thesis" by (simp add: list_all_iff)
qed

lemma MsgKind_code_of: "MsgKind_of c = Some k \<Longrightarrow> MsgKind_code k = c"
proof -
  assume c: "MsgKind_of c = Some k"
  then have r: "\<not> c < 1" "\<not> c > 12" and k: "k = MsgKind_all ! (unat c - 1)"
    by (auto simp: MsgKind_of_def split: if_splits)
  from r have "1 \<le> unat c" "unat c \<le> 12" by (simp_all only: word_less_nat_alt) simp_all
  then show "MsgKind_code k = c" using MsgKind_code_nth [of "unat c - 1"] k by simp
qed

lemma rd_times_bytes_exact:
  "rd_times n r_u8 (Rd p bs) = Done (xs, Rd p' rest) \<Longrightarrow> bs = xs @ rest \<and> length xs = n \<and> p' = p + n"
proof (induction n arbitrary: p bs xs)
  case (Suc n)
  from Suc.prems obtain b bs' where bs: "bs = b # bs'" by (cases bs) (auto simp: rd_bind_def)
  with Suc.prems obtain ys where "rd_times n r_u8 (Rd (p + 1) bs') = Done (ys, Rd p' rest)" "xs = b # ys"
    by (auto simp: rd_bind_def split: outcome.splits)
  with Suc.IH [of "p + 1" bs' ys] bs show ?case by simp
qed simp

lemma kMagic_length [simp]: "length kMagic = 4"
  by (simp add: kMagic_def)

lemma frame_encode_length: "length (frame_encode f) = kHeaderSize + length (fm_payload f)"
  by (simp add: frame_encode_def kHeaderSize_def)

lemma frame_header_drop: "drop kHeaderSize (frame_encode f) = fm_payload f"
proof -
  let ?h = "kMagic @ w_u32 kVersion @ w_u8 (MsgKind_code (fm_kind f))
     @ w_u64 (of_nat (length (fm_payload f))) @ w_u32 (crc32 (fm_payload f))"
  have "frame_encode f = ?h @ fm_payload f" by (simp add: frame_encode_def)
  moreover have "length ?h = kHeaderSize" by (simp add: kHeaderSize_def)
  ultimately show ?thesis by simp
qed

lemma rd_bind_Done: "rd_bind m f r = Done x \<longleftrightarrow> (\<exists>a r'. m r = Done (a, r') \<and> f a r' = Done x)"
  by (auto simp: rd_bind_def split: outcome.splits)

lemma frame_magic: "rd_times 4 r_u8 (Rd p (kMagic @ bs)) = Done (kMagic, Rd (p + 4) bs)"
  using rd_times_bytes [of kMagic p bs] by simp

lemma frame_body_encode:
  assumes len: "length pay = length (fm_payload f)" "length pay \<le> kMaxPayload"
  shows "frame_body buf (Rd 0 (kMagic @ w_u32 kVersion @ w_u8 (MsgKind_code (fm_kind f))
      @ w_u64 (of_nat (length (fm_payload f))) @ w_u32 c @ pay)) =
    (if length buf \<noteq> kHeaderSize + length pay
     then Fail EC_PROTOCOL_MALFORMED ''frame length mismatch''
     else if crc32 (take (length pay) (drop kHeaderSize buf)) \<noteq> c
     then Fail EC_PROTOCOL_CHECKSUM ''crc mismatch''
     else Done (Frame (fm_kind f) (take (length pay) (drop kHeaderSize buf)), Rd 21 pay))"
proof -
  have u: "unat (of_nat (length (fm_payload f)) :: u64) = length pay"
    using len by (simp add: unat_of_nat take_bit_nat_eq_self kMaxPayload_def)
  show ?thesis
    using len by (simp add: frame_body_def rd_bind_def frame_magic u not_less)
qed

lemma frame_decode_encode:
  assumes "length (fm_payload f) \<le> kMaxPayload"
  shows "frame_decode (frame_encode f) = Done f"
  using frame_body_encode [of "fm_payload f" f "frame_encode f" "crc32 (fm_payload f)"] assms
  by (simp add: frame_decode_def frame_encode_length frame_header_drop rd_run_def rd_open_def
      frame_encode_def [symmetric])

lemma frame_decode_sound:
  assumes "frame_decode buf = Done f"
  shows "buf = frame_encode f \<and> length (fm_payload f) \<le> kMaxPayload"
proof -
  obtain f' r where "frame_body buf (Rd 0 buf) = Done (f', r)" "f' = f"
    using assms by (auto simp: frame_decode_def rd_run_def rd_open_def split: if_splits outcome.splits)
  then obtain mg p1 b1 ver p2 b2 kind p3 b3 k len p4 b4 crc p5 b5
    where m: "rd_times 4 r_u8 (Rd 0 buf) = Done (mg, Rd p1 b1)" "mg = kMagic"
      and v: "r_u32 (Rd p1 b1) = Done (ver, Rd p2 b2)" "ver = kVersion"
      and k: "r_u8 (Rd p2 b2) = Done (kind, Rd p3 b3)" "MsgKind_of kind = Some k"
      and l: "r_u64 (Rd p3 b3) = Done (len, Rd p4 b4)" "unat len \<le> kMaxPayload"
      and c: "r_u32 (Rd p4 b4) = Done (crc, Rd p5 b5)"
      and len: "length buf = kHeaderSize + unat len"
      and crc: "crc32 (take (unat len) (drop kHeaderSize buf)) = crc"
      and f: "f = Frame k (take (unat len) (drop kHeaderSize buf))"
    unfolding frame_body_def rd_bind_Done
    by (clarsimp split: if_splits option.splits simp: rd_bind_Done not_less) (metis Reader.collapse)
  have "buf = kMagic @ w_u32 kVersion @ w_u8 kind @ w_u64 len @ w_u32 crc @ b5"
    using rd_times_bytes_exact [OF m(1)] m(2) u32c.enc_dec [OF v(1)] v(2) u8c.enc_dec [OF k(1)]
      u64c.enc_dec [OF l(1)] u32c.enc_dec [OF c] by simp
  moreover from this have "drop kHeaderSize buf = b5" "length b5 = unat len"
    using len by (simp_all add: kHeaderSize_def kMagic_def string_bytes_def w_u8_def w_u32_def w_u64_def le_bytes_def)
  ultimately show ?thesis
    using f crc MsgKind_code_of [OF k(2)] l(2) by (simp add: frame_encode_def)
qed

section \<open>Corruption of the payload is detected\<close>

lemma frame_decode_corrupt:
  assumes f: "fm_payload f = pre @ b @ post" and small: "length (fm_payload f) \<le> kMaxPayload"
    and b: "length b = length b'" "length b \<le> 4" "b \<noteq> b'"
  shows "frame_decode (take (length (frame_encode f) - length (fm_payload f)) (frame_encode f)
      @ pre @ b' @ post) = Fail EC_PROTOCOL_CHECKSUM ''crc mismatch''"
proof -
  let ?pay = "pre @ b' @ post"
  let ?h = "kMagic @ w_u32 kVersion @ w_u8 (MsgKind_code (fm_kind f))
      @ w_u64 (of_nat (length (fm_payload f))) @ w_u32 (crc32 (fm_payload f))"
  have len: "length ?pay = length (fm_payload f)" using f b by simp
  have enc: "frame_encode f = ?h @ fm_payload f" by (simp add: frame_encode_def)
  have hl: "length ?h = kHeaderSize" by (simp add: kHeaderSize_def)
  have buf: "take (length (frame_encode f) - length (fm_payload f)) (frame_encode f) @ ?pay = ?h @ ?pay"
    by (simp only: enc) simp
  have d: "drop kHeaderSize (?h @ ?pay) = ?pay" by (metis append_eq_conv_conj hl)
  have tot: "length (?h @ ?pay) = kHeaderSize + length ?pay" using hl by (simp only: length_append)
  have crc: "crc32 ?pay \<noteq> crc32 (fm_payload f)"
    using crc_detects_burst [OF b, of pre post] f by auto
  have "frame_body (?h @ ?pay) (Rd 0 (?h @ ?pay)) = Fail EC_PROTOCOL_CHECKSUM ''crc mismatch''"
    using frame_body_encode [OF len, of "?h @ ?pay" "crc32 (fm_payload f)"] small len d tot crc by simp
  then show ?thesis
    using tot unfolding buf by (simp add: frame_decode_def rd_run_def rd_open_def)
qed

section \<open>The payload codecs\<close>

lemma read_register_write [simp]: "read_register (write_register q) = Done q"
proof -
  have "w_u64 (reg_host_gen q) = w_u64 (reg_host_gen q) @ []" by simp
  then show ?thesis
    unfolding read_register_def write_register_def rd_run_def rd_open_def
    using r_u64_write [where bs = "[]"] by (cases q) (simp add: rd_bind_def)
qed

lemma read_release_write [simp]: "read_release (write_release q) = Done q"
  unfolding read_release_def write_release_def rd_run_def rd_open_def
  using r_u64_write [where bs = "[]"] by (cases q) (simp add: rd_bind_def)

lemma read_ack_write:
  assumes "length m \<le> 65536"
  shows "read_ack (write_ack e s b m) = Done (Ack e s b m)"
proof -
  have fits: "string_fits m 17" using assms by (intro string_fits_small) simp_all
  show ?thesis
    unfolding read_ack_def write_ack_def rd_run_def rd_open_def
    using r_string_write [OF fits, where bs = "[]"] by (simp add: rd_bind_def)
qed

lemma rd_require_end_Done: "rd_require_end r = Done x \<longleftrightarrow> rd_rest r = [] \<and> x = ((), r)"
  by (cases r) (auto simp: rd_require_end_def rd_size_def)

lemma rd_run_Done: "rd_run m data = Done a \<longleftrightarrow> (\<exists>p bs. m (Rd 0 data) = Done (a, Rd p bs))"
  by (auto simp: rd_run_def rd_open_def split: outcome.splits) (metis Reader.collapse)

lemma ex_Reader: "(\<exists>r. P r) \<longleftrightarrow> (\<exists>p bs. P (Rd p bs))"
  by (metis Reader.collapse)

lemma read_release_sound: "read_release p = Done q \<Longrightarrow> p = write_release q"
  unfolding read_release_def rd_run_Done rd_bind_Done ex_Reader write_release_def
  by (auto simp: rd_require_end_Done dest!: u64c.enc_dec)

lemma read_register_sound: "read_register p = Done q \<Longrightarrow> p = write_register q"
  unfolding read_register_def rd_run_Done rd_bind_Done ex_Reader write_register_def
  by (auto simp: rd_require_end_Done dest!: u64c.enc_dec)

text \<open>Sixteen bytes, a flag and a length are enough to make \<open>read_ack\<close> leave its buffer.\<close>

lemma read_ack_Undef:
  assumes "\<not> string_refused 21 len" and "length bs < unat len"
  shows "read_ack (w_u64 e @ w_u64 s @ w_u8 b @ w_u32 len @ bs) = Undef"
  using assms unfolding read_ack_def rd_run_def rd_open_def
  by (simp add: rd_bind_def r_string_def)

end
