(* ===== verification/PF_Snapshot.thy ===== *)
theory PF_Snapshot
  imports PF_Path PF_Reservation PF_Codec
begin

text \<open>
  Snapshots and their semantic digest, \<open>include/pciefabric/snapshot.hpp\<close>. The hash reads the bytes
  of its integers in memory order, which is little-endian on the program's targets. Two casts of
  the digest, of a theoretical and of a measured rate to \<open>uint64_t\<close>, are undefined for a rate
  outside the type; the digest is then \<open>None\<close>.
\<close>

record Snapshot =
  sn_sequence :: u64
  sn_host_generation :: HostGeneration
  sn_epoch :: CoordinatorEpoch
  sn_nodes :: "Node list"
  sn_paths :: "Path list"
  sn_measurements :: "Measurement list"
  sn_reservations :: "Reservation list"
  sn_policies :: "PolicyId list"
  sn_digest :: u64

definition Snapshot_default :: Snapshot where
  "Snapshot_default = \<lparr>sn_sequence = 0, sn_host_generation = Generation 0, sn_epoch = StrongId 0,
     sn_nodes = [], sn_paths = [], sn_measurements = [], sn_reservations = [], sn_policies = [],
     sn_digest = 0\<rparr>"

record SnapshotDiff =
  sd_endpoints_appeared :: "Bdf list"
  sd_endpoints_disappeared :: "Bdf list"
  sd_generation_changed :: "PciNodeId list"
  sd_path_changed :: "PathId list"
  sd_path_invalidated :: "PathId list"
  sd_link_capability_changed :: "LinkId list"
  sd_measurement_changed :: "MeasurementId list"
  sd_reservation_changed :: "ReservationId list"
  sd_policy_changed :: "PolicyId list"
  sd_authority_rolled :: bool

definition sd_empty :: "SnapshotDiff \<Rightarrow> bool" where
  "sd_empty d = (sd_endpoints_appeared d = [] \<and> sd_endpoints_disappeared d = [] \<and>
     sd_generation_changed d = [] \<and> sd_path_changed d = [] \<and> sd_path_invalidated d = [] \<and>
     sd_link_capability_changed d = [] \<and> sd_measurement_changed d = [] \<and>
     sd_reservation_changed d = [] \<and> sd_policy_changed d = [] \<and> \<not> sd_authority_rolled d)"

section \<open>FNV-1a\<close>

definition fnv_step :: "u8 \<Rightarrow> u64 \<Rightarrow> u64" where
  "fnv_step b h = (h XOR ucast b) * 1099511628211"

definition fnv1a_64 :: "u64 \<Rightarrow> bytes \<Rightarrow> u64" where
  "fnv1a_64 h bs = fold fnv_step bs h"

definition fnv1a_64_str :: "u64 \<Rightarrow> string \<Rightarrow> u64" where
  "fnv1a_64_str h s = fnv1a_64 h (string_bytes s)"

definition fnv1a_64_u64 :: "u64 \<Rightarrow> u64 \<Rightarrow> u64" where
  "fnv1a_64_u64 h v = fnv1a_64 h (le_bytes 8 v)"

definition fnv1a_64_u32 :: "u64 \<Rightarrow> u32 \<Rightarrow> u64" where
  "fnv1a_64_u32 h v = fnv1a_64 h (le_bytes 4 v)"

section \<open>The digest\<close>

definition digest_node :: "Node \<Rightarrow> u64 \<Rightarrow> u64" where
  "digest_node n h =
     (let h = fnv1a_64_str h (canonical (nd_bdf n));
          h = fnv1a_64_u32 h (ucast (DeviceClass_code (nd_kind n)));
          h = fnv1a_64_u64 h (gen_value (nd_generation n));
          h = fnv1a_64_u32 h (ucast (Provenance_code (nd_provenance n)));
          h = (case nd_parent n of None \<Rightarrow> h | Some p \<Rightarrow> fnv1a_64_u64 h (id_value p));
          h = fnv1a_64_str h (nd_vendor n);
          h = fnv1a_64_str h (nd_device n)
      in fnv1a_64_str h (nd_class_name n))"

definition digest_rate :: "f64 option \<Rightarrow> u64 \<Rightarrow> u64 option" where
  "digest_rate r h = (case r of None \<Rightarrow> Some h
     | Some x \<Rightarrow> map_option (fnv1a_64_u64 h) (f64_to_u64 x))"

definition digest_path :: "Path \<Rightarrow> u64 \<Rightarrow> u64 option" where
  "digest_path p h =
     (let h = fnv1a_64_u64 h (id_value (pa_id p));
          h = fnv1a_64_u64 h (gen_value (pa_generation p));
          h = fnv1a_64_u64 h (id_value (pa_source p));
          h = fnv1a_64_u64 h (id_value (pa_destination p));
          h = fnv1a_64_u32 h (ucast (PathClass_code (pa_class p)));
          h = fnv1a_64_u32 h (ucast (LocalityClass_code (pa_locality p)));
          h = fnv1a_64_u32 h (ucast (Freshness_code (fr_state (pa_freshness p))))
      in map_option (\<lambda>h. case pa_measured_bps p of None \<Rightarrow> h | Some b \<Rightarrow> fnv1a_64 h (le_bytes 8 b))
           (digest_rate (map_option le_effective_bps (pa_theoretical p)) h))"

definition digest_measurement :: "Measurement \<Rightarrow> u64 \<Rightarrow> u64 option" where
  "digest_measurement m h =
     (let h = fnv1a_64_u64 h (id_value (ms_id m));
          h = fnv1a_64_u64 h (id_value (ms_source m));
          h = fnv1a_64_u64 h (id_value (ms_destination m));
          h = fnv1a_64_u32 h (ucast (TransferClass_code (ms_transfer_class m)));
          h = fnv1a_64_u64 h (ms_bytes m)
      in digest_rate (Some (throughput m)) h)"

fun fold_opt :: "('a \<Rightarrow> 'b \<Rightarrow> 'b option) \<Rightarrow> 'a list \<Rightarrow> 'b \<Rightarrow> 'b option" where
  "fold_opt f [] h = Some h"
| "fold_opt f (x # xs) h = (case f x h of None \<Rightarrow> None | Some h' \<Rightarrow> fold_opt f xs h')"

definition semantic_digest :: "Snapshot \<Rightarrow> u64 option" where
  "semantic_digest s =
     (let h = 1469598103934665603;
          h = fnv1a_64_u64 h (sn_sequence s);
          h = fnv1a_64_u64 h (id_value (sn_epoch s));
          h = fold digest_node (sn_nodes s) h
      in case fold_opt digest_path (sn_paths s) h of None \<Rightarrow> None | Some h \<Rightarrow>
         case fold_opt digest_measurement (sn_measurements s) h of None \<Rightarrow> None | Some h \<Rightarrow>
         Some (fnv1a_64_u64 h (h XOR 0x9E3779B97F4A7C15)))"

section \<open>What the digest depends on\<close>

text \<open>The digest ignores reservations, policies, the host generation and the stored digest.\<close>

lemma semantic_digest_frame:
  "semantic_digest (s\<lparr>sn_reservations := rs, sn_policies := ps, sn_host_generation := g, sn_digest := d\<rparr>) =
   semantic_digest s"
  by (simp add: semantic_digest_def cong: option.case_cong)

lemma fold_opt_cong: "(\<And>x h. x \<in> set xs \<Longrightarrow> f (w x) h = f x h) \<Longrightarrow> fold_opt f (map w xs) h = fold_opt f xs h"
  by (induction xs arbitrary: h) (auto split: option.splits)

lemma fold_opt_total: "(\<And>x h. x \<in> set xs \<Longrightarrow> f x h \<noteq> None) \<Longrightarrow> fold_opt f xs h \<noteq> None"
  by (induction xs arbitrary: h) (auto split: option.splits)

text \<open>One step of the hash is a bijection of its state, so differing states never merge.\<close>

lemma fnv_prime_inj: "x * 1099511628211 = y * 1099511628211 \<Longrightarrow> x = (y :: u64)"
proof -
  assume eq: "x * 1099511628211 = y * 1099511628211"
  have inv: "(1099511628211 :: u64) * 14886173955864302971 = 1" by simp
  have "x * 1099511628211 * 14886173955864302971 = y * 1099511628211 * 14886173955864302971"
    by (simp only: eq)
  then show ?thesis by (simp only: mult.assoc inv mult_1_right)
qed

lemma fnv_step_inj: "fnv_step b h = fnv_step b h' \<Longrightarrow> h = h'"
proof -
  assume eq: "fnv_step b h = fnv_step b h'"
  then have "h XOR ucast b = h' XOR ucast b" unfolding fnv_step_def by (rule fnv_prime_inj)
  then have "(h XOR ucast b) XOR ucast b = (h' XOR ucast b) XOR ucast b" by (simp only:)
  then show ?thesis by (simp only: xor.assoc xor_self_eq xor.right_neutral)
qed

lemma fnv1a_64_inj: "fnv1a_64 h bs = fnv1a_64 h' bs \<Longrightarrow> h = h'"
  unfolding fnv1a_64_def by (induction bs arbitrary: h h') (auto dest: fnv_step_inj)

lemma fnv1a_64_append: "fnv1a_64 h (as @ bs) = fnv1a_64 (fnv1a_64 h as) bs"
  by (simp add: fnv1a_64_def)

lemma fnv_step_byte: "fnv_step a h = fnv_step b h \<Longrightarrow> a = b"
proof -
  assume eq: "fnv_step a h = fnv_step b h"
  then have "h XOR ucast a = h XOR ucast b" unfolding fnv_step_def by (rule fnv_prime_inj)
  then have "h XOR (h XOR ucast a) = h XOR (h XOR ucast b)" by (simp only:)
  then have u: "(ucast a :: u64) = ucast b"
    by (simp only: xor.assoc [symmetric] xor_self_eq xor.left_neutral)
  show "a = b"
  proof (rule bit_word_eqI)
    fix n assume n: "n < LENGTH(8)"
    have "bit (ucast a :: u64) n = bit (ucast b :: u64) n" by (simp only: u)
    with n show "bit a n = bit b n" by (simp add: bit_simps)
  qed
qed

text \<open>Two inputs that differ in exactly one byte hash differently.\<close>

lemma fnv1a_64_one_byte: "a \<noteq> b \<Longrightarrow> fnv1a_64 h (pre @ a # post) \<noteq> fnv1a_64 h (pre @ b # post)"
proof
  assume ne: "a \<noteq> b" and eq: "fnv1a_64 h (pre @ a # post) = fnv1a_64 h (pre @ b # post)"
  have "fnv1a_64 (fnv_step a (fnv1a_64 h pre)) post = fnv1a_64 (fnv_step b (fnv1a_64 h pre)) post"
    using eq by (simp add: fnv1a_64_def)
  then have "fnv_step a (fnv1a_64 h pre) = fnv_step b (fnv1a_64 h pre)" by (rule fnv1a_64_inj)
  with ne show False using fnv_step_byte by blast
qed

lemma digest_defined:
  assumes "\<And>p h. p \<in> set (sn_paths s) \<Longrightarrow> digest_path p h \<noteq> None"
    and "\<And>m h. m \<in> set (sn_measurements s) \<Longrightarrow> digest_measurement m h \<noteq> None"
  shows "\<exists>d. semantic_digest s = Some d"
proof -
  have "fold_opt digest_path (sn_paths s) h \<noteq> None" "fold_opt digest_measurement (sn_measurements s) h \<noteq> None" for h
    by (rule fold_opt_total, erule assms)+
  then show ?thesis
    by (auto simp: semantic_digest_def Let_def split: option.split) (metis option.distinct(1))
qed

lemma digest_total:
  assumes "\<forall>p \<in> set (sn_paths s). pa_theoretical p = None"
    and "\<forall>m \<in> set (sn_measurements s). f64_to_u64 (throughput m) \<noteq> None"
  shows "\<exists>d. semantic_digest s = Some d"
  by (rule digest_defined) (use assms in \<open>simp_all add: digest_path_def digest_measurement_def Let_def digest_rate_def\<close>)

end
