(* ===== verification/PF_Persist.thy ===== *)
theory PF_Persist
  imports PF_Snapshot
begin

text \<open>
  Snapshot persistence, \<open>include/pciefabric/persistence.hpp\<close>: the encoders and decoders of the four
  record kinds, the whole-file codec, and saving and loading over a file store. An encoder is the
  bytes it writes; the one of \<open>Path\<close> is undefined (\<open>None\<close>) where the cast of the scaled confidence
  to a byte is.

  Each record codec is an interpretation of \<open>codec\<close> with the value the decoder rebuilds as its
  normal form, so the normal forms say exactly which fields survive.
\<close>

section \<open>Encoders\<close>

definition w_id :: "'t strong_id \<Rightarrow> bytes" where
  "w_id i = w_u64 (id_value i)"

definition w_gen :: "'t generation \<Rightarrow> bytes" where
  "w_gen g = w_u64 (gen_value g)"

definition w_flag :: "bool \<Rightarrow> bytes" where
  "w_flag b = w_u8 (if b then 1 else 0)"

definition w_id_list :: "'t strong_id list \<Rightarrow> bytes" where
  "w_id_list xs = w_u32 (of_nat (length xs)) @ concat (map w_id xs)"

definition encode_node :: "Node \<Rightarrow> bytes" where
  "encode_node n = w_string (canonical (nd_bdf n))
     @ w_u32 (ucast (DeviceClass_code (nd_kind n)))
     @ w_gen (nd_generation n)
     @ w_u8 (Provenance_code (nd_provenance n))
     @ w_flag (nd_parent n \<noteq> None)
     @ (case nd_parent n of None \<Rightarrow> [] | Some p \<Rightarrow> w_id p)
     @ w_id_list (nd_children n)
     @ w_string (nd_vendor n) @ w_string (nd_device n) @ w_string (nd_class_name n)
     @ w_string (nd_driver n)
     @ w_flag (nd_removed n)"

definition f64_255 :: f64 where
  "f64_255 = f64_lit 255 1"

definition confidence_byte :: "Confidence \<Rightarrow> u8 option" where
  "confidence_byte c = f64_to_u8 (f64_mul c f64_255)"

definition encode_path_with :: "u8 \<Rightarrow> Path \<Rightarrow> bytes" where
  "encode_path_with conf p = w_id (pa_id p) @ w_gen (pa_generation p)
     @ w_id (pa_source p) @ w_id (pa_destination p)
     @ w_u8 (PathClass_code (pa_class p))
     @ w_id_list (pa_bridge_chain p)
     @ w_id_list (pa_links p)
     @ w_u8 (LocalityClass_code (pa_locality p))
     @ w_flag (pa_theoretical p \<noteq> None)
     @ (case pa_theoretical p of None \<Rightarrow> [] | Some e \<Rightarrow>
          w_u8 (PcieGen_code (le_generation e)) @ w_u16 (le_lanes e))
     @ w_flag (pa_measured_bps p \<noteq> None)
     @ (case pa_measured_bps p of None \<Rightarrow> [] | Some b \<Rightarrow>
          w_f64 b @ w_u8 (Provenance_code (pa_measured_prov p)))
     @ w_u8 (Freshness_code (fr_state (pa_freshness p)))
     @ w_u64 (fr_age_ms (pa_freshness p))
     @ w_u8 (ContentionState_code (pa_contention p))
     @ w_f64 (pa_contention_score p)
     @ w_u8 conf
     @ w_u8 (Provenance_code (pa_structural_prov p))
     @ w_id (pa_epoch p) @ w_id (pa_boot p)"

definition encode_path :: "Path \<Rightarrow> bytes option" where
  "encode_path p = map_option (\<lambda>c. encode_path_with c p) (confidence_byte (pa_confidence p))"

definition encode_measurement :: "Measurement \<Rightarrow> bytes" where
  "encode_measurement m = w_id (ms_id m) @ w_gen (ms_generation m)
     @ w_id (ms_source m) @ w_id (ms_destination m)
     @ w_u8 (TransferClass_code (ms_transfer_class m))
     @ w_u8 (EngineKind_code (ms_engine m))
     @ w_u64 (ms_bytes m) @ w_u64 (ms_iterations m)
     @ w_u64 (ms_duration_ns m) @ w_u64 (ms_latency_ns m)
     @ w_u8 (Provenance_code (ms_provenance m))
     @ w_flag (ms_path m \<noteq> None) @ (case ms_path m of None \<Rightarrow> [] | Some p \<Rightarrow> w_id p)
     @ w_string (ms_sync_semantics m) @ w_u64 (ms_warmup_ops m) @ w_string (ms_backend_detail m)"

definition encode_reservation :: "Reservation \<Rightarrow> bytes" where
  "encode_reservation r = w_id (rs_id r) @ w_gen (rs_generation r)
     @ w_id (rs_path r) @ w_gen (rs_path_gen r)
     @ w_id (rs_worker r) @ w_id (rs_boot r) @ w_id (rs_attempt r)
     @ w_id (rs_epoch r) @ w_id (rs_policy r) @ w_gen (rs_policy_gen r)
     @ w_u64 (rs_bytes r) @ w_f64 (rs_bandwidth r) @ w_u64 (rs_duration r)
     @ w_u32 (rs_priority r) @ w_id (rs_source r) @ w_id (rs_destination r)
     @ w_string (rs_workload r) @ w_u64 (rs_created_at r)
     @ w_flag (rs_active r) @ w_flag (rs_released r)"

section \<open>Decoders\<close>

definition r_id :: "'t strong_id reader" where
  "r_id = rd_bind r_u64 (\<lambda>v. rd_return (StrongId v))"

definition r_gen :: "'t generation reader" where
  "r_gen = rd_bind r_u64 (\<lambda>v. rd_return (Generation v))"

definition r_flag :: "bool reader" where
  "r_flag = rd_bind r_u8 (\<lambda>b. rd_return (b \<noteq> 0))"

definition r_optional :: "'a reader \<Rightarrow> 'a option reader" where
  "r_optional dec = rd_bind r_flag (\<lambda>has.
     if has then rd_bind dec (\<lambda>x. rd_return (Some x)) else rd_return None)"

definition r_id_list :: "'t strong_id list reader" where
  "r_id_list = rd_bind r_u32 (\<lambda>n. rd_times (unat n) r_id)"

definition provenance_checked :: "u8 \<Rightarrow> Provenance option" where
  "provenance_checked c = (if Provenance_valid c then Some (Provenance_cast c) else None)"

definition bdf_checked :: "string \<Rightarrow> Bdf option" where
  "bdf_checked s = (case Bdf_parse s of Success b \<Rightarrow> Some b | Err _ _ \<Rightarrow> None)"

definition decode_node :: "Node reader" where
  "decode_node =
     rd_bind r_string (\<lambda>bdf. case bdf_checked bdf of
       None \<Rightarrow> rd_fail EC_INVALID_BDF ''invalid node bdf''
     | Some pb \<Rightarrow>
     rd_bind r_u32 (\<lambda>kind. rd_bind r_gen (\<lambda>gen.
     rd_check r_u8 provenance_checked EC_INVALID_ENUM ''invalid provenance'' (\<lambda>prov.
     rd_bind (r_optional r_id) (\<lambda>parent. rd_bind r_id_list (\<lambda>children.
     rd_bind r_string (\<lambda>v. rd_bind r_string (\<lambda>d. rd_bind r_string (\<lambda>cl. rd_bind r_string (\<lambda>dr.
     rd_bind r_flag (\<lambda>rem.
     rd_return (Node_default\<lparr>nd_bdf := pb, nd_kind := DeviceClass_cast (ucast kind),
       nd_generation := gen, nd_provenance := prov, nd_parent := parent, nd_children := children,
       nd_vendor := v, nd_device := d, nd_class_name := cl, nd_driver := dr,
       nd_removed := rem\<rparr>))))))))))))"

definition r_envelope :: "LinkEnvelope reader" where
  "r_envelope = rd_bind r_u8 (\<lambda>g. rd_bind r_u16 (\<lambda>l. rd_return (LinkEnvelope_new (PcieGen_cast g) l)))"

definition r_measured :: "(BytesPerSecond \<times> Provenance) reader" where
  "r_measured = rd_bind r_f64 (\<lambda>b. rd_bind r_u8 (\<lambda>p. rd_return (b, Provenance_cast p)))"

definition confidence_of_byte :: "u8 \<Rightarrow> Confidence" where
  "confidence_of_byte c = f64_div (f64_of_nat (unat c)) f64_255"

definition decode_path :: "Path reader" where
  "decode_path =
     rd_bind r_id (\<lambda>i. rd_bind r_gen (\<lambda>gen. rd_bind r_id (\<lambda>src. rd_bind r_id (\<lambda>dst.
     rd_check r_u8 PathClass_decode EC_INVALID_ENUM ''invalid path class'' (\<lambda>cl.
     rd_bind r_id_list (\<lambda>chain. rd_bind r_id_list (\<lambda>links.
     rd_check r_u8 LocalityClass_decode EC_INVALID_ENUM ''invalid locality'' (\<lambda>loc.
     rd_bind (r_optional r_envelope) (\<lambda>th. rd_bind (r_optional r_measured) (\<lambda>me.
     rd_check r_u8 Freshness_decode EC_INVALID_ENUM ''invalid freshness'' (\<lambda>f.
     rd_bind r_u64 (\<lambda>age.
     rd_check r_u8 ContentionState_decode EC_INVALID_ENUM ''invalid contention'' (\<lambda>cont.
     rd_bind r_f64 (\<lambda>cs. rd_bind r_u8 (\<lambda>conf. rd_bind r_u8 (\<lambda>sp.
     rd_bind r_id (\<lambda>ep. rd_bind r_id (\<lambda>boot.
     rd_return (pa_set_authority ep boot (Generation 1) gen (Generation 1)
       ((pa_set_endpoints src dst (Path_new i gen))
         \<lparr>pa_class := cl, pa_bridge_chain := chain, pa_links := links, pa_locality := loc,
          pa_theoretical := th, pa_measured_bps := map_option fst me,
          pa_measured_prov := (case me of None \<Rightarrow> Prov_UNKNOWN | Some (_, q) \<Rightarrow> q),
          pa_freshness := FreshnessRecord_new f age, pa_contention := cont,
          pa_contention_score := cs, pa_confidence := confidence_of_byte conf,
          pa_structural_prov := Provenance_cast sp\<rparr>))))))))))))))))))))"

definition decode_measurement :: "Measurement reader" where
  "decode_measurement =
     rd_bind r_id (\<lambda>i. rd_bind r_gen (\<lambda>gen. rd_bind r_id (\<lambda>src. rd_bind r_id (\<lambda>dst.
     rd_check r_u8 TransferClass_decode EC_INVALID_ENUM ''invalid transfer class'' (\<lambda>tc.
     rd_check r_u8 EngineKind_decode EC_INVALID_ENUM ''invalid engine'' (\<lambda>eng.
     rd_bind r_u64 (\<lambda>bytes. rd_bind r_u64 (\<lambda>iters. rd_bind r_u64 (\<lambda>dur. rd_bind r_u64 (\<lambda>lat.
     rd_check r_u8 provenance_checked EC_INVALID_ENUM ''invalid provenance'' (\<lambda>prov.
     rd_bind (r_optional r_id) (\<lambda>pid.
     rd_bind r_string (\<lambda>ss. rd_bind r_u64 (\<lambda>wo. rd_bind r_string (\<lambda>bd.
     rd_return ((case pid of None \<Rightarrow> (\<lambda>m. m) | Some p \<Rightarrow> ms_set_path p (Generation 1))
       ((Measurement_new i gen src dst tc eng bytes iters dur prov)
         \<lparr>ms_latency_ns := lat, ms_sync_semantics := ss, ms_warmup_ops := wo,
          ms_backend_detail := bd\<rparr>)))))))))))))))))"

definition decode_reservation :: "Reservation reader" where
  "decode_reservation =
     rd_bind r_id (\<lambda>i. rd_bind r_gen (\<lambda>gen. rd_bind r_id (\<lambda>path. rd_bind r_gen (\<lambda>pgen.
     rd_bind r_id (\<lambda>w. rd_bind r_id (\<lambda>boot. rd_bind r_id (\<lambda>att. rd_bind r_id (\<lambda>ep.
     rd_bind r_id (\<lambda>pol. rd_bind r_gen (\<lambda>pgen2.
     rd_bind r_u64 (\<lambda>bytes. rd_bind r_f64 (\<lambda>bw. rd_bind r_u64 (\<lambda>dur. rd_bind r_u32 (\<lambda>prio.
     rd_bind r_id (\<lambda>src. rd_bind r_id (\<lambda>dst. rd_bind r_string (\<lambda>wk. rd_bind r_u64 (\<lambda>created.
     rd_bind r_flag (\<lambda>act. rd_bind r_flag (\<lambda>rel.
     rd_return ((if act then rs_mark_active else rs_mark_released)
       (rs_set_request bytes bw dur prio src dst wk
         (rs_set_authority w boot att ep pol pgen2
           (rs_set_path path pgen (Reservation_new i gen)))))))))))))))))))))))))"

section \<open>The whole file\<close>

fun concat_opt :: "bytes option list \<Rightarrow> bytes option" where
  "concat_opt [] = Some []"
| "concat_opt (None # xs) = None"
| "concat_opt (Some b # xs) = map_option (\<lambda>bs. b @ bs) (concat_opt xs)"

definition stream_magic :: string where
  "stream_magic = ''PCIEFABRIC''"

definition serialize :: "Snapshot \<Rightarrow> bytes option" where
  "serialize s = map_option (\<lambda>paths.
     w_string stream_magic
     @ w_u64 (sn_sequence s) @ w_id (sn_epoch s)
     @ w_count (length (sn_nodes s)) @ concat (map encode_node (sn_nodes s))
     @ w_count (length (sn_paths s)) @ paths
     @ w_count (length (sn_measurements s)) @ concat (map encode_measurement (sn_measurements s))
     @ w_count (length (sn_reservations s)) @ concat (map encode_reservation (sn_reservations s))
     @ w_count (length (sn_policies s)) @ concat (map w_id (sn_policies s)))
     (concat_opt (map encode_path (sn_paths s)))"

definition r_counted_unique :: "'a reader \<Rightarrow> ('a \<Rightarrow> 'k) \<Rightarrow> string \<Rightarrow> 'a list reader" where
  "r_counted_unique dec key msg = rd_bind r_count (\<lambda>n. rd_times_unique (unat n) dec key msg [])"

definition stream_body :: "Snapshot reader" where
  "stream_body =
     rd_bind r_string (\<lambda>magic.
     if magic \<noteq> stream_magic then rd_fail EC_PROTOCOL_MALFORMED ''bad stream magic'' else
     rd_bind r_u64 (\<lambda>seq. rd_bind r_id (\<lambda>ep.
     rd_bind (r_counted_unique decode_node nd_id ''duplicate node id'') (\<lambda>ns.
     rd_bind (r_counted_unique decode_path pa_id ''duplicate path id'') (\<lambda>ps.
     rd_bind (r_counted_unique decode_measurement ms_id ''duplicate measurement id'') (\<lambda>ms.
     rd_bind (r_counted_unique decode_reservation rs_id ''duplicate reservation id'') (\<lambda>rs.
     rd_bind (rd_bind r_count (\<lambda>n. rd_times (unat n) r_id)) (\<lambda>pols.
     rd_bind rd_require_end (\<lambda>_.
     rd_return (Snapshot_default\<lparr>sn_sequence := seq, sn_epoch := ep, sn_nodes := ns, sn_paths := ps,
       sn_measurements := ms, sn_reservations := rs, sn_policies := pols\<rparr>))))))))))"

definition deserialize :: "bytes \<Rightarrow> Snapshot outcome" where
  "deserialize body = (case rd_run stream_body body of
      Done s \<Rightarrow> (case semantic_digest s of None \<Rightarrow> Undef | Some d \<Rightarrow> Done (s\<lparr>sn_digest := d\<rparr>))
    | Fail c m \<Rightarrow> Fail c m | Undef \<Rightarrow> Undef)"

section \<open>Saving and loading\<close>

text \<open>
  A file store maps names to contents. The operating system decides which of the calls of \<open>save\<close>
  fail, and how much of a failed write reaches the file; \<open>save_faults\<close> is its choice.
  (\<open>exists\<close>, whose overload here throws where the status of a file cannot be read, is taken to answer.)
\<close>

type_synonym disk = "string \<Rightarrow> bytes option"

record save_faults =
  sf_open :: bool
  sf_write :: "nat option"
  sf_remove :: bool
  sf_rename :: bool

definition file_magic :: bytes where
  "file_magic = string_bytes ''PCIF''"

definition file_version :: u32 where
  "file_version = 1"

definition file_bytes :: "bytes \<Rightarrow> bytes" where
  "file_bytes body = file_magic @ w_u32 file_version @ w_u64 (of_nat (length body)) @ w_u32 (crc32 body) @ body"

definition tmp_name :: "string \<Rightarrow> string" where
  "tmp_name path = path @ ''.tmp''"

definition io_err :: "string \<Rightarrow> 'a Result" where
  "io_err m = Err EC_IO_ERROR m"

definition save_file :: "save_faults \<Rightarrow> string \<Rightarrow> bytes \<Rightarrow> disk \<Rightarrow> unit Result \<times> disk" where
  "save_file f path data d =
     (if sf_open f then (io_err ''cannot open temp file'', d)
      else case sf_write f of
        Some k \<Rightarrow> (io_err ''write failed'', d(tmp_name path \<mapsto> take k data))
      | None \<Rightarrow>
        let d1 = d(tmp_name path \<mapsto> data) in
        if d1 path \<noteq> None \<and> sf_remove f then (io_err ''cannot remove old file'', d1)
        else let d2 = (if d1 path \<noteq> None then d1(path := None) else d1) in
        if sf_rename f then (io_err ''rename failed'', d2)
        else (Success (), d2(path := d2 (tmp_name path), tmp_name path := None)))"

definition save :: "save_faults \<Rightarrow> string \<Rightarrow> Snapshot \<Rightarrow> disk \<Rightarrow> (unit Result \<times> disk) option" where
  "save f path s d = map_option (\<lambda>body. save_file f path (file_bytes body) d) (serialize s)"

definition load_body :: "bytes \<Rightarrow> bytes reader" where
  "load_body data =
     rd_bind (rd_times 4 r_u8) (\<lambda>mg.
     if mg \<noteq> file_magic then rd_fail EC_PROTOCOL_MALFORMED ''bad file magic'' else
     rd_bind r_u32 (\<lambda>ver.
     if ver \<noteq> file_version then rd_fail EC_PROTOCOL_VERSION ''unsupported version'' else
     rd_bind r_u64 (\<lambda>len.
     if unat len > length data then rd_fail EC_PROTOCOL_OVERFLOW ''length out of bounds'' else
     rd_bind r_u32 (\<lambda>crc.
     if crc32 (drop (length data - unat len) data) \<noteq> crc
     then rd_fail EC_PROTOCOL_CHECKSUM ''crc mismatch''
     else rd_return (drop (length data - unat len) data)))))"

definition load :: "string \<Rightarrow> disk \<Rightarrow> Snapshot outcome" where
  "load path d = (case d path of
      None \<Rightarrow> Fail EC_IO_ERROR ''cannot open file''
    | Some data \<Rightarrow>
      if length data < 16 then Fail EC_TRUNCATED ''file too small''
      else case rd_run (load_body data) data of
        Done body \<Rightarrow> deserialize body | Fail c m \<Rightarrow> Fail c m | Undef \<Rightarrow> Undef)"

definition revalidate_path :: "Path \<Rightarrow> Path" where
  "revalidate_path p = (if fr_state (pa_freshness p) \<noteq> Fresh_INVALID
     then p\<lparr>pa_freshness := FreshnessRecord_new Fresh_REVALIDATION_REQUIRED (fr_age_ms (pa_freshness p))\<rparr>
     else p)"

definition mark_physical_revalidation_required :: "Snapshot \<Rightarrow> Snapshot" where
  "mark_physical_revalidation_required s = s\<lparr>sn_paths := map revalidate_path (sn_paths s)\<rparr>"

section \<open>Round trips of the pieces\<close>

lemma w_id_length [simp]: "length (w_id i) = 8" "length (w_gen g) = 8" "length (w_flag b) = 1"
  by (simp_all add: w_id_def w_gen_def w_flag_def)

lemma r_piece_write [rd_simps, simp]:
  "r_id (Rd p (w_id i @ bs)) = Done (i, Rd (p + 8) bs)"
  "r_gen (Rd p (w_gen g @ bs)) = Done (g, Rd (p + 8) bs)"
  "r_flag (Rd p (w_flag b @ bs)) = Done (b, Rd (p + 1) bs)"
  by (simp_all add: r_id_def w_id_def r_gen_def w_gen_def r_flag_def w_flag_def rd_bind_def)

lemma concat_w_id_length [simp]: "length (concat (map w_id xs)) = 8 * length xs"
  by (induction xs) simp_all

interpretation idc: codec w_id r_id "\<lambda>_ _. True" "\<lambda>x. x"
  by unfold_locales simp

lemma id_list_fits [simp]: "idc.list_fits xs p"
  by (induction xs arbitrary: p) simp_all

lemma r_ids_write [rd_simps, simp]:
  "length xs = n \<Longrightarrow> rd_times n r_id (Rd p (concat (map w_id xs) @ bs)) = Done (xs, Rd (p + 8 * n) bs)"
  using idc.times_enc [of xs p bs] by auto

lemma r_id_list_write [rd_simps, simp]:
  "length xs < 2 ^ 32 \<Longrightarrow> r_id_list (Rd p (w_id_list xs @ bs)) = Done (xs, Rd (p + 4 + 8 * length xs) bs)"
  by (simp add: r_id_list_def w_id_list_def rd_bind_def unat_of_nat take_bit_nat_eq_self)

lemma w_id_list_length [simp]: "length (w_id_list xs) = 4 + 8 * length xs"
  by (simp add: w_id_list_def)

lemma r_optional_write [rd_simps, simp]:
  "r_optional dec (Rd p (w_flag False @ bs)) = Done (None, Rd (p + 1) bs)"
  "dec (Rd (p + 1) bs) = Done (x, r) \<Longrightarrow> r_optional dec (Rd p (w_flag True @ bs)) = Done (Some x, r)"
  by (simp_all add: r_optional_def rd_bind_def)

lemma r_string_small [rd_simps, simp]:
  "length s \<le> 65536 \<Longrightarrow> p + 4 + length s \<le> 262144 \<Longrightarrow>
   r_string (Rd p (w_string s @ bs)) = Done (s, Rd (p + 4 + length s) bs)"
  by (intro r_string_write string_fits_small)

lemma canonical_length [simp]: "length (canonical b) = 12"
  by (simp add: canonical_def fmt_canonical_def fmt_bdf_def Let_def)

section \<open>Nodes\<close>

definition norm_node :: "Node \<Rightarrow> Node" where
  "norm_node n = Node_default\<lparr>nd_bdf := nd_bdf n, nd_kind := DeviceClass_cast (DeviceClass_code (nd_kind n)),
     nd_generation := nd_generation n,
     nd_provenance := Provenance_cast (Provenance_code (nd_provenance n)),
     nd_parent := nd_parent n, nd_children := nd_children n, nd_vendor := nd_vendor n,
     nd_device := nd_device n, nd_class_name := nd_class_name n, nd_driver := nd_driver n,
     nd_removed := nd_removed n\<rparr>"

definition node_short :: "Node \<Rightarrow> bool" where
  "node_short n = (Bdf_valid (nd_bdf n) \<and> Provenance_valid (Provenance_code (nd_provenance n)) \<and>
     length (nd_children n) < 2 ^ 32 \<and>
     length (nd_vendor n) \<le> 65536 \<and> length (nd_device n) \<le> 65536 \<and>
     length (nd_class_name n) \<le> 65536 \<and> length (nd_driver n) \<le> 65536)"

lemma encode_node_length:
  "length (encode_node n) = 16 + 4 + 8 + 1 + 1 + (if nd_parent n = None then 0 else 8)
     + (4 + 8 * length (nd_children n))
     + (4 + length (nd_vendor n)) + (4 + length (nd_device n))
     + (4 + length (nd_class_name n)) + (4 + length (nd_driver n)) + 1"
  by (auto simp: encode_node_def split: option.split)

lemma ucast_u8_u32 [simp]: "(ucast (ucast (c :: u8) :: u32) :: u8) = c"
  by (rule bit_word_eqI) (simp add: bit_simps)

definition node_fits :: "Node \<Rightarrow> nat \<Rightarrow> bool" where
  "node_fits n p = (node_short n \<and> p + length (encode_node n) \<le> 262144)"

lemma decode_node_encode:
  assumes "node_fits n p"
  shows "decode_node (Rd p (encode_node n @ bs)) = Done (norm_node n, Rd (p + length (encode_node n)) bs)"
proof -
  have small: "p + (16 + 4 + 8 + 1 + 1 + (if nd_parent n = None then 0 else 8)
     + (4 + 8 * length (nd_children n))
     + (4 + length (nd_vendor n)) + (4 + length (nd_device n))
     + (4 + length (nd_class_name n)) + (4 + length (nd_driver n)) + 1) \<le> 262144"
    using assms unfolding node_fits_def encode_node_length by blast
  have short: "node_short n" using assms by (simp add: node_fits_def)
  have bdf: "bdf_checked (canonical (nd_bdf n)) = Some (nd_bdf n)"
    using short by (simp add: bdf_checked_def parse_canonical node_short_def)
  have prov: "provenance_checked (Provenance_code (nd_provenance n)) =
      Some (Provenance_cast (Provenance_code (nd_provenance n)))"
    using short by (simp add: provenance_checked_def node_short_def)
  show ?thesis
    unfolding encode_node_length
    using short small
    by (cases "nd_parent n")
       (simp_all add: decode_node_def encode_node_def rd_bind_def rd_check_def bdf prov norm_node_def node_short_def)
qed

interpretation nodec: codec encode_node decode_node node_fits norm_node
  by unfold_locales (rule decode_node_encode)

section \<open>Paths\<close>

definition norm_envelope :: "LinkEnvelope \<Rightarrow> LinkEnvelope" where
  "norm_envelope e = LinkEnvelope_new (PcieGen_cast (PcieGen_code (le_generation e))) (le_lanes e)"

definition norm_path_with :: "u8 \<Rightarrow> Path \<Rightarrow> Path" where
  "norm_path_with conf p = pa_set_authority (pa_epoch p) (pa_boot p) (Generation 1) (pa_generation p) (Generation 1)
     ((pa_set_endpoints (pa_source p) (pa_destination p) (Path_new (pa_id p) (pa_generation p)))
       \<lparr>pa_class := pa_class p, pa_bridge_chain := pa_bridge_chain p, pa_links := pa_links p,
        pa_locality := pa_locality p, pa_theoretical := map_option norm_envelope (pa_theoretical p),
        pa_measured_bps := pa_measured_bps p,
        pa_measured_prov := (if pa_measured_bps p = None then Prov_UNKNOWN
          else Provenance_cast (Provenance_code (pa_measured_prov p))),
        pa_freshness := pa_freshness p, pa_contention := pa_contention p,
        pa_contention_score := pa_contention_score p, pa_confidence := confidence_of_byte conf,
        pa_structural_prov := Provenance_cast (Provenance_code (pa_structural_prov p))\<rparr>)"

definition path_short :: "Path \<Rightarrow> bool" where
  "path_short p = (length (pa_bridge_chain p) < 2 ^ 32 \<and> length (pa_links p) < 2 ^ 32)"

lemma encode_path_length:
  "length (encode_path_with c p) = 16 + 16 + 1 + (4 + 8 * length (pa_bridge_chain p))
     + (4 + 8 * length (pa_links p)) + 1
     + (1 + (if pa_theoretical p = None then 0 else 3)) + (1 + (if pa_measured_bps p = None then 0 else 9))
     + 1 + 8 + 1 + 8 + 1 + 1 + 16"
  by (auto simp: encode_path_with_def split: option.split)

lemma r_envelope_write [simp]:
  "r_envelope (Rd p (w_u8 g @ w_u16 l @ bs)) = Done (LinkEnvelope_new (PcieGen_cast g) l, Rd (p + 3) bs)"
  by (simp add: r_envelope_def rd_bind_def)

lemma r_measured_write [simp]:
  "r_measured (Rd p (w_f64 b @ w_u8 q @ bs)) = Done ((b, Provenance_cast q), Rd (p + 9) bs)"
  by (simp add: r_measured_def rd_bind_def)

lemma FreshnessRecord_new_fields [simp]: "FreshnessRecord_new (fr_state f) (fr_age_ms f) = f"
  by (simp add: FreshnessRecord_new_def)

lemma decode_path_encode:
  assumes "path_short p"
  shows "decode_path (Rd q (encode_path_with c p @ bs)) =
    Done (norm_path_with c p, Rd (q + length (encode_path_with c p)) bs)"
  unfolding encode_path_length
  using assms
  by (cases "pa_theoretical p"; cases "pa_measured_bps p")
     (simp_all add: decode_path_def encode_path_with_def rd_bind_def rd_check_def norm_path_with_def
       path_short_def norm_envelope_def)

text \<open>The encoder and the normal form of the paths whose confidence the cast accepts.\<close>

definition path_bytes :: "Path \<Rightarrow> bytes" where
  "path_bytes p = (case encode_path p of None \<Rightarrow> [] | Some b \<Rightarrow> b)"

definition norm_path :: "Path \<Rightarrow> Path" where
  "norm_path p = (case confidence_byte (pa_confidence p) of None \<Rightarrow> p | Some c \<Rightarrow> norm_path_with c p)"

definition path_fits :: "Path \<Rightarrow> nat \<Rightarrow> bool" where
  "path_fits p q = (path_short p \<and> confidence_byte (pa_confidence p) \<noteq> None)"

interpretation pathc: codec path_bytes decode_path path_fits norm_path
  by unfold_locales (auto simp: path_fits_def path_bytes_def norm_path_def encode_path_def decode_path_encode)

lemma concat_opt_paths:
  "(\<forall>p \<in> set ps. confidence_byte (pa_confidence p) \<noteq> None) \<Longrightarrow>
   concat_opt (map encode_path ps) = Some (concat (map path_bytes ps))"
  by (induction ps) (auto simp: encode_path_def path_bytes_def)

section \<open>Measurements\<close>

definition norm_measurement :: "Measurement \<Rightarrow> Measurement" where
  "norm_measurement m = m\<lparr>ms_provenance := Provenance_cast (Provenance_code (ms_provenance m)),
     ms_path_generation := (if ms_path m = None then None else Some (Generation 1)),
     ms_start := 0, ms_end := 0\<rparr>"

definition measurement_short :: "Measurement \<Rightarrow> bool" where
  "measurement_short m = (Provenance_valid (Provenance_code (ms_provenance m)) \<and>
     length (ms_sync_semantics m) \<le> 65536 \<and> length (ms_backend_detail m) \<le> 65536)"

definition measurement_fits :: "Measurement \<Rightarrow> nat \<Rightarrow> bool" where
  "measurement_fits m p = (measurement_short m \<and> p + length (encode_measurement m) \<le> 262144)"

lemma encode_measurement_length:
  "length (encode_measurement m) = 16 + 16 + 2 + 32 + 1 + (1 + (if ms_path m = None then 0 else 8))
     + (4 + length (ms_sync_semantics m)) + 8 + (4 + length (ms_backend_detail m))"
  by (auto simp: encode_measurement_def split: option.split)

lemma decode_measurement_encode:
  assumes "measurement_fits m p"
  shows "decode_measurement (Rd p (encode_measurement m @ bs)) =
    Done (norm_measurement m, Rd (p + length (encode_measurement m)) bs)"
proof -
  have small: "p + (16 + 16 + 2 + 32 + 1 + (1 + (if ms_path m = None then 0 else 8))
     + (4 + length (ms_sync_semantics m)) + 8 + (4 + length (ms_backend_detail m))) \<le> 262144"
    using assms unfolding measurement_fits_def encode_measurement_length by blast
  have prov: "provenance_checked (Provenance_code (ms_provenance m)) =
      Some (Provenance_cast (Provenance_code (ms_provenance m)))"
    using assms by (simp add: provenance_checked_def measurement_fits_def measurement_short_def)
  have short: "length (ms_sync_semantics m) \<le> 65536" "length (ms_backend_detail m) \<le> 65536"
    using assms by (simp_all add: measurement_fits_def measurement_short_def)
  show ?thesis
    unfolding encode_measurement_length
    using short small
    by (cases "ms_path m")
       (simp_all add: decode_measurement_def encode_measurement_def rd_bind_def rd_check_def prov
         norm_measurement_def Measurement_new_def ms_set_path_def)
qed

interpretation measc: codec encode_measurement decode_measurement measurement_fits norm_measurement
  by unfold_locales (rule decode_measurement_encode)

section \<open>Reservations\<close>

definition norm_reservation :: "Reservation \<Rightarrow> Reservation" where
  "norm_reservation r = (if rs_active r then rs_mark_active else rs_mark_released) (r\<lparr>rs_created_at := 0\<rparr>)"

definition reservation_fits :: "Reservation \<Rightarrow> nat \<Rightarrow> bool" where
  "reservation_fits r p = (length (rs_workload r) \<le> 65536 \<and> p + length (encode_reservation r) \<le> 262144)"

lemma encode_reservation_length:
  "length (encode_reservation r) = 80 + 24 + 4 + 16 + (4 + length (rs_workload r)) + 8 + 2"
  by (simp add: encode_reservation_def)

lemma decode_reservation_encode:
  assumes "reservation_fits r p"
  shows "decode_reservation (Rd p (encode_reservation r @ bs)) =
    Done (norm_reservation r, Rd (p + length (encode_reservation r)) bs)"
proof -
  have small: "p + (80 + 24 + 4 + 16 + (4 + length (rs_workload r)) + 8 + 2) \<le> 262144"
    and short: "length (rs_workload r) \<le> 65536"
    using assms unfolding reservation_fits_def encode_reservation_length by auto
  show ?thesis
    unfolding encode_reservation_length
    using short small
    by (simp add: decode_reservation_def encode_reservation_def rd_bind_def norm_reservation_def
        rs_set_request_def rs_set_authority_def rs_set_path_def Reservation_new_def rs_mark_active_def
        rs_mark_released_def)
qed

interpretation resc: codec encode_reservation decode_reservation reservation_fits norm_reservation
  by unfold_locales (rule decode_reservation_encode)

section \<open>Counted lists\<close>

lemma r_count_write [rd_simps]:
  "n \<le> 16777216 \<Longrightarrow> r_count (Rd p (w_count n @ bs)) = Done (of_nat n, Rd (p + 4) bs)"
proof -
  assume n: "n \<le> 16777216"
  then have "unat (of_nat n :: u32) = n" by (simp add: unat_of_nat take_bit_nat_eq_self)
  then have "\<not> of_nat n > max_count" using n by (simp only: word_less_nat_alt) (simp add: max_count_def)
  then show ?thesis by (simp add: r_count_def w_count_def rd_bind_def)
qed

lemma w_count_length [simp]: "length (w_count n) = 4"
  by (simp add: w_count_def)

context codec
begin

lemma list_fits_bound:
  "(\<And>x p. x \<in> set xs \<Longrightarrow> p + length (enc x) \<le> L \<Longrightarrow> fits x p) \<Longrightarrow>
   p + length (concat (map enc xs)) \<le> L \<Longrightarrow> list_fits xs p"
proof (induction xs arbitrary: p)
  case (Cons x xs)
  then show ?case by simp
qed simp

lemma counted_unique_enc:
  assumes "list_fits xs (p + 4)" and "length xs \<le> 16777216" and "distinct (map (\<lambda>x. key (norm x)) xs)"
  shows "r_counted_unique dec key msg (Rd p (w_count (length xs) @ concat (map enc xs) @ bs)) =
    Done (map norm xs, Rd (p + 4 + length (concat (map enc xs))) bs)"
  using times_unique_enc [OF assms(1,3), of "[]" msg bs] assms(2)
  by (simp add: r_counted_unique_def rd_bind_def r_count_write unat_of_nat take_bit_nat_eq_self)

lemma counted_unique_dup:
  assumes "list_fits xs (p + 4)" and "length xs \<le> 16777216" and "\<not> distinct (map (\<lambda>x. key (norm x)) xs)"
  shows "r_counted_unique dec key msg (Rd p (w_count (length xs) @ concat (map enc xs) @ bs)) =
    Fail EC_DUPLICATE_IDENTITY msg"
  using times_unique_dup [OF assms(1), of key "[]" msg bs] assms(2,3)
  by (simp add: r_counted_unique_def rd_bind_def r_count_write unat_of_nat take_bit_nat_eq_self)

end

section \<open>The whole stream\<close>

definition snapshot_short :: "Snapshot \<Rightarrow> bool" where
  "snapshot_short s = (list_all node_short (sn_nodes s) \<and>
     list_all (\<lambda>p. path_short p \<and> confidence_byte (pa_confidence p) \<noteq> None) (sn_paths s) \<and>
     list_all measurement_short (sn_measurements s) \<and>
     list_all (\<lambda>r. length (rs_workload r) \<le> 65536) (sn_reservations s))"

definition norm_snapshot :: "Snapshot \<Rightarrow> Snapshot" where
  "norm_snapshot s = Snapshot_default\<lparr>sn_sequence := sn_sequence s, sn_epoch := sn_epoch s,
     sn_nodes := map norm_node (sn_nodes s), sn_paths := map norm_path (sn_paths s),
     sn_measurements := map norm_measurement (sn_measurements s),
     sn_reservations := map norm_reservation (sn_reservations s), sn_policies := sn_policies s\<rparr>"

definition stream_bytes :: "Snapshot \<Rightarrow> bytes" where
  "stream_bytes s = w_string stream_magic @ w_u64 (sn_sequence s) @ w_id (sn_epoch s)
     @ w_count (length (sn_nodes s)) @ concat (map encode_node (sn_nodes s))
     @ w_count (length (sn_paths s)) @ concat (map path_bytes (sn_paths s))
     @ w_count (length (sn_measurements s)) @ concat (map encode_measurement (sn_measurements s))
     @ w_count (length (sn_reservations s)) @ concat (map encode_reservation (sn_reservations s))
     @ w_count (length (sn_policies s)) @ concat (map w_id (sn_policies s))"

lemma serialize_bytes: "snapshot_short s \<Longrightarrow> serialize s = Some (stream_bytes s)"
  by (simp add: serialize_def stream_bytes_def snapshot_short_def list_all_iff concat_opt_paths)

lemma norm_keys [simp]:
  "nd_id (norm_node n) = StrongId 0" "ms_id (norm_measurement m) = ms_id m"
  "rs_id (norm_reservation r) = rs_id r" "pa_id (norm_path p) = pa_id p"
  by (auto simp: norm_node_def Node_default_def norm_measurement_def norm_reservation_def
      rs_mark_active_def rs_mark_released_def norm_path_def norm_path_with_def pa_set_authority_def
      pa_set_endpoints_def Path_new_def split: option.split)

lemma stream_magic_length [simp]: "length stream_magic = 10"
  by (simp add: stream_magic_def)

lemma concat_length_ge: "(\<And>x. x \<in> set xs \<Longrightarrow> k \<le> length (f x)) \<Longrightarrow> k * length xs \<le> length (concat (map f xs))"
  by (induction xs) force+

lemma path_bytes_length: "confidence_byte (pa_confidence p) \<noteq> None \<Longrightarrow> 1 \<le> length (path_bytes p)"
  by (auto simp: path_bytes_def encode_path_def encode_path_length)

text \<open>
  A stream of at most 256 KiB whose strings are at most 64 KiB long is within every limit of the
  reader: its counts, and the position tests of its strings.
\<close>

lemma stream_counts:
  assumes short: "snapshot_short s" and len: "length (stream_bytes s) \<le> 262144"
  shows "length (sn_nodes s) \<le> 16777216" "length (sn_paths s) \<le> 16777216"
    "length (sn_measurements s) \<le> 16777216" "length (sn_reservations s) \<le> 16777216"
    "length (sn_policies s) \<le> 16777216"
proof -
  have "1 * length (sn_nodes s) \<le> length (concat (map encode_node (sn_nodes s)))"
    by (rule concat_length_ge) (simp add: encode_node_length)
  moreover have "1 * length (sn_paths s) \<le> length (concat (map path_bytes (sn_paths s)))"
    using short by (intro concat_length_ge path_bytes_length) (auto simp: snapshot_short_def list_all_iff)
  moreover have "1 * length (sn_measurements s) \<le> length (concat (map encode_measurement (sn_measurements s)))"
    by (rule concat_length_ge) (simp add: encode_measurement_length)
  moreover have "1 * length (sn_reservations s) \<le> length (concat (map encode_reservation (sn_reservations s)))"
    by (rule concat_length_ge) (simp add: encode_reservation_length)
  ultimately show "length (sn_nodes s) \<le> 16777216" "length (sn_paths s) \<le> 16777216"
    "length (sn_measurements s) \<le> 16777216" "length (sn_reservations s) \<le> 16777216"
    "length (sn_policies s) \<le> 16777216"
    using len by (simp_all add: stream_bytes_def)
qed

lemma stream_fits:
  assumes short: "snapshot_short s" and len: "length (stream_bytes s) \<le> 262144"
  defines "a \<equiv> 34 + length (concat (map encode_node (sn_nodes s)))"
  defines "b \<equiv> a + 4 + length (concat (map path_bytes (sn_paths s)))"
  defines "c \<equiv> b + 4 + length (concat (map encode_measurement (sn_measurements s)))"
  shows "nodec.list_fits (sn_nodes s) 34" "pathc.list_fits (sn_paths s) (a + 4)"
    "measc.list_fits (sn_measurements s) (b + 4)" "resc.list_fits (sn_reservations s) (c + 4)"
proof -
  have total: "c + 4 + length (concat (map encode_reservation (sn_reservations s))) \<le> 262144"
    using len by (simp add: stream_bytes_def a_def b_def c_def)
  show "nodec.list_fits (sn_nodes s) 34"
    using short total by (intro nodec.list_fits_bound [of _ 262144])
      (auto simp: node_fits_def snapshot_short_def list_all_iff a_def b_def c_def)
  show "pathc.list_fits (sn_paths s) (a + 4)"
    using short total by (intro pathc.list_fits_bound [of _ 262144])
      (auto simp: path_fits_def snapshot_short_def list_all_iff b_def c_def)
  show "measc.list_fits (sn_measurements s) (b + 4)"
    using short total by (intro measc.list_fits_bound [of _ 262144])
      (auto simp: measurement_fits_def snapshot_short_def list_all_iff c_def)
  show "resc.list_fits (sn_reservations s) (c + 4)"
    using short total by (intro resc.list_fits_bound [of _ 262144])
      (auto simp: reservation_fits_def snapshot_short_def list_all_iff)
qed

definition unique_ids :: "Snapshot \<Rightarrow> bool" where
  "unique_ids s = (distinct (map pa_id (sn_paths s)) \<and> distinct (map ms_id (sn_measurements s)) \<and>
     distinct (map rs_id (sn_reservations s)))"

lemma r_policies_write:
  "length ps \<le> 16777216 \<Longrightarrow> rd_bind r_count (\<lambda>n. rd_times (unat n) r_id)
     (Rd p (w_count (length ps) @ concat (map w_id ps))) = Done (ps, Rd (p + 4 + 8 * length ps) [])"
  using r_ids_write [of ps "length ps" "p + 4" "[]"]
  by (simp add: rd_bind_def r_count_write unat_of_nat take_bit_nat_eq_self)

lemma r_stream_magic: "r_string (Rd 0 (w_string stream_magic @ bs)) = Done (stream_magic, Rd 14 bs)"
  using r_string_small [of stream_magic 0 bs] by simp

lemma distinct_const: "distinct (map (\<lambda>x. c) xs) \<longleftrightarrow> length xs \<le> 1"
  by (cases xs rule: list.exhaust; cases "tl xs") auto

lemma stream_body_read:
  assumes short: "snapshot_short s" and len: "length (stream_bytes s) \<le> 262144"
    and ids: "unique_ids s" and nodes: "length (sn_nodes s) \<le> 1"
  shows "\<exists>r. stream_body (Rd 0 (stream_bytes s)) = Done (norm_snapshot s, r)"
proof -
  note fits = stream_fits [OF short len] and counts = stream_counts [OF short len]
  have n: "distinct (map (\<lambda>x. nd_id (norm_node x)) (sn_nodes s))"
    using nodes by (simp add: distinct_const)
  note rN = nodec.counted_unique_enc [OF _ counts(1) n, of 30]
  note rP = pathc.counted_unique_enc [OF _ counts(2), where key = pa_id]
  note rM = measc.counted_unique_enc [OF _ counts(3), where key = ms_id]
  note rR = resc.counted_unique_enc [OF _ counts(4), where key = rs_id]
  show ?thesis
    using ids fits unfolding stream_body_def stream_bytes_def unique_ids_def
    by (simp add: rd_bind_def r_stream_magic rN rP rM rR r_policies_write [OF counts(5), unfolded rd_bind_def]
        norm_snapshot_def)
qed

lemma stream_body_dup:
  assumes short: "snapshot_short s" and len: "length (stream_bytes s) \<le> 262144"
    and nodes: "2 \<le> length (sn_nodes s)"
  shows "stream_body (Rd 0 (stream_bytes s)) = Fail EC_DUPLICATE_IDENTITY ''duplicate node id''"
proof -
  note fits = stream_fits [OF short len] and counts = stream_counts [OF short len]
  have n: "\<not> distinct (map (\<lambda>x. nd_id (norm_node x)) (sn_nodes s))"
    using nodes by (simp add: distinct_const)
  note rN = nodec.counted_unique_dup [OF _ counts(1) n, of 30]
  show ?thesis
    using fits(1) unfolding stream_body_def stream_bytes_def
    by (simp add: rd_bind_def r_stream_magic rN)
qed

section \<open>Files\<close>

lemma file_magic_length: "length file_magic = 4"
  by (simp add: file_magic_def)

lemma file_bytes_length: "length (file_bytes body) = 20 + length body"
  by (simp add: file_bytes_def file_magic_length)

lemma load_body_file:
  assumes "length body < 2 ^ 64"
  shows "rd_run (load_body (file_bytes body)) (file_bytes body) = Done body"
proof -
  have magic: "rd_times 4 r_u8 (Rd 0 (file_magic @ bs)) = Done (file_magic, Rd 4 bs)" for bs
    using rd_times_bytes [of file_magic 0 bs] unfolding file_magic_length by simp
  have u: "unat (of_nat (length body) :: u64) = length body"
    using assms by (simp add: unat_of_nat take_bit_nat_eq_self)
  have d: "drop (length (file_bytes body) - length body) (file_bytes body) = body"
  proof -
    have "file_bytes body = (file_magic @ w_u32 file_version @ w_u64 (of_nat (length body)) @ w_u32 (crc32 body)) @ body"
      by (simp add: file_bytes_def)
    moreover have "length (file_magic @ w_u32 file_version @ w_u64 (of_nat (length body)) @ w_u32 (crc32 body)) = 20"
      by (simp add: file_magic_def)
    ultimately show ?thesis by (simp only: length_append) simp
  qed
  show ?thesis
    using d unfolding rd_run_def rd_open_def load_body_def
    by (subst (3) file_bytes_def) (simp add: rd_bind_def magic u file_bytes_length)
qed

lemma save_load_file:
  assumes "save_file f path (file_bytes body) d = (Success (), d')" and "length body < 2 ^ 64"
  shows "load path d' = deserialize body"
proof -
  have "d' path = Some (file_bytes body)"
    using assms(1) by (auto simp: save_file_def io_err_def Let_def tmp_name_def split: if_splits option.splits)
  then show ?thesis
    using load_body_file [OF assms(2)] by (simp add: load_def file_bytes_length)
qed

text \<open>
  Where a call of \<open>save\<close> can stop, the named file holds its old contents or the new ones, or it is
  gone and the temporary file holds the new ones.
\<close>

lemma save_file_contents:
  assumes "save_file f path data d = (r, d')"
  shows "d' path = d path \<or> d' path = Some data \<or> d' path = None \<and> d' (tmp_name path) = Some data"
  using assms by (auto simp: save_file_def Let_def tmp_name_def split: if_splits option.splits)

lemma save_file_success:
  "save_file f path data d = (Success (), d') \<Longrightarrow>
   d' path = Some data \<and> d' (tmp_name path) = None \<and>
   (\<forall>q. q \<noteq> path \<longrightarrow> q \<noteq> tmp_name path \<longrightarrow> d' q = d q)"
  by (auto simp: save_file_def Let_def tmp_name_def io_err_def split: if_splits option.splits)

text \<open>A failed rename has already lost the old file.\<close>

lemma save_file_rename_fails:
  "\<not> sf_open f \<Longrightarrow> sf_write f = None \<Longrightarrow> \<not> sf_remove f \<Longrightarrow> sf_rename f \<Longrightarrow>
   save_file f path data d = (io_err ''rename failed'', d(tmp_name path \<mapsto> data, path := None))"
  by (auto simp: save_file_def Let_def tmp_name_def fun_eq_iff split: if_splits)

section \<open>Recovery\<close>

lemma revalidated_not_current:
  "p \<in> set (sn_paths (mark_physical_revalidation_required s)) \<Longrightarrow>
   fr_requires_revalidation (pa_freshness p) \<and> \<not> fr_is_current (pa_freshness p)"
  by (auto simp: mark_physical_revalidation_required_def revalidate_path_def fr_requires_revalidation_def
      fr_is_current_def FreshnessRecord_new_def split: if_splits)

lemma throughput_norm [simp]: "throughput (norm_measurement m) = throughput m"
  by (simp add: throughput_def norm_measurement_def)

end
