(* ===== verification/PF_Selection.thy ===== *)
theory PF_Selection
  imports PF_Path "HOL-Library.Multiset"
begin

text \<open>
  Path selection, \<open>include/pciefabric/selection.hpp\<close>: the component-wise comparator, ranking, and
  the choice among candidates with its eliminated and alternative paths.

  The comparator casts a measured rate to \<open>uint64_t\<close>, which is undefined outside the type, so it is
  \<open>None\<close> there. \<open>std::stable_sort\<close> has a meaning only where the comparator is a strict weak order
  on the elements; \<open>stable_sort\<close> is \<open>None\<close> elsewhere. \<open>rank_key\<close> maps a path to a tuple whose
  lexicographic order the comparator computes, for paths with representable rates.
\<close>

section \<open>Requests and decisions\<close>

record SelectionRequest =
  rq_source :: PciNodeId
  rq_destination :: PciNodeId
  rq_payload_size :: TransferBytes
  rq_priority :: u32
  rq_required_capabilities :: "Capability list"
  rq_epoch :: CoordinatorEpoch
  rq_boot :: WorkerBootId
  rq_policy_generation :: PolicyGeneration
  rq_want_reservation :: bool
  rq_prefer_local :: bool

record SelectionDecision =
  de_decision :: Decision
  de_selected :: "PathId option"
  de_alternatives :: "PathId list"
  de_eliminated :: "PathId list"
  de_reranked :: "PathId list"
  de_binding_constraint :: string
  de_reasons :: "string list"
  de_locality :: LocalityClass
  de_theoretical :: "LinkEnvelope option"
  de_measured :: "BytesPerSecond option"
  de_confidence :: Confidence
  de_contention :: ContentionState

definition SelectionDecision_default :: SelectionDecision where
  "SelectionDecision_default = \<lparr>de_decision = Dec_REJECT, de_selected = None, de_alternatives = [],
     de_eliminated = [], de_reranked = [], de_binding_constraint = [], de_reasons = [],
     de_locality = Loc_UNKNOWN, de_theoretical = None, de_measured = None, de_confidence = 0,
     de_contention = Cont_UNKNOWN\<rparr>"

definition locality_rank :: "LocalityClass \<Rightarrow> nat" where
  "locality_rank l = (case l of Loc_SAME_ENDPOINT \<Rightarrow> 0 | Loc_SAME_SWITCH \<Rightarrow> 1
     | Loc_SAME_ROOT_COMPLEX \<Rightarrow> 2 | Loc_SAME_NUMA_DOMAIN \<Rightarrow> 3 | Loc_SAME_HOST_REMOTE_ROOT \<Rightarrow> 4
     | Loc_CROSS_NUMA \<Rightarrow> 5 | Loc_UNKNOWN \<Rightarrow> 6 | Loc_SYNTHETIC \<Rightarrow> 7)"

definition contention_rank :: "ContentionState \<Rightarrow> nat" where
  "contention_rank c = (case c of Cont_IDLE \<Rightarrow> 0 | Cont_LOW \<Rightarrow> 1 | Cont_MODERATE \<Rightarrow> 2
     | Cont_HIGH \<Rightarrow> 3 | Cont_SATURATED \<Rightarrow> 4 | Cont_UNKNOWN \<Rightarrow> 2)"

definition freshness_rank :: "Freshness \<Rightarrow> nat" where
  "freshness_rank f = (case f of Fresh_CURRENT \<Rightarrow> 0 | Fresh_AGING \<Rightarrow> 1
     | Fresh_REVALIDATION_REQUIRED \<Rightarrow> 2 | Fresh_STALE \<Rightarrow> 3 | Fresh_INVALID \<Rightarrow> 4)"

section \<open>The comparator\<close>

definition path_fresh :: "Path \<Rightarrow> bool" where
  "path_fresh p = (freshness_rank (fr_state (pa_freshness p)) \<le> 1)"

definition path_auth :: "SelectionRequest \<Rightarrow> Path \<Rightarrow> bool" where
  "path_auth req p = (pa_epoch p = rq_epoch req \<and> pa_boot p = rq_boot req)"

definition path_cap :: "SelectionRequest \<Rightarrow> Path \<Rightarrow> bool" where
  "path_cap req p = list_all (pa_has_capability p) (rq_required_capabilities req)"

definition path_adm :: "SelectionRequest \<Rightarrow> Path \<Rightarrow> bool" where
  "path_adm req p = (path_fresh p \<and> path_auth req p)"

definition measured_u64 :: "Path \<Rightarrow> u64 option" where
  "measured_u64 p = (case pa_measured_bps p of None \<Rightarrow> Some 0 | Some b \<Rightarrow> f64_to_u64 b)"

definition theoretical_bps :: "Path \<Rightarrow> f64" where
  "theoretical_bps p = (case pa_theoretical p of None \<Rightarrow> 0 | Some e \<Rightarrow> le_effective_bps e)"

definition compare_ids :: "'t strong_id \<Rightarrow> 't strong_id \<Rightarrow> int" where
  "compare_ids a b = (if a < b then - 1 else if a = b then 0 else 1)"

definition compare_components :: "Path \<Rightarrow> Path \<Rightarrow> SelectionRequest \<Rightarrow> int option" where
  "compare_components a b req =
     (if path_adm req a \<noteq> path_adm req b then Some (if path_adm req a then - 1 else 1)
      else if \<not> path_adm req a \<and> \<not> path_adm req b then Some (compare_ids (pa_id a) (pa_id b))
      else if path_cap req a \<noteq> path_cap req b then Some (if path_cap req a then - 1 else 1)
      else if locality_rank (pa_locality a) \<noteq> locality_rank (pa_locality b)
      then Some (if locality_rank (pa_locality a) < locality_rank (pa_locality b) then - 1 else 1)
      else case (measured_u64 a, measured_u64 b) of
        (Some ma, Some mb) \<Rightarrow>
          if ma \<noteq> mb then Some (if ma > mb then - 1 else 1)
          else if \<not> f64_eq (theoretical_bps a) (theoretical_bps b)
          then Some (if f64_lt (theoretical_bps b) (theoretical_bps a) then - 1 else 1)
          else if contention_rank (pa_contention a) \<noteq> contention_rank (pa_contention b)
          then Some (if contention_rank (pa_contention a) < contention_rank (pa_contention b) then - 1 else 1)
          else if \<not> f64_eq (pa_confidence a) (pa_confidence b)
          then Some (if f64_lt (pa_confidence b) (pa_confidence a) then - 1 else 1)
          else if pa_source a \<noteq> pa_source b then Some (if pa_source a < pa_source b then - 1 else 1)
          else if pa_destination a \<noteq> pa_destination b
          then Some (if pa_destination a < pa_destination b then - 1 else 1)
          else Some (compare_ids (pa_id a) (pa_id b))
      | _ \<Rightarrow> None)"

definition ranks_before :: "SelectionRequest \<Rightarrow> Path \<Rightarrow> Path \<Rightarrow> bool" where
  "ranks_before req a b = (case compare_components a b req of None \<Rightarrow> False | Some c \<Rightarrow> c < 0)"

section \<open>Stable sorting by a comparator\<close>

fun ins_by :: "('a \<Rightarrow> 'a \<Rightarrow> bool) \<Rightarrow> 'a \<Rightarrow> 'a list \<Rightarrow> 'a list" where
  "ins_by lt x [] = [x]"
| "ins_by lt x (y # ys) = (if lt y x then y # ins_by lt x ys else x # y # ys)"

definition sort_by :: "('a \<Rightarrow> 'a \<Rightarrow> bool) \<Rightarrow> 'a list \<Rightarrow> 'a list" where
  "sort_by lt xs = foldr (ins_by lt) xs []"

text \<open>The comparator is defined on the pairs of the list and a strict weak order there.\<close>

definition comparable :: "SelectionRequest \<Rightarrow> Path list \<Rightarrow> bool" where
  "comparable req xs = (length xs \<le> 1 \<or>
     list_all (\<lambda>a. list_all (\<lambda>b. compare_components a b req \<noteq> None) xs) xs)"

definition strict_weak :: "('a \<Rightarrow> 'a \<Rightarrow> bool) \<Rightarrow> 'a list \<Rightarrow> bool" where
  "strict_weak lt xs = (list_all (\<lambda>a. \<not> lt a a) xs \<and>
     list_all (\<lambda>a. list_all (\<lambda>b. list_all (\<lambda>c.
       (lt a b \<and> lt b c \<longrightarrow> lt a c) \<and>
       (\<not> lt a b \<and> \<not> lt b a \<and> \<not> lt b c \<and> \<not> lt c b \<longrightarrow> \<not> lt a c \<and> \<not> lt c a)) xs) xs) xs)"

definition stable_sort :: "SelectionRequest \<Rightarrow> Path list \<Rightarrow> Path list option" where
  "stable_sort req xs = (if comparable req xs \<and> strict_weak (ranks_before req) xs
     then Some (sort_by (ranks_before req) xs) else None)"

section \<open>The selector\<close>

definition rank :: "Path list \<Rightarrow> SelectionRequest \<Rightarrow> PathId list option" where
  "rank candidates req = map_option (map pa_id) (stable_sort req candidates)"

record sel_acc =
  sa_admissible :: "Path list"
  sa_eliminated :: "Path list"
  sa_reasons :: "string list"
  sa_deferred :: "Path list"
  sa_stale :: "PathId list"

definition sel_acc_empty :: sel_acc where
  "sel_acc_empty = \<lparr>sa_admissible = [], sa_eliminated = [], sa_reasons = [], sa_deferred = [], sa_stale = []\<rparr>"

text \<open>The body of the loop over the candidates; \<open>sa_stale\<close> is what it adds to \<open>d.eliminated\<close>.\<close>

definition sel_step :: "SelectionRequest \<Rightarrow> Path \<Rightarrow> sel_acc \<Rightarrow> sel_acc" where
  "sel_step req p s =
     (if \<not> path_auth req p then
        s\<lparr>sa_eliminated := sa_eliminated s @ [p], sa_reasons := sa_reasons s @
          [''stale authority (epoch/boot mismatch) on path '' @ dec_string (unat (id_value (pa_id p)))]\<rparr>
      else if \<not> path_cap req p then
        s\<lparr>sa_eliminated := sa_eliminated s @ [p],
          sa_reasons := sa_reasons s @ [''required capability unavailable on path'']\<rparr>
      else if \<not> path_fresh p then
        s\<lparr>sa_stale := sa_stale s @ [pa_id p],
          sa_reasons := sa_reasons s @ [''path not fresh (revalidation required)'']\<rparr>
      else if pa_contention p = Cont_SATURATED then s\<lparr>sa_deferred := sa_deferred s @ [p]\<rparr>
      else s\<lparr>sa_admissible := sa_admissible s @ [p]\<rparr>)"

definition sel_empty_pool :: "sel_acc \<Rightarrow> SelectionDecision" where
  "sel_empty_pool s =
     (let d = SelectionDecision_default\<lparr>de_eliminated := sa_stale s\<rparr> in
      if sa_deferred s \<noteq> [] then
        d\<lparr>de_decision := Dec_DEFER, de_binding_constraint := ''all candidate paths saturated'',
          de_reasons := [''deferred: contention saturation''],
          de_alternatives := map pa_id (sa_deferred s)\<rparr>
      else d\<lparr>de_decision := Dec_REJECT,
          de_binding_constraint := (case sa_reasons s of [] \<Rightarrow> ''no admissible path'' | r # _ \<Rightarrow> r),
          de_reasons := sa_reasons s\<rparr>)"

definition has_penalty :: "Path \<Rightarrow> bool" where
  "has_penalty p = (pa_contention p = Cont_MODERATE \<or> pa_contention p = Cont_HIGH
     \<or> pa_locality p = Loc_CROSS_NUMA \<or> pa_locality p = Loc_SAME_HOST_REMOTE_ROOT)"

definition penalty_constraint :: "Path \<Rightarrow> string" where
  "penalty_constraint p = (if pa_contention p = Cont_HIGH then ''contention penalty''
     else if pa_locality p = Loc_CROSS_NUMA then ''cross-NUMA penalty''
     else ''remote-root locality penalty'')"

definition sel_from_pool :: "sel_acc \<Rightarrow> Path \<Rightarrow> Path list \<Rightarrow> SelectionDecision" where
  "sel_from_pool s best rest =
     SelectionDecision_default
      \<lparr>de_decision := (if has_penalty best then Dec_USE_PATH_WITH_PENALTY else Dec_USE_PATH),
       de_selected := Some (pa_id best),
       de_alternatives := map pa_id rest @ map pa_id (sa_deferred s),
       de_eliminated := sa_stale s @ map pa_id (sa_eliminated s),
       de_reranked := map pa_id (best # rest),
       de_binding_constraint := (if has_penalty best then penalty_constraint best
         else ''best component-wise ranking''),
       de_reasons := [if has_penalty best then penalty_constraint best
         else ''selected best in component-wise order''],
       de_locality := pa_locality best, de_theoretical := pa_theoretical best,
       de_measured := pa_measured_bps best, de_confidence := pa_confidence best,
       de_contention := pa_contention best\<rparr>"

lemma sel_from_pool_fields:
  "de_selected (sel_from_pool s b r) = Some (pa_id b)"
  "de_alternatives (sel_from_pool s b r) = map pa_id r @ map pa_id (sa_deferred s)"
  "de_eliminated (sel_from_pool s b r) = sa_stale s @ map pa_id (sa_eliminated s)"
  "de_decision (sel_from_pool s b r) = (if has_penalty b then Dec_USE_PATH_WITH_PENALTY else Dec_USE_PATH)"
  "de_reranked (sel_from_pool s b r) = map pa_id (b # r)"
  unfolding sel_from_pool_def by simp_all

lemma sel_empty_pool_fields:
  "de_selected (sel_empty_pool s) = None"
  "de_eliminated (sel_empty_pool s) = sa_stale s"
  "de_decision (sel_empty_pool s) = (if sa_deferred s \<noteq> [] then Dec_DEFER else Dec_REJECT)"
  "de_alternatives (sel_empty_pool s) = map pa_id (sa_deferred s)"
  "de_reranked (sel_empty_pool s) = []"
  unfolding sel_empty_pool_def SelectionDecision_default_def Let_def by simp_all

definition select :: "Path list \<Rightarrow> SelectionRequest \<Rightarrow> SelectionDecision option" where
  "select candidates req =
     (let s = fold (sel_step req) candidates sel_acc_empty in
      case stable_sort req (sa_admissible s) of
        None \<Rightarrow> None
      | Some [] \<Rightarrow> Some (sel_empty_pool s)
      | Some (best # rest) \<Rightarrow> Some (sel_from_pool s best rest))"

section \<open>The comparator is a lexicographic order\<close>

type_synonym rank_tuple =
  "nat \<times> nat \<times> nat \<times> int \<times> int \<times> nat \<times> int \<times> PciNodeId \<times> PciNodeId \<times> PathId"

definition rank_key :: "SelectionRequest \<Rightarrow> Path \<Rightarrow> rank_tuple" where
  "rank_key req p = (if path_adm req p
     then (0, if path_cap req p then 0 else 1, locality_rank (pa_locality p),
       - int (unat (the (measured_u64 p))), - f64_ord (theoretical_bps p),
       contention_rank (pa_contention p), - f64_ord (pa_confidence p),
       pa_source p, pa_destination p, pa_id p)
     else (1, 0, 0, 0, 0, 0, 0, StrongId 0, StrongId 0, pa_id p))"

text \<open>The paths the order is total on: representable measured rate, no NaN.\<close>

definition rankable :: "Path \<Rightarrow> bool" where
  "rankable p = (measured_u64 p \<noteq> None \<and> \<not> f64_is_nan (theoretical_bps p) \<and> \<not> f64_is_nan (pa_confidence p))"

definition cmp_agrees :: "int \<Rightarrow> 'k::linorder \<Rightarrow> 'k \<Rightarrow> bool" where
  "cmp_agrees c u v = ((c < 0 \<longleftrightarrow> u < v) \<and> (c = 0 \<longleftrightarrow> u = v))"

lemma cmp_ids: "cmp_agrees (compare_ids i j) i j"
  by (auto simp: cmp_agrees_def compare_ids_def)

lemma cmp_step:
  "cmp_agrees c u v \<Longrightarrow> cmp_agrees (if x \<noteq> y then (if x < y then - 1 else 1) else c) (x, u) (y, v)"
  by (auto simp: cmp_agrees_def less_prod_def')

lemma cmp_same: "cmp_agrees c u v \<Longrightarrow> cmp_agrees c (x, u) (x, v)"
  by (auto simp: cmp_agrees_def less_prod_def')

lemma compare_rank_key:
  assumes "rankable a" "rankable b"
  shows "\<exists>c. compare_components a b req = Some c \<and> cmp_agrees c (rank_key req a) (rank_key req b)"
proof -
  obtain ma mb where m: "measured_u64 a = Some ma" "measured_u64 b = Some mb"
    using assms by (auto simp: rankable_def)
  have eq: "f64_eq (theoretical_bps a) (theoretical_bps b) \<longleftrightarrow> - f64_ord (theoretical_bps a) = - f64_ord (theoretical_bps b)"
    "f64_eq (pa_confidence a) (pa_confidence b) \<longleftrightarrow> - f64_ord (pa_confidence a) = - f64_ord (pa_confidence b)"
    "f64_lt (theoretical_bps b) (theoretical_bps a) \<longleftrightarrow> - f64_ord (theoretical_bps a) < - f64_ord (theoretical_bps b)"
    "f64_lt (pa_confidence b) (pa_confidence a) \<longleftrightarrow> - f64_ord (pa_confidence a) < - f64_ord (pa_confidence b)"
    using assms by (simp_all add: f64_eq_def f64_lt_def rankable_def)
  have u: "ma = mb \<longleftrightarrow> - int (unat ma) = - int (unat mb)" "ma > mb \<longleftrightarrow> - int (unat ma) < - int (unat mb)"
    by (simp_all only: word_unat_eq_iff word_less_nat_alt neg_equal_iff_equal neg_less_iff_less
        of_nat_eq_iff of_nat_less_iff)
  consider "path_adm req a" "path_adm req b" | "path_adm req a \<noteq> path_adm req b"
    | "\<not> path_adm req a" "\<not> path_adm req b" by blast
  then show ?thesis
  proof cases
    case 1
    define ca cb :: nat where "ca = (if path_cap req a then 0 else 1)" and "cb = (if path_cap req b then 0 else 1)"
    have cap: "path_cap req a \<noteq> path_cap req b \<longleftrightarrow> ca \<noteq> cb" "ca \<noteq> cb \<Longrightarrow> path_cap req a \<longleftrightarrow> ca < cb"
      by (auto simp: ca_def cb_def)
    let ?c = "if ca \<noteq> cb then (if ca < cb then - 1 else 1)
      else if locality_rank (pa_locality a) \<noteq> locality_rank (pa_locality b)
      then (if locality_rank (pa_locality a) < locality_rank (pa_locality b) then - 1 else 1)
      else if - int (unat ma) \<noteq> - int (unat mb) then (if - int (unat ma) < - int (unat mb) then - 1 else 1)
      else if - f64_ord (theoretical_bps a) \<noteq> - f64_ord (theoretical_bps b)
      then (if - f64_ord (theoretical_bps a) < - f64_ord (theoretical_bps b) then - 1 else 1)
      else if contention_rank (pa_contention a) \<noteq> contention_rank (pa_contention b)
      then (if contention_rank (pa_contention a) < contention_rank (pa_contention b) then - 1 else 1)
      else if - f64_ord (pa_confidence a) \<noteq> - f64_ord (pa_confidence b)
      then (if - f64_ord (pa_confidence a) < - f64_ord (pa_confidence b) then - 1 else 1)
      else if pa_source a \<noteq> pa_source b then (if pa_source a < pa_source b then - 1 else 1)
      else if pa_destination a \<noteq> pa_destination b then (if pa_destination a < pa_destination b then - 1 else 1)
      else compare_ids (pa_id a) (pa_id b)"
    have "compare_components a b req = Some ?c"
      using 1 unfolding compare_components_def m option.case prod.case u eq cap(1)
      by (cases "ca = cb") (simp_all only: cap(2) if_True if_False not_False_eq_True not_True_eq_False
          simp_thms if_distrib [of Some])
    moreover have "cmp_agrees ?c (rank_key req a) (rank_key req b)"
      using 1 m unfolding rank_key_def ca_def [symmetric] cb_def [symmetric]
      by (simp only: if_True option.sel) (intro cmp_same cmp_step cmp_ids)
    ultimately show ?thesis by blast
  next
    case 2
    then show ?thesis
      by (cases "path_adm req a")
         (auto simp: compare_components_def rank_key_def cmp_agrees_def less_prod_def')
  next
    case 3
    then have "compare_components a b req = Some (compare_ids (pa_id a) (pa_id b))"
      by (simp add: compare_components_def)
    moreover have "cmp_agrees (compare_ids (pa_id a) (pa_id b)) (rank_key req a) (rank_key req b)"
      using 3 by (simp only: rank_key_def if_False) (intro cmp_same cmp_ids)
    ultimately show ?thesis by blast
  qed
qed

lemma ranks_before_key:
  "rankable a \<Longrightarrow> rankable b \<Longrightarrow> ranks_before req a b \<longleftrightarrow> rank_key req a < rank_key req b"
  using compare_rank_key [of a b req] by (auto simp: ranks_before_def cmp_agrees_def)

section \<open>The sort\<close>

lemma ins_by_set [simp]: "set (ins_by lt x xs) = insert x (set xs)"
  by (induction xs) auto

lemma sort_by_set [simp]: "set (sort_by lt xs) = set xs"
  by (induction xs) (auto simp: sort_by_def)

lemma ins_by_mset [simp]: "mset (ins_by lt x xs) = add_mset x (mset xs)"
  by (induction xs) auto

lemma sort_by_mset [simp]: "mset (sort_by lt xs) = mset xs"
  by (induction xs) (auto simp: sort_by_def)

lemma ins_by_key:
  "(\<And>y. y \<in> set ys \<Longrightarrow> lt y x \<longleftrightarrow> k y < k x) \<Longrightarrow> ins_by lt x ys = insort_key k x ys"
  by (induction ys) (auto simp: not_less)

lemma sort_by_key:
  "(\<And>x y. x \<in> set xs \<Longrightarrow> y \<in> set xs \<Longrightarrow> lt x y \<longleftrightarrow> k x < k y) \<Longrightarrow> sort_by lt xs = sort_key k xs"
proof (induction xs)
  case (Cons x xs)
  have "sort_by lt xs = sort_key k xs" using Cons by auto
  moreover have "ins_by lt x (sort_key k xs) = insort_key k x (sort_key k xs)"
    by (rule ins_by_key) (use Cons.prems in auto)
  ultimately show ?case by (simp add: sort_by_def sort_key_def)
qed (simp add: sort_by_def)

lemma stable_sort_key:
  assumes "list_all rankable xs"
  shows "stable_sort req xs = Some (sort_key (rank_key req) xs)"
proof -
  have r: "\<And>x. x \<in> set xs \<Longrightarrow> rankable x" using assms by (simp add: list_all_iff)
  have "comparable req xs"
    unfolding comparable_def list_all_iff using compare_rank_key r by (metis option.distinct(1))
  moreover have "strict_weak (ranks_before req) xs"
    unfolding strict_weak_def list_all_iff using r
    by (auto simp: ranks_before_key)
  moreover have "sort_by (ranks_before req) xs = sort_key (rank_key req) xs"
    by (rule sort_by_key) (simp add: ranks_before_key r)
  ultimately show ?thesis by (simp add: stable_sort_def)
qed

text \<open>Equal keys come only from equal ids, so distinct ids leave no tie to the input order.\<close>

lemma rank_key_id: "rank_key req a = rank_key req b \<Longrightarrow> pa_id a = pa_id b"
  by (auto simp: rank_key_def split: if_splits)

lemma rank_key_inj:
  assumes "distinct (map pa_id xs)"
  shows "inj_on (rank_key req) (set xs)"
  by (rule inj_onI) (use assms rank_key_id in \<open>metis (no_types, lifting) distinct_map inj_onD\<close>)

lemma sort_key_perm:
  fixes f :: "'a \<Rightarrow> 'b::linorder"
  assumes "mset xs = mset ys" and "inj_on f (set xs)"
  shows "sort_key f xs = sort_key f ys"
proof -
  have "mset (map f (sort_key f xs)) = mset (map f (sort_key f ys))" using assms(1) by simp
  then have "map f (sort_key f xs) = map f (sort_key f ys)"
    by (metis sorted_sort_key properties_for_sort)
  moreover have "set ys = set xs" using assms(1) by (metis mset_eq_setD)
  ultimately show ?thesis using assms(2) by (auto intro: map_inj_on)
qed

section \<open>What the selection loop collects\<close>

definition is_admissible :: "SelectionRequest \<Rightarrow> Path \<Rightarrow> bool" where
  "is_admissible req p = (path_auth req p \<and> path_cap req p \<and> path_fresh p \<and> pa_contention p \<noteq> Cont_SATURATED)"

definition is_deferred :: "SelectionRequest \<Rightarrow> Path \<Rightarrow> bool" where
  "is_deferred req p = (path_auth req p \<and> path_cap req p \<and> path_fresh p \<and> pa_contention p = Cont_SATURATED)"

definition is_refused :: "SelectionRequest \<Rightarrow> Path \<Rightarrow> bool" where
  "is_refused req p = (\<not> path_auth req p \<or> \<not> path_cap req p)"

definition is_stale :: "SelectionRequest \<Rightarrow> Path \<Rightarrow> bool" where
  "is_stale req p = (path_auth req p \<and> path_cap req p \<and> \<not> path_fresh p)"

lemmas sel_classes = is_admissible_def is_deferred_def is_refused_def is_stale_def

lemma sel_fold:
  "sa_admissible (fold (sel_step req) ps s) = sa_admissible s @ filter (is_admissible req) ps \<and>
   sa_deferred (fold (sel_step req) ps s) = sa_deferred s @ filter (is_deferred req) ps \<and>
   sa_eliminated (fold (sel_step req) ps s) = sa_eliminated s @ filter (is_refused req) ps \<and>
   sa_stale (fold (sel_step req) ps s) = sa_stale s @ map pa_id (filter (is_stale req) ps)"
proof (induction ps arbitrary: s)
  case (Cons p ps)
  have "sa_admissible (sel_step req p s) = sa_admissible s @ filter (is_admissible req) [p]"
    "sa_deferred (sel_step req p s) = sa_deferred s @ filter (is_deferred req) [p]"
    "sa_eliminated (sel_step req p s) = sa_eliminated s @ filter (is_refused req) [p]"
    "sa_stale (sel_step req p s) = sa_stale s @ map pa_id (filter (is_stale req) [p])"
    by (auto simp: sel_step_def sel_classes)
  with Cons [of "sel_step req p s"] show ?case by simp
qed simp

lemma sel_collects:
  "sa_admissible (fold (sel_step req) ps sel_acc_empty) = filter (is_admissible req) ps"
  "sa_deferred (fold (sel_step req) ps sel_acc_empty) = filter (is_deferred req) ps"
  "sa_eliminated (fold (sel_step req) ps sel_acc_empty) = filter (is_refused req) ps"
  "sa_stale (fold (sel_step req) ps sel_acc_empty) = map pa_id (filter (is_stale req) ps)"
  using sel_fold [of req ps sel_acc_empty] by (simp_all add: sel_acc_empty_def)

lemma sel_partition:
  "mset (filter (is_admissible req) ps) + mset (filter (is_deferred req) ps) +
   mset (filter (is_refused req) ps) + mset (filter (is_stale req) ps) = mset ps"
  by (induction ps) (auto simp: sel_classes)

lemma select_cases:
  assumes "select cands req = Some d"
  obtains (empty) "filter (is_admissible req) cands = []"
      "d = sel_empty_pool (fold (sel_step req) cands sel_acc_empty)"
  | (chosen) best rest where "stable_sort req (filter (is_admissible req) cands) = Some (best # rest)"
      "d = sel_from_pool (fold (sel_step req) cands sel_acc_empty) best rest"
proof -
  have a: "sa_admissible (fold (sel_step req) cands sel_acc_empty) = filter (is_admissible req) cands"
    by (rule sel_collects)
  have nil: "stable_sort req xs = Some [] \<Longrightarrow> xs = []" for xs
    by (auto simp: stable_sort_def split: if_splits dest: arg_cong [of _ _ set])
  show ?thesis
    using assms a empty chosen nil
    by (auto simp: select_def Let_def split: option.splits list.splits)
qed

lemma stable_sort_mset: "stable_sort req xs = Some ys \<Longrightarrow> mset ys = mset xs"
  by (auto simp: stable_sort_def split: if_splits)

text \<open>When a path is selected every candidate is accounted for exactly once.\<close>

lemma select_accounts:
  assumes sel: "select cands req = Some d" and some: "de_selected d = Some i"
  shows "add_mset i (mset (de_alternatives d)) + mset (de_eliminated d) = mset (map pa_id cands)"
  using sel
proof (cases rule: select_cases)
  case empty
  with some show ?thesis by (simp add: sel_empty_pool_fields)
next
  case (chosen best rest)
  have m: "mset (best # rest) = mset (filter (is_admissible req) cands)"
    by (rule stable_sort_mset [OF chosen(1)])
  have "mset (map pa_id cands) = image_mset pa_id (mset (filter (is_admissible req) cands) +
      mset (filter (is_deferred req) cands) + mset (filter (is_refused req) cands) + mset (filter (is_stale req) cands))"
    by (simp only: sel_partition mset_map)
  also have "\<dots> = mset (map pa_id (best # rest)) + mset (map pa_id (filter (is_deferred req) cands)) +
      mset (map pa_id (filter (is_refused req) cands)) + mset (map pa_id (filter (is_stale req) cands))"
    by (simp only: m [symmetric] image_mset_union mset_map)
  also have "\<dots> = add_mset i (mset (de_alternatives d)) + mset (de_eliminated d)"
  proof -
    have "de_alternatives d = map pa_id rest @ map pa_id (filter (is_deferred req) cands)"
      "de_eliminated d = map pa_id (filter (is_stale req) cands) @ map pa_id (filter (is_refused req) cands)"
      "i = pa_id best"
      using some unfolding chosen(2) sel_from_pool_fields sel_collects by simp_all
    then show ?thesis by simp
  qed
  finally show ?thesis by simp
qed

section \<open>What a decision guarantees\<close>

text \<open>A selected path is an admissible candidate that no admissible candidate ranks before.\<close>

lemma strict_weakD:
  assumes "strict_weak lt xs" and "u \<in> set xs" and "v \<in> set xs" and "w \<in> set xs"
  shows strict_weak_irrefl: "\<not> lt u u"
    and strict_weak_trans: "lt u v \<Longrightarrow> lt v w \<Longrightarrow> lt u w"
    and strict_weak_tie: "\<not> lt u v \<Longrightarrow> \<not> lt v u \<Longrightarrow> \<not> lt v w \<Longrightarrow> \<not> lt w v \<Longrightarrow> \<not> lt u w"
  using assms unfolding strict_weak_def list_all_iff by (blast+)

lemma strict_weak_subset: "strict_weak lt ys \<Longrightarrow> set xs \<subseteq> set ys \<Longrightarrow> strict_weak lt xs"
  unfolding strict_weak_def list_all_iff by (meson subsetD)

lemma sort_by_hd_least:
  assumes "strict_weak lt xs" and "sort_by lt xs = y # ys" and "x \<in> set xs"
  shows "\<not> lt x y"
  using assms
proof (induction xs arbitrary: y ys x)
  case (Cons a xs)
  have sw: "strict_weak lt xs" by (rule strict_weak_subset [OF Cons.prems(1)]) auto
  have sb: "sort_by lt (a # xs) = ins_by lt a (sort_by lt xs)" by (simp add: sort_by_def)
  show ?case
  proof (cases "sort_by lt xs")
    case Nil
    then have "xs = []" by (metis sort_by_set set_empty)
    with Cons.prems show ?thesis
      using strict_weak_irrefl [OF Cons.prems(1)] by (auto simp: sort_by_def)
  next
    case (Cons z zs)
    have least: "\<And>u. u \<in> set xs \<Longrightarrow> \<not> lt u z" using Cons.IH [OF sw Cons] by blast
    have z: "z \<in> set xs" using Cons by (metis sort_by_set list.set_intros(1))
    have az: "a \<in> set (a # xs)" "z \<in> set (a # xs)" using z by auto
    note tr = strict_weak_trans [OF Cons.prems(1)] and eq = strict_weak_tie [OF Cons.prems(1)]
      and irr = strict_weak_irrefl [OF Cons.prems(1)]
    show ?thesis
    proof (cases "lt z a")
      case True
      then have "y = z" using sb Cons Cons.prems(2) by simp
      then show ?thesis using True Cons.prems(3) least tr [OF az(2,1,2)] irr [OF az(2,2,2)] by auto
    next
      case False
      then have y: "y = a" using sb Cons Cons.prems(2) by simp
      show ?thesis
      proof (cases "x = a")
        case True then show ?thesis using y irr [OF az(1,1,1)] by simp
      next
        case x: False
        then have xs: "x \<in> set xs" "x \<in> set (a # xs)" using Cons.prems(3) by auto
        show ?thesis
        proof
          assume lt: "lt x y"
          have "\<not> lt x z" by (rule least [OF xs(1)])
          moreover have "\<not> lt z x" using tr [OF az(2) xs(2) az(1)] lt y False by blast
          moreover have "\<not> lt a z" using tr [OF xs(2) az] lt y calculation(1) by blast
          ultimately have "\<not> lt x a" using eq [OF xs(2) az(2) az(1)] False by blast
          then show False using lt y by simp
        qed
      qed
    qed
  qed
qed (simp add: sort_by_def)

lemma stable_sort_hd_least:
  assumes "stable_sort req xs = Some (y # ys)" and "x \<in> set xs"
  shows "\<not> ranks_before req x y"
  using assms by (auto simp: stable_sort_def split: if_splits dest: sort_by_hd_least)

lemma select_best:
  assumes "select cands req = Some d" and "de_selected d = Some i"
  shows "\<exists>p \<in> set cands. pa_id p = i \<and> is_admissible req p \<and>
    (\<forall>q \<in> set cands. is_admissible req q \<longrightarrow> \<not> ranks_before req q p)"
  using assms(1)
proof (cases rule: select_cases)
  case empty
  with assms(2) show ?thesis by (simp add: sel_empty_pool_fields)
next
  case (chosen best rest)
  have "best \<in> set (filter (is_admissible req) cands)"
    using mset_eq_setD [OF stable_sort_mset [OF chosen(1)]] by auto
  moreover have "pa_id best = i" using assms(2) unfolding chosen(2) by (simp add: sel_from_pool_fields)
  moreover have "\<forall>q \<in> set cands. is_admissible req q \<longrightarrow> \<not> ranks_before req q best"
    using stable_sort_hd_least [OF chosen(1)] by simp
  ultimately show ?thesis by auto
qed

text \<open>On rankable candidates the selector answers, and its decision is a function of the classes.\<close>

definition decision_of :: "SelectionRequest \<Rightarrow> Path list \<Rightarrow> SelectionDecision \<Rightarrow> bool" where
  "decision_of req cands d =
     (if list_ex (is_admissible req) cands then
        de_decision d = Dec_USE_PATH \<or> de_decision d = Dec_USE_PATH_WITH_PENALTY
      else if list_ex (is_deferred req) cands then de_decision d = Dec_DEFER
      else de_decision d = Dec_REJECT)"

lemma select_decision_of:
  assumes "select cands req = Some d"
  shows "decision_of req cands d \<and> (de_selected d \<noteq> None \<longleftrightarrow> list_ex (is_admissible req) cands)"
  using assms
proof (cases rule: select_cases)
  case empty
  then have "\<not> list_ex (is_admissible req) cands" by (simp add: filter_empty_conv list_ex_iff)
  then show ?thesis unfolding empty(2) decision_of_def sel_empty_pool_fields sel_collects
    by (auto simp: filter_empty_conv list_ex_iff)
next
  case (chosen best rest)
  have "best \<in> set (filter (is_admissible req) cands)"
    using mset_eq_setD [OF stable_sort_mset [OF chosen(1)]] by auto
  then have "list_ex (is_admissible req) cands" by (auto simp: list_ex_iff)
  then show ?thesis unfolding chosen(2) decision_of_def sel_from_pool_fields by simp
qed

lemma select_total: "list_all rankable cands \<Longrightarrow> \<exists>d. select cands req = Some d"
proof -
  assume "list_all rankable cands"
  then have "list_all rankable (filter (is_admissible req) cands)" by (simp add: list_all_iff)
  from stable_sort_key [OF this, of req] show ?thesis
    by (auto simp: select_def Let_def sel_collects split: list.splits)
qed

text \<open>With distinct ids the order in which the candidates arrive does not matter to the ranking.\<close>

lemma stable_sort_perm:
  assumes "mset xs = mset ys" and "list_all rankable xs" and "distinct (map pa_id xs)"
  shows "stable_sort req xs = stable_sort req ys"
proof -
  have "list_all rankable ys" using assms(1,2) by (metis list_all_iff mset_eq_setD)
  then show ?thesis
    using stable_sort_key sort_key_perm [OF assms(1) rank_key_inj [OF assms(3)]] assms(2) by metis
qed

lemma rank_perm:
  assumes "mset xs = mset ys" and "list_all rankable xs" and "distinct (map pa_id xs)"
  shows "rank xs req = rank ys req"
  unfolding rank_def stable_sort_perm [OF assms] ..

lemma select_perm:
  assumes perm: "mset xs = mset ys" and "list_all rankable xs" and "distinct (map pa_id xs)"
    and "select xs req = Some d" and "select ys req = Some e"
  shows "de_decision d = de_decision e \<and> de_selected d = de_selected e \<and> de_reranked d = de_reranked e"
proof -
  let ?A = "filter (is_admissible req)"
  have eq: "stable_sort req (?A xs) = stable_sort req (?A ys)"
    by (rule stable_sort_perm)
       (use assms in \<open>simp_all add: list_all_iff distinct_map_filter mset_filter\<close>)
  have def: "list_ex (is_deferred req) xs = list_ex (is_deferred req) ys"
    using mset_eq_setD [OF perm] by (simp add: list_ex_iff)
  show ?thesis using assms(4)
  proof (cases rule: select_cases)
    case empty
    then have "?A ys = []" using perm by (metis mset_filter mset_zero_iff)
    then have e: "e = sel_empty_pool (fold (sel_step req) ys sel_acc_empty)"
      using select_cases [OF assms(5)] by (metis stable_sort_mset mset.simps(1) mset_zero_iff list.distinct(1))
    have "(filter (is_deferred req) xs = []) = (filter (is_deferred req) ys = [])"
      using def by (auto simp: list_ex_iff filter_empty_conv)
    then show ?thesis unfolding e empty(2) sel_empty_pool_fields sel_collects
      by simp
  next
    case (chosen best rest)
    then have "e = sel_from_pool (fold (sel_step req) ys sel_acc_empty) best rest"
      using select_cases [OF assms(5)] eq
      by (metis list.inject list.distinct(1) mset_zero_iff option.inject stable_sort_mset mset.simps(1))
    then show ?thesis unfolding chosen(2) by (simp add: sel_from_pool_fields)
  qed
qed

text \<open>The endpoints of the request are not compared with those of the candidates.\<close>

lemma select_ignores_endpoints:
  "select cands (req\<lparr>rq_source := a, rq_destination := b\<rparr>) = select cands req"
proof -
  let ?r = "req\<lparr>rq_source := a, rq_destination := b\<rparr>"
  have adm: "path_auth ?r = path_auth req" "path_cap ?r = path_cap req" "path_adm ?r = path_adm req"
    by (simp_all add: fun_eq_iff path_auth_def path_cap_def path_adm_def)
  have "compare_components x y ?r = compare_components x y req" for x y
    by (simp add: compare_components_def adm)
  then have "ranks_before ?r = ranks_before req" "comparable ?r = comparable req"
    by (simp_all add: fun_eq_iff ranks_before_def comparable_def)
  moreover have "sel_step ?r = sel_step req" by (simp add: fun_eq_iff sel_step_def adm)
  ultimately show ?thesis by (simp only: select_def stable_sort_def)
qed

end
