(* ===== verification/PF_Runtime.thy ===== *)
theory PF_Runtime
  imports PF_Selection PF_Persist
begin

text \<open>
  The runtime facade, \<open>include/pciefabric/runtime.hpp\<close>: one record for the state of class
  \<open>Runtime\<close> and one definition per method. Every method takes the lock for its whole body, so it
  is one atomic step; the step relation \<open>rt_step\<close> has one rule per method that changes the state.
  An operation is \<open>None\<close> where the code throws or has undefined behaviour: building a path over a
  missing ancestor, a selection over an unordered comparator, a digest of an unrepresentable rate.

  \<open>std::uint64_t(i * n + j + 1)\<close> is taken on 64-bit words, as is \<open>0xF0000000 + e\<close>, and inserting
  into the path map overwrites: \<open>jobs_distinct\<close> below says when no two paths get one id.
\<close>

record Runtime =
  rt_topology :: Topology
  rt_paths :: "(PathId, Path) omap"
  rt_measurements :: MeasurementStore
  rt_reservations :: ReservationRegistry
  rt_epoch :: CoordinatorEpoch
  rt_boot :: WorkerBootId
  rt_host_gen :: HostGeneration
  rt_host_gen_u64 :: u64
  rt_topology_seq :: u64
  rt_measurement_seq :: u64
  rt_reservation_seq :: u64

definition Runtime_new :: Runtime where
  "Runtime_new = \<lparr>rt_topology = Topology_new, rt_paths = [], rt_measurements = [],
     rt_reservations = ReservationRegistry_new \<lparr>per_path_bytes = push_bit 40 1, max_duration = 3600000\<rparr>,
     rt_epoch = StrongId 0, rt_boot = StrongId 0, rt_host_gen = Generation 0, rt_host_gen_u64 = 0,
     rt_topology_seq = 0, rt_measurement_seq = 0, rt_reservation_seq = 0\<rparr>"

definition rt_set_authority :: "CoordinatorEpoch \<Rightarrow> WorkerBootId \<Rightarrow> HostGeneration \<Rightarrow> u64 \<Rightarrow> Runtime \<Rightarrow> Runtime" where
  "rt_set_authority e b h hg s = s\<lparr>rt_epoch := e, rt_boot := b, rt_host_gen := h, rt_host_gen_u64 := hg\<rparr>"

section \<open>Building\<close>

definition rt_add_endpoint :: "PciNodeId \<Rightarrow> Bdf \<Rightarrow> DeviceClass \<Rightarrow> PciNodeGeneration \<Rightarrow> Provenance \<Rightarrow>
    PciNodeId \<Rightarrow> Runtime \<Rightarrow> PciNodeId Result \<times> Runtime" where
  "rt_add_endpoint i bdf kind gen prov parent s =
     (case add_endpoint i bdf kind gen prov parent (rt_topology s) of (r, t) \<Rightarrow>
        (r, s\<lparr>rt_topology := t,
              rt_topology_seq := (if res_ok r then rt_topology_seq s + 1 else rt_topology_seq s)\<rparr>))"

text \<open>\<open>topo\<close> is what \<open>build_topology_from_windows\<close> returned.\<close>

definition rt_discover :: "Topology Result \<Rightarrow> Runtime \<Rightarrow> unit Result \<times> Runtime" where
  "rt_discover topo s = (case topo of
      Err c m \<Rightarrow> (Err c m, s)
    | Success t \<Rightarrow> (Success (), s\<lparr>rt_topology := t, rt_topology_seq := rt_topology_seq s + 1\<rparr>))"

type_synonym path_job = "PathId \<times> PciNodeId \<times> PciNodeId"

definition pair_jobs :: "PciNodeId list \<Rightarrow> path_job list" where
  "pair_jobs eps = concat (map (\<lambda>i. map (\<lambda>j.
     (StrongId (of_nat i * of_nat (length eps) + of_nat j + 1), eps ! i, eps ! j))
       [i + 1..<length eps]) [0..<length eps])"

definition host_path_id :: "PciNodeId \<Rightarrow> PathId" where
  "host_path_id e = StrongId (0xF0000000 + id_value e)"

definition host_jobs :: "Topology \<Rightarrow> PciNodeId list \<Rightarrow> path_job list" where
  "host_jobs t eps = List.map_filter
     (\<lambda>e. map_option (\<lambda>rc. (host_path_id e, e, rc)) (root_complex_of t e)) eps"

definition build_job :: "Topology \<Rightarrow> CoordinatorEpoch \<Rightarrow> WorkerBootId \<Rightarrow> path_job \<Rightarrow> Path option" where
  "build_job t e b job = (case job of (i, src, dst) \<Rightarrow>
     map_option (\<lambda>p. p\<lparr>pa_freshness := FreshnessRecord_new Fresh_CURRENT 0\<rparr>)
       (build_path t i (Generation 1) src dst e b))"

fun run_jobs :: "Topology \<Rightarrow> CoordinatorEpoch \<Rightarrow> WorkerBootId \<Rightarrow> path_job list \<Rightarrow> (PathId, Path) omap \<Rightarrow>
    (PathId, Path) omap option" where
  "run_jobs t e b [] ps = Some ps"
| "run_jobs t e b (job # jobs) ps = (case build_job t e b job of
      None \<Rightarrow> None | Some p \<Rightarrow> run_jobs t e b jobs (om_insert (pa_id p) p ps))"

definition path_jobs :: "Topology \<Rightarrow> path_job list" where
  "path_jobs t = pair_jobs (endpoints t) @ host_jobs t (endpoints t)"

definition rt_build_paths :: "Runtime \<Rightarrow> Runtime option" where
  "rt_build_paths s = map_option (\<lambda>ps. s\<lparr>rt_paths := ps\<rparr>)
     (run_jobs (rt_topology s) (rt_epoch s) (rt_boot s) (path_jobs (rt_topology s)) (rt_paths s))"

section \<open>Queries\<close>

definition rt_all_paths :: "Runtime \<Rightarrow> Path list" where
  "rt_all_paths s = map snd (rt_paths s)"

definition rt_find_path :: "Runtime \<Rightarrow> PathId \<Rightarrow> Path option" where
  "rt_find_path s i = om_lookup (rt_paths s) i"

definition rt_candidates :: "Runtime \<Rightarrow> PciNodeId \<Rightarrow> PciNodeId \<Rightarrow> Path list" where
  "rt_candidates s src dst =
     filter (\<lambda>p. pa_source p = src \<and> pa_destination p = dst) (map snd (rt_paths s))"

definition rt_select :: "Runtime \<Rightarrow> SelectionRequest \<Rightarrow> SelectionDecision option" where
  "rt_select s req = select (rt_candidates s (rq_source req) (rq_destination req)) req"

definition rt_validate_accounting :: "Runtime \<Rightarrow> unit Result" where
  "rt_validate_accounting s = rg_validate_accounting (rt_reservations s)"

definition rt_path_count :: "Runtime \<Rightarrow> nat" where
  "rt_path_count s = length (rt_paths s)"

definition rt_endpoint_count :: "Runtime \<Rightarrow> nat" where
  "rt_endpoint_count s = length (endpoints (rt_topology s))"

section \<open>Reservations, measurements, freshness\<close>

definition rt_reserve :: "Reservation \<Rightarrow> Runtime \<Rightarrow> Reservation Result \<times> Runtime" where
  "rt_reserve req s = (case rg_reserve req (rt_reservations s) of (r, g) \<Rightarrow>
     (r, s\<lparr>rt_reservations := g,
           rt_reservation_seq := (if res_ok r then rt_reservation_seq s + 1 else rt_reservation_seq s)\<rparr>))"

definition rt_release :: "ReservationId \<Rightarrow> ReservationGeneration \<Rightarrow> Runtime \<Rightarrow> unit Result \<times> Runtime" where
  "rt_release i gen s = (case rg_release i (rt_boot s) gen (rt_epoch s) (rt_reservations s) of (r, g) \<Rightarrow>
     (r, s\<lparr>rt_reservations := g\<rparr>))"

definition rt_ingest_measurement :: "Measurement \<Rightarrow> Runtime \<Rightarrow> unit Result \<times> Runtime" where
  "rt_ingest_measurement m s =
     (case ms_ingest (ms_set_path (StrongId 0) (Generation 0) m) (rt_measurements s) of (r, ms) \<Rightarrow>
        (r, s\<lparr>rt_measurements := ms,
              rt_measurement_seq := (if res_ok r then rt_measurement_seq s + 1 else rt_measurement_seq s)\<rparr>))"

definition best_evidence :: "MeasurementStore \<Rightarrow> Path \<Rightarrow> Measurement option" where
  "best_evidence ms p = (case ms_latest ms (pa_source p) (pa_destination p) TC_PINNED_H2D of
      Some m \<Rightarrow> Some m
    | None \<Rightarrow> ms_latest ms (pa_source p) (pa_destination p) TC_PAGEABLE_H2D)"

definition refresh_path :: "MeasurementStore \<Rightarrow> Path \<Rightarrow> Path" where
  "refresh_path ms p = (case best_evidence ms p of
      None \<Rightarrow> p | Some m \<Rightarrow> pa_set_best_measured (throughput m) Prov_MEASURED p)"

definition om_map_values :: "('v \<Rightarrow> 'v) \<Rightarrow> ('k, 'v) omap \<Rightarrow> ('k, 'v) omap" where
  "om_map_values f m = map (\<lambda>kv. (fst kv, f (snd kv))) m"

definition rt_refresh_measured :: "Runtime \<Rightarrow> Runtime" where
  "rt_refresh_measured s = s\<lparr>rt_paths := om_map_values (refresh_path (rt_measurements s)) (rt_paths s)\<rparr>"

definition age_record :: "FreshnessRecord \<Rightarrow> FreshnessRecord" where
  "age_record f =
     (if fr_state f = Fresh_CURRENT then FreshnessRecord_new Fresh_AGING (fr_age_ms f + 1)
      else if fr_state f = Fresh_AGING \<and> fr_age_ms f > 60
      then FreshnessRecord_new Fresh_STALE (fr_age_ms f + 1)
      else FreshnessRecord_new (fr_state f) (fr_age_ms f + 1))"

definition rt_age_freshness :: "Runtime \<Rightarrow> Runtime" where
  "rt_age_freshness s = s\<lparr>rt_paths :=
     om_map_values (\<lambda>p. p\<lparr>pa_freshness := age_record (pa_freshness p)\<rparr>) (rt_paths s)\<rparr>"

section \<open>Snapshot and persistence\<close>

definition snapshot_of :: "CoordinatorEpoch \<Rightarrow> u64 \<Rightarrow> Topology \<Rightarrow> (PathId, Path) omap \<Rightarrow> MeasurementStore \<Rightarrow>
    Snapshot option" where
  "snapshot_of epoch seq t ps ms =
     (let s = Snapshot_default\<lparr>sn_epoch := epoch, sn_sequence := seq,
          sn_nodes := List.map_filter (tp_node t) (all_nodes t),
          sn_paths := map snd ps, sn_measurements := ms_all ms\<rparr>
      in map_option (\<lambda>d. s\<lparr>sn_digest := d\<rparr>) (semantic_digest s))"

definition rt_snapshot :: "Runtime \<Rightarrow> Snapshot option" where
  "rt_snapshot s = snapshot_of (rt_epoch s) (rt_topology_seq s) (rt_topology s) (rt_paths s) (rt_measurements s)"

definition rt_save :: "save_faults \<Rightarrow> string \<Rightarrow> Runtime \<Rightarrow> disk \<Rightarrow> (unit Result \<times> disk) option" where
  "rt_save f path s d = (case rt_snapshot s of None \<Rightarrow> None | Some sn \<Rightarrow> save f path sn d)"

definition parent_or_zero :: "Node \<Rightarrow> PciNodeId" where
  "parent_or_zero n = (case nd_parent n of None \<Rightarrow> StrongId 0 | Some p \<Rightarrow> p)"

definition restore_node :: "Node \<Rightarrow> Topology \<Rightarrow> Topology" where
  "restore_node n t = snd (add_endpoint (nd_id n) (nd_bdf n) (nd_kind n) (nd_generation n)
     (nd_provenance n) (parent_or_zero n) t)"

definition restore_paths :: "Path list \<Rightarrow> (PathId, Path) omap \<Rightarrow> (PathId, Path) omap" where
  "restore_paths ps m = fold (\<lambda>p m. om_insert (pa_id p) p m) ps m"

definition rt_install :: "Snapshot \<Rightarrow> Runtime \<Rightarrow> Runtime" where
  "rt_install sn s = s\<lparr>rt_topology := fold restore_node (sn_nodes sn) Topology_new,
     rt_paths := restore_paths (sn_paths sn) [], rt_epoch := sn_epoch sn\<rparr>"

definition rt_load :: "string \<Rightarrow> disk \<Rightarrow> Runtime \<Rightarrow> Snapshot outcome \<times> Runtime" where
  "rt_load path d s = (case load path d of
      Done sn \<Rightarrow> let sn = mark_physical_revalidation_required sn in (Done sn, rt_install sn s)
    | Fail c m \<Rightarrow> (Fail c m, s)
    | Undef \<Rightarrow> (Undef, s))"

section \<open>The runtime as a state machine\<close>

inductive rt_step :: "Runtime \<Rightarrow> Runtime \<Rightarrow> bool" where
  rt_step_authority: "rt_step s (rt_set_authority e b h hg s)"
| rt_step_endpoint: "rt_step s (snd (rt_add_endpoint i bdf kind gen prov parent s))"
| rt_step_discover: "tp_reach t \<Longrightarrow> rt_step s (snd (rt_discover (Success t) s))"
| rt_step_build: "rt_build_paths s = Some s' \<Longrightarrow> rt_step s s'"
| rt_step_reserve: "rt_step s (snd (rt_reserve req s))"
| rt_step_release: "rt_step s (snd (rt_release i gen s))"
| rt_step_ingest: "rt_step s (snd (rt_ingest_measurement m s))"
| rt_step_refresh: "rt_step s (rt_refresh_measured s)"
| rt_step_age: "rt_step s (rt_age_freshness s)"
| rt_step_load: "fst (rt_load path d s) \<noteq> Undef \<Longrightarrow> rt_step s (snd (rt_load path d s))"

inductive_cases rt_stepE: "rt_step s s'"

definition rt_start :: "Runtime \<Rightarrow> bool" where
  "rt_start s = (s = Runtime_new)"

definition rt_reach :: "Runtime \<Rightarrow> bool" where
  "rt_reach = reachable rt_start rt_step"

section \<open>The invariant\<close>

lemma om_map_values_lookup [simp]: "om_lookup (om_map_values f m) k = map_option f (om_lookup m k)"
  by (induction m) (auto simp: om_map_values_def)

lemma om_map_values_wf [simp]: "om_wf (om_map_values f m) = om_wf m"
  by (simp add: om_wf_def om_map_values_def comp_def)

definition paths_inv :: "(PathId, Path) omap \<Rightarrow> bool" where
  "paths_inv m = (om_wf m \<and> (\<forall>i p. om_lookup m i = Some p \<longrightarrow> pa_id p = i))"

lemma paths_inv_simps [simp, intro]:
  "paths_inv []" "paths_inv m \<Longrightarrow> paths_inv (om_insert (pa_id p) p m)"
  by (auto simp: paths_inv_def)

lemma paths_inv_map: "(\<And>p. pa_id (f p) = pa_id p) \<Longrightarrow> paths_inv m \<Longrightarrow> paths_inv (om_map_values f m)"
  by (auto simp: paths_inv_def)

lemma paths_inv_distinct: "paths_inv m \<Longrightarrow> distinct (map pa_id (map snd m))"
proof -
  assume m: "paths_inv m"
  then have "map pa_id (map snd m) = map fst m"
    by (auto simp: paths_inv_def dest: om_in_set_lookup)
  then show ?thesis using m by (metis paths_inv_def om_wf_distinct)
qed

definition rt_inv :: "Runtime \<Rightarrow> bool" where
  "rt_inv s = (tp_inv (rt_topology s) \<and> paths_inv (rt_paths s) \<and> ms_inv (rt_measurements s) \<and>
     rg_inv (rt_reservations s) \<and> (\<forall>m \<in> set (ms_all (rt_measurements s)). ms_path m = Some (StrongId 0)))"

lemma run_jobs_inv: "paths_inv ps \<Longrightarrow> run_jobs t e b jobs ps = Some ps' \<Longrightarrow> paths_inv ps'"
  by (induction jobs arbitrary: ps) (auto split: option.splits)

lemma restore_paths_inv: "paths_inv m \<Longrightarrow> paths_inv (restore_paths ps m)"
  unfolding restore_paths_def by (induction ps arbitrary: m) auto

lemma restore_node_inv: "tp_inv t \<Longrightarrow> tp_inv (restore_node n t)"
  by (simp add: restore_node_def add_endpoint_def tp_inv_add_and_attach)

lemma restore_nodes_inv: "tp_inv t \<Longrightarrow> tp_inv (fold restore_node ns t)"
  by (induction ns arbitrary: t) (simp_all add: restore_node_inv)

lemma refresh_path_id [simp]: "pa_id (refresh_path ms p) = pa_id p"
  by (simp add: refresh_path_def pa_set_best_measured_def split: option.split)

lemma set_om_insert: "snd ` set (om_insert k v m) \<subseteq> insert v (snd ` set m)"
  by (induction k v m rule: om_insert.induct) auto

lemma ingest_paths:
  "(\<forall>x \<in> set (ms_all s). P x) \<Longrightarrow> P m \<Longrightarrow> \<forall>x \<in> set (ms_all (snd (ms_ingest m s))). P x"
  using set_om_insert [of "ms_id m" m s]
  by (fastforce simp: ms_all_def ms_ingest_def split: option.splits if_splits)

lemma rt_inv_new: "rt_inv Runtime_new"
  by (simp add: rt_inv_def Runtime_new_def tp_inv_new ms_inv_def ms_all_def rg_inv_init rg_initial_def
      ReservationRegistry_new_def)

lemma rt_inv_step:
  assumes inv: "rt_inv s" and step: "rt_step s s'"
  shows "rt_inv s'"
  using step
proof (cases rule: rt_step.cases)
  case rt_step_authority
  with inv show ?thesis by (simp add: rt_inv_def rt_set_authority_def)
next
  case rt_step_endpoint
  with inv show ?thesis
    by (simp add: rt_inv_def rt_add_endpoint_def tp_inv_add_and_attach add_endpoint_def split_beta)
next
  case rt_step_discover
  with inv show ?thesis by (simp add: rt_inv_def rt_discover_def tp_reach_inv)
next
  case rt_step_build
  with inv show ?thesis by (auto simp: rt_inv_def rt_build_paths_def run_jobs_inv)
next
  case rt_step_reserve
  with inv show ?thesis by (simp add: rt_inv_def rt_reserve_def split_beta rg_inv_reserve)
next
  case rt_step_release
  with inv show ?thesis by (simp add: rt_inv_def rt_release_def split_beta rg_inv_release)
next
  case (rt_step_ingest m)
  let ?m = "ms_set_path (StrongId 0) (Generation 0) m"
  have "ms_path ?m = Some (StrongId 0)" by (simp add: ms_set_path_def)
  then have "\<forall>x \<in> set (ms_all (snd (ms_ingest ?m (rt_measurements s)))). ms_path x = Some (StrongId 0)"
    using inv by (intro ingest_paths) (simp_all add: rt_inv_def)
  with inv rt_step_ingest show ?thesis
    by (simp add: rt_inv_def rt_ingest_measurement_def split_beta ms_inv_ingest)
next
  case rt_step_refresh
  with inv show ?thesis by (simp add: rt_inv_def rt_refresh_measured_def paths_inv_map)
next
  case rt_step_age
  with inv show ?thesis by (simp add: rt_inv_def rt_age_freshness_def paths_inv_map)
next
  case rt_step_load
  with inv show ?thesis
    by (auto simp: rt_inv_def rt_load_def rt_install_def restore_paths_inv restore_nodes_inv tp_inv_new
        Let_def split: outcome.splits)
qed

interpretation rti: invariant rt_start rt_step rt_inv
  by unfold_locales (auto simp: rt_start_def rt_inv_new intro: rt_inv_step)

lemma rt_reach_inv: "rt_reach s \<Longrightarrow> rt_inv s"
  unfolding rt_reach_def by (rule rti.always)

section \<open>Path building\<close>

lemma build_job_total: "tp_inv t \<Longrightarrow> \<exists>p. build_job t e b job = Some p"
  using build_path_total [of t] by (cases job) (auto simp: build_job_def)

lemma run_jobs_total: "tp_inv t \<Longrightarrow> \<exists>ps'. run_jobs t e b jobs ps = Some ps'"
proof (induction jobs arbitrary: ps)
  case (Cons job jobs)
  from build_job_total [OF Cons.prems] obtain p where "build_job t e b job = Some p" by blast
  with Cons show ?case by simp
qed simp

lemma rt_build_total: "rt_inv s \<Longrightarrow> \<exists>s'. rt_build_paths s = Some s'"
  using run_jobs_total [of "rt_topology s"] by (auto simp: rt_inv_def rt_build_paths_def)

definition built_by :: "Topology \<Rightarrow> CoordinatorEpoch \<Rightarrow> WorkerBootId \<Rightarrow> path_job \<Rightarrow> Path \<Rightarrow> bool" where
  "built_by t e b job p = (case job of (i, src, dst) \<Rightarrow>
     pa_id p = i \<and> pa_source p = src \<and> pa_destination p = dst \<and> authority_matches p e b \<and>
     pa_freshness p = FreshnessRecord_new Fresh_CURRENT 0 \<and> pa_bridge_chain p = path_nodes t src dst \<and>
     Some (pa_locality p) = locality t src dst \<and> pa_class p = compute_path_class t src dst)"

lemma build_job_built: "build_job t e b job = Some p \<Longrightarrow> built_by t e b job p"
  by (cases job) (auto simp: build_job_def built_by_def authority_matches_def dest: build_path_fields)

lemma run_jobs_lookup:
  "run_jobs t e b jobs ps = Some ps' \<Longrightarrow> distinct (map fst jobs) \<Longrightarrow>
   (\<forall>job \<in> set jobs. \<exists>p. om_lookup ps' (fst job) = Some p \<and> built_by t e b job p) \<and>
   (\<forall>i. i \<notin> fst ` set jobs \<longrightarrow> om_lookup ps' i = om_lookup ps i)"
proof (induction jobs arbitrary: ps)
  case (Cons job jobs)
  from Cons.prems(1) obtain p where p: "build_job t e b job = Some p"
    and rest: "run_jobs t e b jobs (om_insert (pa_id p) p ps) = Some ps'"
    by (auto split: option.splits)
  have built: "built_by t e b job p" by (rule build_job_built [OF p])
  then have i: "pa_id p = fst job" by (auto simp: built_by_def split: prod.splits)
  note IH = Cons.IH [OF rest]
  from Cons.prems(2) have d: "distinct (map fst jobs)" "fst job \<notin> fst ` set jobs" by auto
  have "om_lookup ps' (fst job) = Some p" using IH [OF d(1)] d(2) i by auto
  with IH [OF d(1)] built i show ?case by auto
qed simp

text \<open>When every path of a build gets an id of its own.\<close>

definition jobs_fit :: "Topology \<Rightarrow> bool" where
  "jobs_fit t = (length (endpoints t) * length (endpoints t) < 0xF0000000 \<and>
     list_all (\<lambda>e. unat (id_value e) + 0xF0000000 < 2 ^ 64) (endpoints t))"

lemma distinct_concat_map:
  "distinct xs \<Longrightarrow> (\<And>x. x \<in> set xs \<Longrightarrow> distinct (f x)) \<Longrightarrow>
   (\<And>x y. x \<in> set xs \<Longrightarrow> y \<in> set xs \<Longrightarrow> x \<noteq> y \<Longrightarrow> set (f x) \<inter> set (f y) = {}) \<Longrightarrow> distinct (concat (map f xs))"
  by (induction xs) (simp_all, blast)

lemma pair_index_unat:
  assumes "n * n < 2 ^ 64" and "i < n" and "j < n"
  shows "unat (of_nat i * of_nat n + of_nat j + 1 :: u64) = i * n + j + 1"
proof -
  have "(i + 1) * n \<le> n * n" using assms(2) by (intro mult_right_mono) auto
  then have "i * n + j + 1 < 2 ^ 64" using assms(1,3) by simp
  moreover have "(of_nat i * of_nat n + of_nat j + 1 :: u64) = of_nat (i * n + j + 1)" by simp
  ultimately show ?thesis by (simp only: unat_of_nat) simp
qed

lemma pair_index_inj: "j < n \<Longrightarrow> j' < (n::nat) \<Longrightarrow> i * n + j = i' * n + j' \<Longrightarrow> i = i' \<and> j = j'"
  by (metis add.commute div_mult_self2 div_less gr_implies_not0 add_0 mod_mult_self1 mod_less mult.commute)

lemma pair_jobs_ids:
  assumes "length eps * length eps < 2 ^ 64"
  shows "map (unat \<circ> id_value \<circ> fst) (pair_jobs eps) =
    concat (map (\<lambda>i. map (\<lambda>j. i * length eps + j + 1) [i + 1..<length eps]) [0..<length eps])"
  unfolding pair_jobs_def map_concat map_map
  by (intro arg_cong [of _ _ concat] map_cong refl)
     (auto simp: pair_index_unat [OF assms])

lemma pair_jobs_distinct:
  assumes "length eps * length eps < 2 ^ 64"
  shows "distinct (map fst (pair_jobs eps))"
proof -
  have "distinct (map (unat \<circ> id_value \<circ> fst) (pair_jobs eps))"
    unfolding pair_jobs_ids [OF assms]
  proof (rule distinct_concat_map)
    fix i i' assume "i \<in> set [0..<length eps]" "i' \<in> set [0..<length eps]" "i \<noteq> i'"
    have False if "x \<in> set (map (\<lambda>j. i * length eps + j + 1) [i + 1..<length eps])"
      "x \<in> set (map (\<lambda>j. i' * length eps + j + 1) [i' + 1..<length eps])" for x
    proof -
      from that obtain j j' where "j < length eps" "j' < length eps"
        "i * length eps + j = i' * length eps + j'" by auto
      then show False using pair_index_inj \<open>i \<noteq> i'\<close> by blast
    qed
    then show "set (map (\<lambda>j. i * length eps + j + 1) [i + 1..<length eps]) \<inter>
        set (map (\<lambda>j. i' * length eps + j + 1) [i' + 1..<length eps]) = {}" by blast
  qed (simp_all add: distinct_map inj_on_def)
  then have "distinct (map (unat \<circ> id_value) (map fst (pair_jobs eps)))" by (simp add: comp_assoc)
  then show ?thesis by (simp only: distinct_map)
qed

lemma pair_jobs_bound:
  assumes "length eps * length eps < 2 ^ 64" and "job \<in> set (pair_jobs eps)"
  shows "unat (id_value (fst job)) \<le> length eps * length eps"
proof -
  have "unat (id_value (fst job)) \<in> set (map (unat \<circ> id_value \<circ> fst) (pair_jobs eps))"
    using assms(2) by force
  then obtain i j where ij: "i < length eps" "j < length eps"
    and id: "unat (id_value (fst job)) = i * length eps + j + 1"
    unfolding pair_jobs_ids [OF assms(1)] set_concat set_map by force
  have "(i + 1) * length eps \<le> length eps * length eps" using ij by (intro mult_right_mono) auto
  with ij id show ?thesis by simp
qed

lemma host_path_unat:
  "unat (id_value e) + 0xF0000000 < 2 ^ 64 \<Longrightarrow> unat (id_value (host_path_id e)) = unat (id_value e) + 0xF0000000"
  by (simp add: host_path_id_def unat_word_ariths)

lemma host_jobs_mem: "job \<in> set (host_jobs t eps) \<longleftrightarrow>
  (\<exists>e rc. e \<in> set eps \<and> root_complex_of t e = Some rc \<and> job = (host_path_id e, e, rc))"
  by (auto simp: host_jobs_def List.map_filter_def image_iff)

lemma endpoints_distinct:
  assumes "tp_inv t"
  shows "distinct (endpoints t)"
proof -
  let ?P = "\<lambda>kv. \<not> nd_removed (snd kv) \<and> is_endpoint_kind (nd_kind (snd kv))"
  have "mset (endpoints t) = mset (map fst (filter ?P (tp_nodes t)))" by (simp add: endpoints_def)
  moreover have "distinct (map fst (filter ?P (tp_nodes t)))"
    using assms by (intro distinct_map_filter om_wf_distinct) (simp add: tp_inv_def)
  ultimately show ?thesis by (metis mset_eq_imp_distinct_iff)
qed

lemma path_jobs_distinct:
  assumes "tp_inv t" and "jobs_fit t"
  shows "distinct (map fst (path_jobs t))"
proof -
  let ?eps = "endpoints t"
  have n: "length ?eps * length ?eps < 2 ^ 64" using assms(2) by (simp add: jobs_fit_def)
  have d: "distinct ?eps" by (rule endpoints_distinct [OF assms(1)])
  have e: "unat (id_value (host_path_id e)) = unat (id_value e) + 0xF0000000" if "e \<in> set ?eps" for e
    using assms(2) that by (intro host_path_unat) (simp add: jobs_fit_def list_all_iff)
  have inj: "inj_on host_path_id (set ?eps)"
    using e by (metis (no_types, lifting) inj_onI add_right_cancel strong_id.expand unsigned_word_eqI)
  have "map fst (host_jobs t ?eps) = map host_path_id (filter (\<lambda>e. root_complex_of t e \<noteq> None) ?eps)"
    unfolding host_jobs_def List.map_filter_def by (auto simp: comp_def)
  then have "distinct (map fst (host_jobs t ?eps))"
    using d inj by (auto simp: distinct_map intro: inj_on_subset)
  moreover have ne: "fst a \<noteq> fst b" if "a \<in> set (pair_jobs ?eps)" "b \<in> set (host_jobs t ?eps)" for a b
  proof -
    from that(2) obtain x rc where x: "x \<in> set ?eps" "b = (host_path_id x, x, rc)"
      by (auto simp: host_jobs_mem)
    have "unat (id_value (fst a)) < 0xF0000000"
      using pair_jobs_bound [OF n that(1)] assms(2) by (simp add: jobs_fit_def)
    moreover have "0xF0000000 \<le> unat (id_value (fst b))" using e [OF x(1)] x(2) by simp
    ultimately show ?thesis by auto
  qed
  ultimately show ?thesis
    using pair_jobs_distinct [OF n] ne unfolding path_jobs_def map_append distinct_append set_map by blast
qed

text \<open>
  A build leaves, for every pair of endpoints in BDF order and for every endpoint under a root
  complex, a current path of the runtime's authority.
\<close>

lemma concat_map_mem:
  "i \<in> set xs \<Longrightarrow> j \<in> set (g i) \<Longrightarrow> f i j \<in> set (concat (map (\<lambda>i. map (f i) (g i)) xs))"
  by auto

lemma pair_jobs_mem:
  "i < j \<Longrightarrow> j < length eps \<Longrightarrow>
   (StrongId (of_nat i * of_nat (length eps) + of_nat j + 1), eps ! i, eps ! j) \<in> set (pair_jobs eps)"
  unfolding pair_jobs_def by (rule concat_map_mem) simp_all

lemma rt_build_job:
  assumes inv: "rt_inv s" and fit: "jobs_fit (rt_topology s)" and build: "rt_build_paths s = Some s'"
    and job: "job \<in> set (path_jobs (rt_topology s))"
  shows "\<exists>p. rt_find_path s' (fst job) = Some p \<and> built_by (rt_topology s) (rt_epoch s) (rt_boot s) job p"
proof -
  have "distinct (map fst (path_jobs (rt_topology s)))"
    using inv fit by (intro path_jobs_distinct) (simp_all add: rt_inv_def)
  moreover obtain ps where "run_jobs (rt_topology s) (rt_epoch s) (rt_boot s) (path_jobs (rt_topology s)) (rt_paths s) = Some ps"
    "s' = s\<lparr>rt_paths := ps\<rparr>"
    using build by (auto simp: rt_build_paths_def)
  ultimately show ?thesis using job run_jobs_lookup by (simp add: rt_find_path_def)
qed

section \<open>Selection on the runtime\<close>

lemma rt_candidates_mem:
  assumes "rt_inv s"
  shows "p \<in> set (rt_candidates s src dst) \<longleftrightarrow>
    rt_find_path s (pa_id p) = Some p \<and> pa_source p = src \<and> pa_destination p = dst"
proof -
  have wf: "om_wf (rt_paths s)" and k: "\<forall>i q. om_lookup (rt_paths s) i = Some q \<longrightarrow> pa_id q = i"
    using assms by (simp_all add: rt_inv_def paths_inv_def)
  have "p \<in> snd ` set (rt_paths s) \<longleftrightarrow> om_lookup (rt_paths s) (pa_id p) = Some p"
  proof
    assume "p \<in> snd ` set (rt_paths s)"
    then obtain i where "(i, p) \<in> set (rt_paths s)" by auto
    then have "om_lookup (rt_paths s) i = Some p" by (rule om_in_set_lookup [OF wf])
    then show "om_lookup (rt_paths s) (pa_id p) = Some p" using k by auto
  next
    assume "om_lookup (rt_paths s) (pa_id p) = Some p"
    from om_lookup_in_set [OF this] show "p \<in> snd ` set (rt_paths s)" by force
  qed
  then show ?thesis by (auto simp: rt_candidates_def rt_find_path_def)
qed

lemma rt_select_sound:
  assumes "rt_inv s" and "rt_select s req = Some d" and "de_selected d = Some i"
  shows "\<exists>p. rt_find_path s i = Some p \<and> pa_source p = rq_source req \<and>
    pa_destination p = rq_destination req \<and> is_admissible req p \<and>
    (\<forall>q \<in> set (rt_candidates s (rq_source req) (rq_destination req)).
       is_admissible req q \<longrightarrow> \<not> ranks_before req q p)"
proof -
  obtain p where "p \<in> set (rt_candidates s (rq_source req) (rq_destination req))" "pa_id p = i"
    "is_admissible req p" "\<forall>q \<in> set (rt_candidates s (rq_source req) (rq_destination req)).
       is_admissible req q \<longrightarrow> \<not> ranks_before req q p"
    using select_best [OF assms(2) [unfolded rt_select_def] assms(3)] by blast
  then show ?thesis using rt_candidates_mem [OF assms(1)] by blast
qed

text \<open>A runtime whose authority has moved on selects nothing built before, until it builds again.\<close>

lemma rt_select_other_authority:
  assumes sel: "rt_select s req = Some d"
    and old: "\<forall>p \<in> set (rt_all_paths s). \<not> authority_matches p (rq_epoch req) (rq_boot req)"
  shows "de_selected d = None \<and> de_decision d = Dec_REJECT"
proof -
  have "\<not> list_ex (is_admissible req) (rt_candidates s a b)" "\<not> list_ex (is_deferred req) (rt_candidates s a b)"
    for a b
    using old by (auto simp: list_ex_iff rt_candidates_def rt_all_paths_def sel_classes path_auth_def
        authority_matches_def)
  with select_decision_of [OF sel [unfolded rt_select_def]] show ?thesis by (simp add: decision_of_def)
qed

text \<open>
  Paths are built from the endpoint with the smaller BDF to the one with the greater, and from an
  endpoint to its root complex, never the other way.
\<close>

lemma rt_build_sources:
  assumes inv: "rt_inv s" and fit: "jobs_fit (rt_topology s)" and empty: "rt_paths s = []"
    and build: "rt_build_paths s = Some s'" and p: "p \<in> set (rt_all_paths s')"
  shows "\<exists>job \<in> set (path_jobs (rt_topology s)). pa_source p = fst (snd job) \<and> pa_destination p = snd (snd job)"
proof -
  obtain ps where ps: "run_jobs (rt_topology s) (rt_epoch s) (rt_boot s) (path_jobs (rt_topology s)) [] = Some ps"
    "rt_paths s' = ps"
    using build empty by (auto simp: rt_build_paths_def)
  have d: "distinct (map fst (path_jobs (rt_topology s)))"
    using inv fit by (intro path_jobs_distinct) (simp_all add: rt_inv_def)
  have wf: "om_wf ps" using run_jobs_inv [OF _ ps(1)] by (simp add: paths_inv_def)
  from p ps(2) obtain i where "(i, p) \<in> set ps" by (auto simp: rt_all_paths_def)
  then have l: "om_lookup ps i = Some p" by (rule om_in_set_lookup [OF wf])
  note look = run_jobs_lookup [OF ps(1) d]
  from l look have "i \<in> fst ` set (path_jobs (rt_topology s))" by (metis om_lookup_simps(1) option.distinct(1))
  then obtain job where job: "job \<in> set (path_jobs (rt_topology s))" "fst job = i" by blast
  obtain q where "om_lookup ps (fst job) = Some q" "built_by (rt_topology s) (rt_epoch s) (rt_boot s) job q"
    using look job(1) by blast
  then have "built_by (rt_topology s) (rt_epoch s) (rt_boot s) job p" using l job(2) by simp
  then have "pa_source p = fst (snd job) \<and> pa_destination p = snd (snd job)"
    by (cases job) (simp add: built_by_def)
  with job(1) show ?thesis by blast
qed

lemma concat_map_memD:
  "x \<in> set (concat (map (\<lambda>i. map (f i) (g i)) xs)) \<Longrightarrow> \<exists>i \<in> set xs. \<exists>j \<in> set (g i). x = f i j"
  by auto

lemma pair_jobs_order:
  assumes "job \<in> set (pair_jobs eps)"
  shows "\<exists>i j. i < j \<and> j < length eps \<and> snd job = (eps ! i, eps ! j)"
proof -
  from concat_map_memD [OF assms [unfolded pair_jobs_def]] obtain i j
    where "j \<in> set [i + 1..<length eps]" "snd job = (eps ! i, eps ! j)" by force
  then show ?thesis by (intro exI [of _ i] exI [of _ j]) auto
qed

lemma root_complex_not_endpoint:
  "root_complex_of t e = Some rc \<Longrightarrow> \<exists>n. om_lookup (tp_nodes t) rc = Some n \<and> is_root_kind (nd_kind n)"
  by (auto simp: root_complex_of_def find_Some_iff split: option.splits)

lemma endpoint_kind:
  assumes "tp_inv t" and "e \<in> set (endpoints t)"
  shows "\<exists>n. om_lookup (tp_nodes t) e = Some n \<and> is_endpoint_kind (nd_kind n)"
  using endpoints_sorted [OF assms(1)] assms(2) by fastforce

lemma rt_build_one_way:
  assumes inv: "rt_inv s" and fit: "jobs_fit (rt_topology s)" and empty: "rt_paths s = []"
    and build: "rt_build_paths s = Some s'"
    and ij: "i < j" "j < length (endpoints (rt_topology s))"
  shows "rt_candidates s' (endpoints (rt_topology s) ! j) (endpoints (rt_topology s) ! i) = []"
proof (rule ccontr)
  let ?t = "rt_topology s" and ?eps = "endpoints (rt_topology s)"
  have t: "tp_inv ?t" using inv by (simp add: rt_inv_def)
  assume "rt_candidates s' (?eps ! j) (?eps ! i) \<noteq> []"
  then obtain p where p: "p \<in> set (rt_all_paths s')" "pa_source p = ?eps ! j" "pa_destination p = ?eps ! i"
    by (auto simp: rt_candidates_def rt_all_paths_def filter_empty_conv)
  obtain job where job: "job \<in> set (path_jobs ?t)" "fst (snd job) = ?eps ! j" "snd (snd job) = ?eps ! i"
    using rt_build_sources [OF inv fit empty build p(1)] p(2,3) by auto
  have idx: "?eps ! a = ?eps ! b \<longleftrightarrow> a = b" if "a < length ?eps" "b < length ?eps" for a b
    using endpoints_distinct [OF t] that by (simp add: nth_eq_iff_index_eq)
  from job(1) consider "job \<in> set (pair_jobs ?eps)" | "job \<in> set (host_jobs ?t ?eps)"
    by (auto simp: path_jobs_def)
  then show False
  proof cases
    case 1
    from pair_jobs_order [OF this] obtain a b where "a < b" "b < length ?eps" "?eps ! a = ?eps ! j" "?eps ! b = ?eps ! i"
      using job by auto
    then show False using idx ij by auto
  next
    case 2
    then have "\<exists>e. root_complex_of ?t e = Some (?eps ! i)" using job by (auto simp: host_jobs_mem)
    moreover have "?eps ! i \<in> set ?eps" using ij by auto
    ultimately show False
      using root_complex_not_endpoint endpoint_kind [OF t] by (fastforce simp: is_root_kind_def is_endpoint_kind_def)
  qed
qed

section \<open>Ageing\<close>

text \<open>
  A path built as current is \<open>AGING\<close> after the first pass and \<open>STALE\<close> from the 62nd on; the age
  counts the passes.
\<close>

definition aged_state :: "nat \<Rightarrow> Freshness" where
  "aged_state k = (if k = 0 then Fresh_CURRENT else if k \<le> 61 then Fresh_AGING else Fresh_STALE)"

lemma fr_new_simps [simp]: "fr_state (FreshnessRecord_new f a) = f" "fr_age_ms (FreshnessRecord_new f a) = a"
  by (simp_all add: FreshnessRecord_new_def)

lemma age_counter: "k < 2 ^ 64 \<Longrightarrow> (60::u64) < of_nat k \<longleftrightarrow> 60 < k"
  by (simp add: word_less_nat_alt unat_of_nat)

lemma age_record_iterate:
  "k < 2 ^ 64 \<Longrightarrow> (age_record ^^ k) (FreshnessRecord_new Fresh_CURRENT 0) = FreshnessRecord_new (aged_state k) (of_nat k)"
proof (induction k)
  case (Suc k)
  have "(60::u64) < of_nat k \<longleftrightarrow> 60 < k" using Suc.prems by (intro age_counter) simp
  with Suc show ?case by (auto simp: age_record_def aged_state_def add.commute)
qed (simp add: aged_state_def)

lemma om_map_values_comp: "om_map_values f (om_map_values g m) = om_map_values (f \<circ> g) m"
  by (simp add: om_map_values_def)

lemma rt_age_iterate:
  "(rt_age_freshness ^^ k) s = s\<lparr>rt_paths :=
     om_map_values (\<lambda>p. p\<lparr>pa_freshness := (age_record ^^ k) (pa_freshness p)\<rparr>) (rt_paths s)\<rparr>"
proof (induction k)
  case (Suc k)
  then show ?case by (simp add: rt_age_freshness_def om_map_values_comp comp_def)
qed (simp add: om_map_values_def)

lemma rt_age_find:
  assumes "rt_find_path s i = Some p" and "pa_freshness p = FreshnessRecord_new Fresh_CURRENT 0" and "k < 2 ^ 64"
  shows "\<exists>q. rt_find_path ((rt_age_freshness ^^ k) s) i = Some q \<and>
    pa_freshness q = FreshnessRecord_new (aged_state k) (of_nat k) \<and> (path_fresh q \<longleftrightarrow> k \<le> 61)"
  using assms by (auto simp: rt_find_path_def rt_age_iterate age_record_iterate path_fresh_def aged_state_def
      freshness_rank_def)

section \<open>Reservations under the runtime's authority\<close>

lemma rt_release_fenced:
  assumes "fst (rt_release i gen s) = Success ()"
  shows "\<exists>r. rg_get (rt_reservations s) i = Some r \<and> rs_active r \<and> rs_generation r = gen \<and>
    rs_boot r = rt_boot s \<and> rs_epoch r = rt_epoch s"
  using assms
  by (cases rule: rg_release_cases [of i "rt_boot s" gen "rt_epoch s" "rt_reservations s"])
     (auto simp: rt_release_def rg_get_def)

text \<open>A reservation of an earlier epoch is refused, and stays held.\<close>

lemma rt_release_other_epoch:
  assumes "rg_get (rt_reservations s) i = Some r" and "\<not> rs_released r"
    and "rs_epoch r \<noteq> rt_epoch s \<or> rs_boot r \<noteq> rt_boot s"
  shows "\<exists>c m. rt_release i gen s = (Err c m, s) \<and> c \<in> {EC_STALE_BOOT, EC_STALE_EPOCH, EC_STALE_AUTHORITY}"
  using assms by (auto simp: rt_release_def rg_release_def rg_get_def)

section \<open>Measurements\<close>

lemma count_none: "(\<forall>m \<in> set (ms_all s). ms_path m = Some q) \<Longrightarrow> p \<noteq> q \<Longrightarrow> count_for_path s p = 0"
  by (auto simp: count_for_path_def ms_all_def filter_empty_conv)

text \<open>The store of a runtime knows no measurement of any real path.\<close>

lemma rt_no_path_measurements: "rt_inv s \<Longrightarrow> p \<noteq> StrongId 0 \<Longrightarrow> count_for_path (rt_measurements s) p = 0"
  by (rule count_none [of _ "StrongId 0"]) (simp_all add: rt_inv_def)

lemma rt_refresh_find:
  "rt_find_path (rt_refresh_measured s) i = map_option (refresh_path (rt_measurements s)) (rt_find_path s i)"
  by (simp add: rt_find_path_def rt_refresh_measured_def)

lemma refresh_path_measured:
  assumes "best_evidence ms p = Some m"
  shows "pa_measured_bps (refresh_path ms p) = Some (throughput m) \<and>
    pa_measured_prov (refresh_path ms p) = Prov_MEASURED \<and>
    m \<in> set (ms_all ms) \<and> ms_source m = pa_source p \<and> ms_destination m = pa_destination p \<and>
    ms_transfer_class m \<in> {TC_PINNED_H2D, TC_PAGEABLE_H2D}"
  using assms by (auto simp: refresh_path_def pa_set_best_measured_def best_evidence_def ms_matches_def
      split: option.splits dest: ms_latest_Some)

section \<open>Saving and loading\<close>

lemma snapshot_of_fields:
  "snapshot_of e q t ps ms = Some sn \<Longrightarrow>
   sn_epoch sn = e \<and> sn_sequence sn = q \<and> sn_nodes sn = List.map_filter (tp_node t) (all_nodes t) \<and>
   sn_paths sn = map snd ps \<and> sn_measurements sn = ms_all ms \<and> sn_reservations sn = [] \<and> sn_policies sn = []"
  by (auto simp: snapshot_of_def Let_def Snapshot_default_def)

lemma ms_inv_distinct: "ms_inv s \<Longrightarrow> distinct (map ms_id (ms_all s))"
proof -
  assume s: "ms_inv s"
  then have "map ms_id (ms_all s) = map fst s"
    by (auto simp: ms_inv_def ms_all_def dest: om_in_set_lookup)
  then show ?thesis using s by (metis ms_inv_def om_wf_distinct)
qed

lemma rt_snapshot_unique: "rt_inv s \<Longrightarrow> rt_snapshot s = Some sn \<Longrightarrow> unique_ids sn"
  using snapshot_of_fields [of "rt_epoch s" "rt_topology_seq s" "rt_topology s" "rt_paths s" "rt_measurements s" sn]
    paths_inv_distinct [of "rt_paths s"] ms_inv_distinct [of "rt_measurements s"]
  by (simp add: rt_snapshot_def unique_ids_def rt_inv_def)

lemma rt_save_success:
  assumes "rt_save f path s d = Some (Success (), d')" and "rt_snapshot s = Some sn"
    and "snapshot_short sn" and "length (stream_bytes sn) \<le> 262144"
  shows "load path d' = deserialize (stream_bytes sn)"
proof -
  have "save_file f path (file_bytes (stream_bytes sn)) d = (Success (), d')"
    using assms by (simp add: rt_save_def save_def serialize_bytes)
  then show ?thesis by (rule save_load_file) (use assms(4) in simp)
qed

text \<open>
  A saved runtime with two nodes or more cannot be loaded: the encoder leaves out the node ids, so
  the decoder sees a duplicate. The loading runtime is unchanged.
\<close>

lemma rt_save_load_fails:
  assumes "rt_save f path s d = Some (Success (), d')" and "rt_snapshot s = Some sn"
    and "snapshot_short sn" and "length (stream_bytes sn) \<le> 262144" and "2 \<le> length (sn_nodes sn)"
  shows "rt_load path d' s' = (Fail EC_DUPLICATE_IDENTITY ''duplicate node id'', s')"
proof -
  have "deserialize (stream_bytes sn) = Fail EC_DUPLICATE_IDENTITY ''duplicate node id''"
    using stream_body_dup [OF assms(3,4,5)] by (simp add: deserialize_def rd_run_def rd_open_def)
  then show ?thesis using rt_save_success [OF assms(1-4)] by (simp add: rt_load_def)
qed

text \<open>With one node at most the paths come back, every one to be revalidated before use.\<close>

lemma rt_save_load:
  assumes inv: "rt_inv s" and sv: "rt_save f path s d = Some (Success (), d')" and sn: "rt_snapshot s = Some sn"
    and short: "snapshot_short sn" "length (stream_bytes sn) \<le> 262144" "length (sn_nodes sn) \<le> 1"
    and dig: "semantic_digest (norm_snapshot sn) \<noteq> None"
  shows "\<exists>sn'. rt_load path d' s' = (Done sn', rt_install sn' s') \<and>
    sn_paths sn' = map (\<lambda>p. revalidate_path (norm_path p)) (rt_all_paths s) \<and>
    sn_measurements sn' = map norm_measurement (ms_all (rt_measurements s)) \<and> sn_epoch sn' = rt_epoch s"
proof -
  obtain r where "stream_body (Rd 0 (stream_bytes sn)) = Done (norm_snapshot sn, r)"
    using stream_body_read [OF short(1,2) rt_snapshot_unique [OF inv sn] short(3)] by blast
  then obtain g where "deserialize (stream_bytes sn) = Done ((norm_snapshot sn)\<lparr>sn_digest := g\<rparr>)"
    using dig by (auto simp: deserialize_def rd_run_def rd_open_def)
  then have "rt_load path d' s' = (let sn' = mark_physical_revalidation_required ((norm_snapshot sn)\<lparr>sn_digest := g\<rparr>)
      in (Done sn', rt_install sn' s'))"
    using rt_save_success [OF sv sn short(1,2)] by (simp add: rt_load_def)
  then show ?thesis
    using snapshot_of_fields [OF sn [unfolded rt_snapshot_def]]
    by (simp add: Let_def mark_physical_revalidation_required_def norm_snapshot_def Snapshot_default_def
        rt_all_paths_def)
qed

lemma restore_paths_mem: "(i, p) \<in> set (restore_paths ps m) \<Longrightarrow> p \<in> set ps \<or> p \<in> snd ` set m"
proof (induction ps arbitrary: m)
  case (Cons q ps)
  from Cons.IH [of "om_insert (pa_id q) q m"] Cons.prems
  show ?case using set_om_insert [of "pa_id q" q m] by (auto simp: restore_paths_def)
qed (force simp: restore_paths_def)

text \<open>Whatever is loaded, no recovered path is selectable.\<close>

lemma rt_load_unusable:
  assumes "rt_load path d s = (Done sn, s')" and "p \<in> set (rt_all_paths s')"
  shows "\<not> path_fresh p"
proof -
  obtain sn0 where "sn = mark_physical_revalidation_required sn0" "s' = rt_install sn s"
    using assms(1) by (auto simp: rt_load_def Let_def split: outcome.splits)
  with assms(2) have "p \<in> set (sn_paths (mark_physical_revalidation_required sn0))"
    by (auto simp: rt_all_paths_def rt_install_def dest: restore_paths_mem)
  then show ?thesis
    by (auto simp: mark_physical_revalidation_required_def revalidate_path_def path_fresh_def freshness_rank_def
        split: if_splits)
qed

lemma rt_snapshot_total:
  assumes "\<forall>p \<in> set (rt_all_paths s). pa_theoretical p = None"
    and "\<forall>m \<in> set (ms_all (rt_measurements s)). f64_to_u64 (throughput m) \<noteq> None"
  shows "\<exists>sn. rt_snapshot s = Some sn"
proof -
  have "\<exists>d. semantic_digest (Snapshot_default\<lparr>sn_epoch := rt_epoch s, sn_sequence := rt_topology_seq s,
      sn_nodes := List.map_filter (tp_node (rt_topology s)) (all_nodes (rt_topology s)),
      sn_paths := map snd (rt_paths s), sn_measurements := ms_all (rt_measurements s)\<rparr>) = Some d"
    by (rule digest_total) (use assms in \<open>simp_all add: rt_all_paths_def\<close>)
  then show ?thesis by (auto simp: rt_snapshot_def snapshot_of_def Let_def)
qed

end
