(* ===== verification/PF_Transport.thy ===== *)
theory PF_Transport
  imports PF_Protocol
begin

text \<open>
  Frame-level socket I/O, \<open>src/pciefabric/tcp.cpp\<close>: \<open>send_all\<close>, \<open>recv_some\<close>, \<open>write_frame\<close> and
  \<open>read_frame\<close>. The operating system decides what every \<open>send\<close> and \<open>recv\<close> call does; its choices
  are two scripts in the socket. A received chunk that is longer than the caller's buffer stays
  in the script for the next call; at the end of the script the peer has closed the connection, so
  \<open>recv\<close> returns 0 for ever. The sockets are blocking and have no receive timeout, so with a peer that
  stays connected and sends nothing more a call of \<open>recv\<close> at the end of the script does not return:
  \<open>read_waits\<close> says which calls of \<open>read_frame\<close> come to that, and the server's threads and the worker
  command of the tool ask it. At the end of the send script \<open>send\<close> accepts everything; a \<open>send\<close> that
  waits for a peer that reads nothing is not modelled.
\<close>

section \<open>Sockets\<close>

datatype recv_event =
    RecvData bytes  \<comment> \<open>bytes have arrived\<close>
  | RecvClosed      \<comment> \<open>\<open>recv\<close> returns 0\<close>
  | RecvNoData      \<comment> \<open>\<open>SOCKET_ERROR\<close> with \<open>WSAETIMEDOUT\<close> or \<open>WSAEWOULDBLOCK\<close>\<close>
  | RecvFailed      \<comment> \<open>\<open>SOCKET_ERROR\<close> with another error\<close>

datatype send_event =
    SendSome nat    \<comment> \<open>\<open>send\<close> accepts so many bytes and one more\<close>
  | SendClosed      \<comment> \<open>\<open>send\<close> returns 0\<close>
  | SendFailed      \<comment> \<open>\<open>SOCKET_ERROR\<close>\<close>

text \<open>A socket handle; \<open>invalid()\<close> is the largest \<open>uintptr_t\<close>.\<close>

type_synonym handle = u64

definition invalid_fd :: handle where
  "invalid_fd = - 1"

record TcpSocket =
  sk_fd :: handle
  sk_in :: "recv_event list"
  sk_script :: "send_event list"
  sk_out :: bytes

definition sk_valid :: "TcpSocket \<Rightarrow> bool" where
  "sk_valid s = (sk_fd s \<noteq> invalid_fd)"

lemma sk_valid_update [simp]:
  "sk_valid (s\<lparr>sk_in := es\<rparr>) = sk_valid s"
  "sk_valid (s\<lparr>sk_script := ss\<rparr>) = sk_valid s"
  "sk_valid (s\<lparr>sk_out := bs\<rparr>) = sk_valid s"
  "sk_valid (s\<lparr>sk_fd := h\<rparr>) = (h \<noteq> invalid_fd)"
  by (simp_all add: sk_valid_def)

text \<open>\<open>TcpSocket()\<close>.\<close>

definition TcpSocket_new :: TcpSocket where
  "TcpSocket_new = \<lparr>sk_fd = invalid_fd, sk_in = [], sk_script = [], sk_out = []\<rparr>"

lemma TcpSocket_new_invalid [simp]: "\<not> sk_valid TcpSocket_new"
  by (simp add: TcpSocket_new_def sk_valid_def)

section \<open>Sending\<close>

text \<open>
  The loop of \<open>send_all\<close>: result, bytes that left, rest of the script. The length goes to \<open>send\<close> as an
  \<open>int\<close>; the model is of buffers below 2 GiB, for which this is no restriction.
\<close>

fun send_loop :: "send_event list \<Rightarrow> bytes \<Rightarrow> unit Result \<times> bytes \<times> send_event list" where
  "send_loop es [] = (Success (), [], es)"
| "send_loop [] (b # bs) = (Success (), b # bs, [])"
| "send_loop (SendFailed # es) (b # bs) = (Err EC_NETWORK_ERROR ''send failed'', [], es)"
| "send_loop (SendClosed # es) (b # bs) = (Err EC_PEER_LOST ''peer closed on send'', [], es)"
| "send_loop (SendSome k # es) (b # bs) = (case send_loop es (drop k bs) of
     (r, sent, es') \<Rightarrow> (r, b # take k bs @ sent, es'))"

definition send_all :: "bytes \<Rightarrow> TcpSocket \<Rightarrow> unit Result \<times> TcpSocket" where
  "send_all data s =
     (if \<not> sk_valid s then (Err EC_NETWORK_ERROR ''socket not open'', s)
      else case send_loop (sk_script s) data of
        (r, sent, es) \<Rightarrow> (r, s\<lparr>sk_script := es, sk_out := sk_out s @ sent\<rparr>))"

definition write_frame :: "Frame \<Rightarrow> TcpSocket \<Rightarrow> unit Result \<times> TcpSocket" where
  "write_frame f s = send_all (frame_encode f) s"

section \<open>Receiving\<close>

fun recv_call :: "nat \<Rightarrow> recv_event list \<Rightarrow> bytes Result \<times> recv_event list" where
  "recv_call n [] = (Success [], [])"
| "recv_call n (RecvData bs # es) =
     (if bs = [] then recv_call n es
      else if length bs \<le> n then (Success bs, es)
      else (Success (take n bs), RecvData (drop n bs) # es))"
| "recv_call n (RecvClosed # es) = (Success [], es)"
| "recv_call n (RecvNoData # es) = (Success [], es)"
| "recv_call n (RecvFailed # es) = (Err EC_NETWORK_ERROR ''recv failed'', es)"

definition recv_some :: "nat \<Rightarrow> TcpSocket \<Rightarrow> bytes Result \<times> TcpSocket" where
  "recv_some n s =
     (if \<not> sk_valid s then (Err EC_NETWORK_ERROR ''socket not open'', s)
      else case recv_call n (sk_in s) of (r, es) \<Rightarrow> (r, s\<lparr>sk_in := es\<rparr>))"

lemma recv_some_length: "recv_some n s = (Success bs, s') \<Longrightarrow> length bs \<le> n"
proof -
  have "recv_call n es = (Success bs, es') \<Longrightarrow> length bs \<le> n" for es es'
    by (induction n es rule: recv_call.induct) (auto split: if_splits)
  then show "recv_some n s = (Success bs, s') \<Longrightarrow> length bs \<le> n"
    by (auto simp: recv_some_def split: if_splits prod.splits)
qed

text \<open>
  The two receive loops of \<open>read_frame\<close>: as long as bytes are wanted, ask for all that are missing.
  Each round that goes on has received something, so the loop ends.
\<close>

function recv_exact :: "string \<Rightarrow> nat \<Rightarrow> TcpSocket \<Rightarrow> bytes Result \<times> TcpSocket" where
  "recv_exact closed n s =
     (if n = 0 then (Success [], s) else
      case recv_some n s of
        (Err c m, s') \<Rightarrow> (Err c m, s')
      | (Success bs, s') \<Rightarrow>
          if bs = [] then (Err EC_PEER_LOST closed, s')
          else case recv_exact closed (n - length bs) s' of
            (Err c m, s'') \<Rightarrow> (Err c m, s'')
          | (Success rest, s'') \<Rightarrow> (Success (bs @ rest), s''))"
  by pat_completeness auto

termination by (relation "measure (\<lambda>(c, n, s). n)") auto

declare recv_exact.simps [simp del]

definition header_length :: "bytes \<Rightarrow> u64" where
  "header_length h = fold (\<lambda>i len. len OR push_bit (i * 8) (ucast (h ! (9 + i)))) [0..<8] 0"

definition read_frame :: "TcpSocket \<Rightarrow> Frame outcome \<times> TcpSocket" where
  "read_frame s = (case recv_exact ''connection closed'' 21 s of
      (Err c m, s1) \<Rightarrow> (Fail c m, s1)
    | (Success header, s1) \<Rightarrow>
      let plen = unat (header_length header) in
      if plen > kMaxPayload then (Fail EC_PROTOCOL_OVERFLOW ''payload too large'', s1)
      else case recv_exact ''connection closed mid-frame'' plen s1 of
        (Err c m, s2) \<Rightarrow> (Fail c m, s2)
      | (Success payload, s2) \<Rightarrow> (frame_decode (header @ payload), s2))"

section \<open>Waiting for a silent peer\<close>

text \<open>Nothing is left of a script but empty chunks: the next \<open>recv\<close> is at its end.\<close>

definition silent :: "recv_event list \<Rightarrow> bool" where
  "silent es = list_all (\<lambda>e. e = RecvData []) es"

lemma silent_simps [simp]: "silent []" "silent (e # es) = (e = RecvData [] \<and> silent es)"
  by (simp_all add: silent_def)

text \<open>Whether a receive loop, and \<open>read_frame\<close>, come to a \<open>recv\<close> at the end of the script.\<close>

function recv_waits :: "nat \<Rightarrow> TcpSocket \<Rightarrow> bool" where
  "recv_waits n s =
     (if n = 0 \<or> \<not> sk_valid s then False
      else if silent (sk_in s) then True
      else case recv_some n s of
        (Err c m, s') \<Rightarrow> False
      | (Success bs, s') \<Rightarrow> if bs = [] then False else recv_waits (n - length bs) s')"
  by pat_completeness auto

termination by (relation "measure fst") auto

declare recv_waits.simps [simp del]

definition read_waits :: "TcpSocket \<Rightarrow> bool" where
  "read_waits s = (if recv_waits 21 s then True else case recv_exact ''connection closed'' 21 s of
      (Err c m, s1) \<Rightarrow> False
    | (Success header, s1) \<Rightarrow>
      let plen = unat (header_length header) in plen \<le> kMaxPayload \<and> recv_waits plen s1)"

section \<open>What a script delivers\<close>

fun delivered :: "recv_event list \<Rightarrow> bytes" where
  "delivered [] = []"
| "delivered (RecvData bs # es) = bs @ delivered es"
| "delivered (RecvClosed # es) = delivered es"
| "delivered (RecvNoData # es) = delivered es"
| "delivered (RecvFailed # es) = delivered es"

text \<open>Only data: no timeout, no failure and no end before the end of the script.\<close>

definition only_data :: "recv_event list \<Rightarrow> bool" where
  "only_data es = list_all (\<lambda>e. case e of RecvData bs \<Rightarrow> True | _ \<Rightarrow> False) es"

lemma only_data_simps [simp]:
  "only_data []" "only_data (RecvData bs # es) = only_data es"
  "\<not> only_data (RecvClosed # es)" "\<not> only_data (RecvNoData # es)" "\<not> only_data (RecvFailed # es)"
  by (simp_all add: only_data_def)

lemma recv_call_data:
  "only_data es \<Longrightarrow> 0 < n \<Longrightarrow> \<exists>bs es'. recv_call n es = (Success bs, es') \<and> only_data es' \<and>
    delivered es = bs @ delivered es' \<and> (bs = [] \<longleftrightarrow> delivered es = []) \<and> length bs \<le> n"
  by (induction n es rule: recv_call.induct) auto

text \<open>However the bytes are cut into chunks, the loop collects exactly the next \<open>n\<close>.\<close>

lemma recv_exact_data:
  "sk_valid s \<Longrightarrow> only_data (sk_in s) \<Longrightarrow> n \<le> length (delivered (sk_in s)) \<Longrightarrow>
   \<exists>es. recv_exact closed n s = (Success (take n (delivered (sk_in s))), s\<lparr>sk_in := es\<rparr>) \<and>
     only_data es \<and> delivered es = drop n (delivered (sk_in s))"
proof (induction n arbitrary: s rule: less_induct)
  case (less n)
  show ?case
  proof (cases "n = 0")
    case True
    with less.prems show ?thesis by (auto simp: recv_exact.simps intro: exI [of _ "sk_in s"])
  next
    case False
    then obtain bs es where r: "recv_call n (sk_in s) = (Success bs, es)" "only_data es"
      "delivered (sk_in s) = bs @ delivered es" "bs \<noteq> []" "length bs \<le> n"
      using recv_call_data [OF less.prems(2), of n] less.prems(3) by fastforce
    let ?s = "s\<lparr>sk_in := es\<rparr>"
    have "n - length bs < n" using False r(4) by (cases bs) auto
    moreover have "n - length bs \<le> length (delivered es)" using less.prems(3) r(3) by simp
    ultimately obtain es' where
      "recv_exact closed (n - length bs) ?s = (Success (take (n - length bs) (delivered es)), ?s\<lparr>sk_in := es'\<rparr>)"
      "only_data es'" "delivered es' = drop (n - length bs) (delivered es)"
      using less.IH [of "n - length bs" ?s] less.prems(1) r(2) by auto
    with False r less.prems(1) show ?thesis
      by (auto simp: recv_exact.simps [of closed n s] recv_some_def)
  qed
qed

lemma recv_exact_length: "recv_exact closed n s = (Success bs, s') \<Longrightarrow> length bs = n"
proof (induction closed n s arbitrary: bs s' rule: recv_exact.induct)
  case (1 closed n s)
  show ?case
  proof (cases "n = 0")
    case True
    with "1.prems" show ?thesis by (simp add: recv_exact.simps)
  next
    case False
    with "1.prems" obtain xs s1 rest where r: "recv_some n s = (Success xs, s1)" "xs \<noteq> []"
      "recv_exact closed (n - length xs) s1 = (Success rest, s')" "bs = xs @ rest"
      by (subst (asm) recv_exact.simps) (auto split: if_splits prod.splits Result.splits)
    from "1.IH" [OF False r(1) [symmetric] refl r(2,3)] recv_some_length [OF r(1)] r(4)
    show ?thesis by simp
  qed
qed

section \<open>Frames over a socket\<close>

lemma header_length_le:
  assumes "\<And>i. i < 8 \<Longrightarrow> h ! (9 + i) = le_bytes 8 v ! i"
  shows "header_length h = v"
proof -
  have l: "le_bytes 8 v = map (\<lambda>i. le_bytes 8 v ! i) [0..<8]"
    by (metis le_bytes_length map_nth)
  have "r_u64 (Rd 0 (map (\<lambda>i. le_bytes 8 v ! i) [0..<8])) = Done (header_length h, Rd 8 [])"
    using assms by (simp add: upt_rec header_length_def r_u64_def numeral_eq_Suc rd_bind_def)
  moreover have "r_u64 (Rd 0 (le_bytes 8 v)) = Done (v, Rd 8 [])"
    using r_u64_write [of 0 v "[]"] by (simp add: w_u64_def)
  ultimately show ?thesis using l by simp
qed

lemma header_length_encode:
  assumes "take 21 bs = take 21 (frame_encode f)"
  shows "header_length (take 21 bs) = of_nat (length (fm_payload f))"
proof (rule header_length_le)
  fix i :: nat assume i: "i < 8"
  let ?pre = "kMagic @ w_u32 kVersion @ w_u8 (MsgKind_code (fm_kind f))"
  let ?len = "le_bytes 8 (of_nat (length (fm_payload f)) :: u64)"
  have "frame_encode f = ?pre @ ?len @ w_u32 (crc32 (fm_payload f)) @ fm_payload f"
    by (simp add: frame_encode_def w_u64_def)
  moreover have nine: "length ?pre = 9" by simp
  ultimately have "frame_encode f ! (9 + i) = (?len @ w_u32 (crc32 (fm_payload f)) @ fm_payload f) ! i"
    using nth_append_length_plus [of ?pre _ i] by (simp only: nine)
  then have "frame_encode f ! (9 + i) = ?len ! i" using i by (simp only: nth_append le_bytes_length if_True)
  then show "take 21 bs ! (9 + i) = ?len ! i"
    using i unfolding assms by simp
qed

lemma header_21: "kHeaderSize = 21"
  by (simp add: kHeaderSize_def)

lemma frame_encode_min: "21 \<le> length (frame_encode f)"
  by (simp add: frame_encode_length kHeaderSize_def)

text \<open>
  A frame is read back from any stream that starts with its encoding, whatever the chunks, and
  the rest of the stream is left for the next call.
\<close>

lemma read_frame_data:
  assumes "sk_valid s" and "only_data (sk_in s)" and "delivered (sk_in s) = frame_encode f @ rest"
    and "length (fm_payload f) \<le> kMaxPayload"
  shows "\<exists>es. read_frame s = (Done f, s\<lparr>sk_in := es\<rparr>) \<and> only_data es \<and> delivered es = rest"
proof -
  let ?n = "length (fm_payload f)" and ?bs = "delivered (sk_in s)"
  have min: "21 \<le> length ?bs" using assms(3) frame_encode_min [of f] by simp
  obtain e1 where e1: "recv_exact ''connection closed'' 21 s = (Success (take 21 ?bs), s\<lparr>sk_in := e1\<rparr>)"
    "only_data e1" "delivered e1 = drop 21 ?bs"
    using recv_exact_data [OF assms(1,2) min] by blast
  have t: "take 21 ?bs = take 21 (frame_encode f)" "drop 21 ?bs = fm_payload f @ rest"
    using assms(3) frame_encode_min [of f] frame_header_drop [of f] by (simp_all add: kHeaderSize_def)
  have len: "unat (header_length (take 21 ?bs)) = ?n"
    using header_length_encode [OF t(1)] assms(4) by (simp add: unat_of_nat kMaxPayload_def)
  obtain e2 where e2: "recv_exact ''connection closed mid-frame'' ?n (s\<lparr>sk_in := e1\<rparr>) =
      (Success (fm_payload f), s\<lparr>sk_in := e2\<rparr>)" "only_data e2" "delivered e2 = rest"
    using recv_exact_data [of "s\<lparr>sk_in := e1\<rparr>" ?n] assms(1) e1(2,3) t(2) by auto
  have "take 21 ?bs @ fm_payload f = frame_encode f"
    unfolding t(1) using append_take_drop_id [of 21 "frame_encode f"] frame_header_drop [of f]
    by (simp only: header_21)
  then show ?thesis
    using e1 e2 len assms(4) frame_decode_encode [of f]
    by (intro exI [of _ e2]) (simp add: read_frame_def Let_def)
qed

text \<open>
  On data alone a receive loop waits exactly where less has arrived than it wants; so a frame that has
  arrived is read without waiting, and with less than a header the read waits.
\<close>

lemma silent_delivered: "only_data es \<Longrightarrow> silent es \<longleftrightarrow> delivered es = []"
  by (induction es rule: delivered.induct) auto

lemma recv_waits_data:
  "sk_valid s \<Longrightarrow> only_data (sk_in s) \<Longrightarrow> recv_waits n s \<longleftrightarrow> length (delivered (sk_in s)) < n"
proof (induction n arbitrary: s rule: less_induct)
  case (less n)
  show ?case
  proof (cases "n = 0 \<or> delivered (sk_in s) = []")
    case True
    with less.prems show ?thesis by (auto simp: recv_waits.simps [of n s] silent_delivered)
  next
    case False
    then obtain bs es where r: "recv_call n (sk_in s) = (Success bs, es)" "only_data es"
      "delivered (sk_in s) = bs @ delivered es" "bs \<noteq> []" "length bs \<le> n"
      using recv_call_data [OF less.prems(2), of n] by fastforce
    have "n - length bs < n" using False r(4) by (cases bs) auto
    from less.IH [OF this, of "sk_in_update (\<lambda>_. es) s"] less.prems r False show ?thesis
      by (auto simp: recv_waits.simps [of n s] recv_some_def silent_delivered)
  qed
qed

lemma read_waits_short:
  "sk_valid s \<Longrightarrow> only_data (sk_in s) \<Longrightarrow> length (delivered (sk_in s)) < 21 \<Longrightarrow> read_waits s"
  by (simp add: read_waits_def recv_waits_data)

lemma read_waits_frame:
  assumes "sk_valid s" and "only_data (sk_in s)" and "delivered (sk_in s) = frame_encode f @ rest"
    and "length (fm_payload f) \<le> kMaxPayload"
  shows "\<not> read_waits s"
proof -
  let ?bs = "delivered (sk_in s)"
  have min: "21 \<le> length ?bs" using assms(3) frame_encode_min [of f] by simp
  obtain e1 where e1: "recv_exact ''connection closed'' 21 s = (Success (take 21 ?bs), s\<lparr>sk_in := e1\<rparr>)"
    "only_data e1" "delivered e1 = drop 21 ?bs"
    using recv_exact_data [OF assms(1,2) min] by blast
  have t: "take 21 ?bs = take 21 (frame_encode f)" "drop 21 ?bs = fm_payload f @ rest"
    using assms(3) frame_encode_min [of f] frame_header_drop [of f] by (simp_all add: kHeaderSize_def)
  have "unat (header_length (take 21 ?bs)) = length (fm_payload f)"
    using header_length_encode [OF t(1)] assms(4) by (simp add: unat_of_nat kMaxPayload_def)
  with min e1 t(2) assms(1,2) show ?thesis by (simp add: read_waits_def recv_waits_data Let_def)
qed

text \<open>A stream of frames, cut anywhere, is read back frame by frame.\<close>

fun read_frames :: "nat \<Rightarrow> TcpSocket \<Rightarrow> Frame outcome list \<times> TcpSocket" where
  "read_frames 0 s = ([], s)"
| "read_frames (Suc n) s = (case read_frame s of (r, s') \<Rightarrow> case read_frames n s' of (rs, s'') \<Rightarrow> (r # rs, s''))"

lemma read_frames_data:
  "sk_valid s \<Longrightarrow> only_data (sk_in s) \<Longrightarrow> delivered (sk_in s) = concat (map frame_encode fs) @ rest \<Longrightarrow>
   list_all (\<lambda>f. length (fm_payload f) \<le> kMaxPayload) fs \<Longrightarrow>
   \<exists>es. read_frames (length fs) s = (map Done fs, s\<lparr>sk_in := es\<rparr>) \<and> only_data es \<and> delivered es = rest"
proof (induction fs arbitrary: s)
  case Nil
  then show ?case by (intro exI [of _ "sk_in s"]) simp
next
  case (Cons f fs)
  from Cons.prems obtain e where e: "read_frame s = (Done f, s\<lparr>sk_in := e\<rparr>)" "only_data e"
    "delivered e = concat (map frame_encode fs) @ rest"
    using read_frame_data [of s f "concat (map frame_encode fs) @ rest"] by auto
  from Cons.IH [of "s\<lparr>sk_in := e\<rparr>"] Cons.prems(1,4) e(2,3) obtain es where
    "read_frames (length fs) (s\<lparr>sk_in := e\<rparr>) = (map Done fs, s\<lparr>sk_in := es\<rparr>)" "only_data es" "delivered es = rest"
    by auto
  with e(1) show ?case by auto
qed

section \<open>Errors\<close>

lemma rd_times_u8_defined: "rd_times n r_u8 r \<noteq> Undef"
  by (induction n arbitrary: r) (auto simp: rd_bind_def r_u8_def split: outcome.splits list.splits)

lemma r_le_defined: "r_le n i v r \<noteq> Undef"
  by (induction n arbitrary: i v r) (auto simp: rd_bind_def r_u8_def split: outcome.splits list.splits)

lemma frame_decode_defined: "frame_decode buf \<noteq> Undef"
proof -
  have "frame_body buf r \<noteq> Undef" for r
    by (auto simp: frame_body_def rd_bind_def r_u32_def r_u64_def r_u8_def rd_times_u8_defined r_le_defined
        split: outcome.splits option.splits list.splits)
  then show ?thesis by (auto simp: frame_decode_def rd_run_def split: outcome.splits)
qed

text \<open>Reading a frame never leaves its buffers, and an accepted frame is an encoding.\<close>

lemma read_frame_defined: "fst (read_frame s) \<noteq> Undef"
  by (auto simp: read_frame_def Let_def frame_decode_defined split: prod.splits Result.splits)

lemma read_frame_sound:
  assumes "read_frame s = (Done f, s')"
  shows "length (fm_payload f) \<le> kMaxPayload"
  using assms by (auto simp: read_frame_def Let_def split: prod.splits Result.splits if_splits
      dest: frame_decode_sound)

text \<open>
  A call of \<open>recv\<close> that times out is taken for the end of the connection, also in the middle of a
  frame whose bytes then stay lost.
\<close>

lemma recv_exact_no_data:
  assumes "sk_valid s" and "sk_in s = RecvData bs # RecvNoData # es" and "length bs < n"
  shows "recv_exact closed n s = (Err EC_PEER_LOST closed, s\<lparr>sk_in := es\<rparr>)"
  using assms by (cases "bs = []") (simp_all add: recv_exact.simps recv_some_def)

lemma read_frame_no_data:
  assumes "sk_valid s" and "sk_in s = RecvData bs # RecvNoData # es" and "length bs < 21"
  shows "read_frame s = (Fail EC_PEER_LOST ''connection closed'', s\<lparr>sk_in := es\<rparr>)"
  using recv_exact_no_data [OF assms] by (simp add: read_frame_def)

text \<open>A frame announced as too large is refused with its payload still to be read.\<close>

lemma read_frame_oversize:
  assumes "sk_valid s" and "only_data (sk_in s)" and "21 \<le> length (delivered (sk_in s))"
    and "kMaxPayload < unat (header_length (take 21 (delivered (sk_in s))))"
  shows "\<exists>es. read_frame s = (Fail EC_PROTOCOL_OVERFLOW ''payload too large'', s\<lparr>sk_in := es\<rparr>) \<and>
    delivered es = drop 21 (delivered (sk_in s))"
  using recv_exact_data [OF assms(1-3), of "''connection closed''"] assms(4)
  by (auto simp: read_frame_def Let_def)

text \<open>
  What \<open>read_frame\<close> answers without waiting does not depend on what the peer does after its script:
  whatever follows, the answer is the same and what follows is left. Where it would wait, the closed
  connection that the end of a script stands for is what it reports.
\<close>

lemma recv_call_extends:
  "\<not> silent es \<Longrightarrow> recv_call n es = (r, es') \<Longrightarrow> recv_call n (es @ later) = (r, es' @ later)"
  by (induction n es rule: recv_call.induct) (auto split: if_splits)

lemma recv_exact_extends:
  "\<not> recv_waits n s \<Longrightarrow> recv_exact closed n s = (r, s') \<Longrightarrow>
   recv_exact closed n (s\<lparr>sk_in := sk_in s @ later\<rparr>) = (r, s'\<lparr>sk_in := sk_in s' @ later\<rparr>)"
proof (induction closed n s arbitrary: r s' rule: recv_exact.induct)
  case (1 closed n s)
  show ?case
  proof (cases "n = 0 \<or> \<not> sk_valid s")
    case True
    with "1.prems" show ?thesis by (auto simp: recv_exact.simps [of closed n] recv_some_def)
  next
    case False
    with "1.prems"(1) have w: "\<not> silent (sk_in s)"
      "case recv_some n s of (Err c m, s') \<Rightarrow> True | (Success bs, s') \<Rightarrow> bs = [] \<or> \<not> recv_waits (n - length bs) s'"
      by (auto simp: recv_waits.simps [of n s] split: if_splits Result.splits prod.splits)
    obtain q es where q: "recv_call n (sk_in s) = (q, es)" by fastforce
    then have some: "recv_some n s = (q, s\<lparr>sk_in := es\<rparr>)" using False by (simp add: recv_some_def)
    have after: "recv_some n (s\<lparr>sk_in := sk_in s @ later\<rparr>) = (q, s\<lparr>sk_in := es @ later\<rparr>)"
      using False recv_call_extends [OF w(1) q] by (simp add: recv_some_def)
    show ?thesis
    proof (cases q)
      case (Err c m)
      with "1.prems"(2) False some after show ?thesis by (auto simp: recv_exact.simps [of closed n])
    next
      case (Success bs)
      show ?thesis
      proof (cases "bs = []")
        case True
        with "1.prems"(2) False some after Success show ?thesis by (auto simp: recv_exact.simps [of closed n])
      next
        case ne: False
        obtain q2 s2 where q2: "recv_exact closed (n - length bs) (s\<lparr>sk_in := es\<rparr>) = (q2, s2)" by fastforce
        have n: "n \<noteq> 0" using False by simp
        have "\<not> recv_waits (n - length bs) (s\<lparr>sk_in := es\<rparr>)" using w(2) some Success ne by simp
        from "1.IH" [OF n some [symmetric] Success ne this q2]
        have "recv_exact closed (n - length bs) (s\<lparr>sk_in := es @ later\<rparr>) = (q2, s2\<lparr>sk_in := sk_in s2 @ later\<rparr>)" by simp
        with "1.prems"(2) False some after Success ne q2 show ?thesis
          by (auto simp: recv_exact.simps [of closed n] split: Result.splits)
      qed
    qed
  qed
qed

lemma read_frame_extends:
  assumes "\<not> read_waits s" and "read_frame s = (r, s')"
  shows "read_frame (s\<lparr>sk_in := sk_in s @ later\<rparr>) = (r, s'\<lparr>sk_in := sk_in s' @ later\<rparr>)"
proof -
  obtain q s1 where q: "recv_exact ''connection closed'' 21 s = (q, s1)" by fastforce
  have "\<not> recv_waits 21 s" using assms(1) by (auto simp: read_waits_def)
  note q' = recv_exact_extends [OF this q]
  show ?thesis
  proof (cases q)
    case (Err c m)
    with assms(2) q q' show ?thesis by (auto simp: read_frame_def)
  next
    case (Success h)
    let ?n = "unat (header_length h)"
    obtain q2 s2 where q2: "recv_exact ''connection closed mid-frame'' ?n s1 = (q2, s2)" by fastforce
    have "\<not> recv_waits ?n s1" if "?n \<le> kMaxPayload"
      using assms(1) q Success that by (auto simp: read_waits_def Let_def split: if_splits)
    note q2' = recv_exact_extends [OF this q2]
    show ?thesis
      using assms(2) q q' q2 q2' Success by (auto simp: read_frame_def Let_def split: if_splits Result.splits)
  qed
qed

lemma recv_waits_closed:
  "recv_waits n s \<Longrightarrow> \<exists>s'. recv_exact closed n s = (Err EC_PEER_LOST closed, s')"
proof (induction n s rule: recv_waits.induct)
  case (1 n s)
  have silent: "silent es \<Longrightarrow> recv_call n es = (Success [], [])" for es by (induction es) auto
  show ?case
  proof (cases "silent (sk_in s)")
    case True
    with "1.prems" silent show ?thesis
      by (auto simp: recv_waits.simps [of n s] recv_exact.simps [of closed n s] recv_some_def split: if_splits)
  next
    case False
    obtain q s1 where q: "recv_some n s = (q, s1)" by fastforce
    with "1.prems" False obtain bs where "q = Success bs" by (cases q) (auto simp: recv_waits.simps [of n s] split: if_splits)
    with "1.prems" False q have r: "n \<noteq> 0" "sk_valid s" "recv_some n s = (Success bs, s1)" "bs \<noteq> []"
      "recv_waits (n - length bs) s1"
      by (auto simp: recv_waits.simps [of n s] split: if_splits)
    with "1.IH" [of "Success bs" s1 bs] False show ?thesis by (auto simp: recv_exact.simps [of closed n s])
  qed
qed

lemma read_waits_closed:
  assumes "read_waits s"
  shows "\<exists>m s'. read_frame s = (Fail EC_PEER_LOST m, s')"
proof (cases "recv_waits 21 s")
  case True
  from recv_waits_closed [OF this, of "''connection closed''"] show ?thesis by (auto simp: read_frame_def)
next
  case False
  with assms obtain h s1 where h: "recv_exact ''connection closed'' 21 s = (Success h, s1)"
    "unat (header_length h) \<le> kMaxPayload" "recv_waits (unat (header_length h)) s1"
    by (auto simp: read_waits_def Let_def split: prod.splits Result.splits)
  with recv_waits_closed [OF h(3), of "''connection closed mid-frame''"] show ?thesis by (auto simp: read_frame_def Let_def)
qed

section \<open>Writing\<close>

lemma send_loop_props:
  "send_loop es data = (r, sent, es') \<Longrightarrow> (\<exists>rest. data = sent @ rest \<and> (r = Success () \<longrightarrow> rest = []))"
proof (induction es data arbitrary: r sent es' rule: send_loop.induct)
  case (5 k es b bs)
  then obtain sent0 where "send_loop es (drop k bs) = (r, sent0, es')" "sent = b # take k bs @ sent0"
    by (auto split: prod.splits)
  with "5.IH" show ?case by (metis append_Cons append_assoc append_take_drop_id)
qed auto

lemma send_all_result:
  assumes "send_all data s = (r, s')"
  shows "(\<exists>sent rest. sk_out s' = sk_out s @ sent \<and> data = sent @ rest \<and> (r = Success () \<longrightarrow> rest = [])) \<and>
    sk_in s' = sk_in s \<and> sk_fd s' = sk_fd s"
proof (cases "sk_valid s")
  case True
  obtain r0 sent es where l: "send_loop (sk_script s) data = (r0, sent, es)" by (metis prod_cases3)
  with True assms send_loop_props [OF l] show ?thesis by (auto simp: send_all_def)
next
  case False
  with assms show ?thesis by (auto simp: send_all_def)
qed

lemma send_loop_accepting: "send_loop [] data = (Success (), data, [])"
  by (cases data) simp_all

lemma write_frame_accepting:
  "sk_valid s \<Longrightarrow> sk_script s = [] \<Longrightarrow> write_frame f s = (Success (), s\<lparr>sk_out := sk_out s @ frame_encode f\<rparr>)"
  by (simp add: write_frame_def send_all_def send_loop_accepting)

text \<open>What one side wrote with success the other side reads.\<close>

lemma write_read_frame:
  assumes "write_frame f a = (Success (), a')" and "sk_out a = []" and "length (fm_payload f) \<le> kMaxPayload"
    and "sk_valid b" and "only_data (sk_in b)" and "delivered (sk_in b) = sk_out a'"
  shows "fst (read_frame b) = Done f"
proof -
  have "sk_out a' = frame_encode f"
    using send_all_result [OF assms(1) [unfolded write_frame_def]] assms(2) by auto
  then show ?thesis using read_frame_data [OF assms(4,5), of f "[]"] assms(3,6) by auto
qed

section \<open>Progress\<close>

text \<open>What is left of a script; every frame read makes it smaller.\<close>

fun script_size :: "recv_event list \<Rightarrow> nat" where
  "script_size [] = 0"
| "script_size (RecvData bs # es) = Suc (length bs + script_size es)"
| "script_size (e # es) = Suc (script_size es)"

lemma recv_call_size:
  "recv_call n es = (r, es') \<Longrightarrow> 0 < n \<Longrightarrow> script_size es' \<le> script_size es \<and>
     (script_size es' < script_size es \<or> r = Success [])"
  by (induction n es arbitrary: r es' rule: recv_call.induct) (auto split: if_splits)

definition sk_size :: "TcpSocket \<Rightarrow> nat" where
  "sk_size s = script_size (sk_in s)"

definition sk_same :: "TcpSocket \<Rightarrow> TcpSocket \<Rightarrow> bool" where
  "sk_same s s' = (sk_fd s' = sk_fd s \<and> sk_script s' = sk_script s \<and> sk_out s' = sk_out s)"

lemma sk_same_valid: "sk_same s s' \<Longrightarrow> sk_valid s' = sk_valid s"
  by (simp add: sk_same_def sk_valid_def)

lemma recv_some_size:
  "recv_some n s = (r, s') \<Longrightarrow> 0 < n \<Longrightarrow> sk_same s s' \<and> sk_size s' \<le> sk_size s \<and>
     (sk_valid s \<longrightarrow> sk_size s' < sk_size s \<or> r = Success [])"
  by (auto simp: recv_some_def sk_same_def sk_size_def split: if_splits prod.splits dest: recv_call_size)

lemma recv_exact_size:
  "recv_exact closed n s = (r, s') \<Longrightarrow> sk_same s s' \<and> sk_size s' \<le> sk_size s \<and>
     (0 < n \<longrightarrow> sk_valid s \<longrightarrow> sk_size s' < sk_size s \<or> r = Err EC_PEER_LOST closed)"
proof (induction closed n s arbitrary: r s' rule: recv_exact.induct)
  case (1 closed n s)
  show ?case
  proof (cases "n = 0")
    case True
    with "1.prems" show ?thesis by (simp add: recv_exact.simps sk_same_def)
  next
    case False
    obtain q s1 where q: "recv_some n s = (q, s1)" by fastforce
    note size = recv_some_size [OF q]
    show ?thesis
    proof (cases q)
      case (Err c m)
      with "1.prems" q False size show ?thesis by (auto simp: recv_exact.simps [of closed n s])
    next
      case (Success bs)
      show ?thesis
      proof (cases "bs = []")
        case True
        with "1.prems" q False Success size show ?thesis by (auto simp: recv_exact.simps [of closed n s])
      next
        case ne: False
        obtain q2 s2 where q2: "recv_exact closed (n - length bs) s1 = (q2, s2)" by fastforce
        from "1.prems" q q2 False Success ne have "s' = s2"
          by (auto simp: recv_exact.simps [of closed n s] split: Result.splits)
        with "1.IH" [OF False q [symmetric] Success ne q2] size False Success ne show ?thesis
          by (auto simp: sk_same_def)
      qed
    qed
  qed
qed

lemma read_frame_size:
  assumes "read_frame s = (r, s')"
  shows "sk_same s s' \<and> sk_size s' \<le> sk_size s \<and>
    (sk_valid s \<longrightarrow> sk_size s' < sk_size s \<or> (\<exists>m. r = Fail EC_PEER_LOST m))"
proof -
  obtain q s1 where q: "recv_exact ''connection closed'' 21 s = (q, s1)" by fastforce
  note s1 = recv_exact_size [OF q]
  show ?thesis
  proof (cases q)
    case (Err c m)
    with assms q s1 show ?thesis by (auto simp: read_frame_def)
  next
    case (Success h)
    obtain q2 s2 where q2: "recv_exact ''connection closed mid-frame'' (unat (header_length h)) s1 = (q2, s2)"
      by fastforce
    note s2 = recv_exact_size [OF q2]
    from assms q q2 Success have "s' = s1 \<or> s' = s2"
      by (auto simp: read_frame_def Let_def split: if_splits Result.splits)
    with s1 s2 Success show ?thesis by (auto simp: sk_same_def)
  qed
qed

lemma read_frame_end:
  assumes "sk_valid s" and "only_data (sk_in s)" and "delivered (sk_in s) = []"
  shows "\<exists>s'. read_frame s = (Fail EC_PEER_LOST ''connection closed'', s') \<and> sk_same s s'"
proof -
  obtain es where "recv_call 21 (sk_in s) = (Success [], es)"
    using recv_call_data [OF assms(2), of 21] assms(3) by auto
  with assms(1) show ?thesis
    by (simp add: read_frame_def recv_exact.simps [of _ 21 s] recv_some_def sk_same_def)
qed

end
