(* ===== verification/PF_Sockets.thy ===== *)
theory PF_Sockets
  imports PF_Transport
begin

text \<open>
  The life of sockets, \<open>tcp.hpp\<close> and \<open>src/pciefabric/tcp.cpp\<close>: \<open>connect\<close>, \<open>close\<close> and the moves of
  \<open>TcpSocket\<close>, and the \<open>TcpListener\<close>. \<open>Os\<close> holds what the calls change outside the objects: the
  handles the process has open and those in non-blocking mode. What a call of the operating system
  answers is an argument, one constructor per answer the code tells apart; the only thing assumed of
  it, and only where a lemma says so, is that a new handle is not one that is already open.
\<close>

section \<open>The operating system's side\<close>

record Os =
  os_open :: "handle set"
  os_nonblocking :: "handle set"

definition os_new_handle :: "handle \<Rightarrow> Os \<Rightarrow> Os" where
  "os_new_handle h os = os\<lparr>os_open := insert h (os_open os), os_nonblocking := os_nonblocking os - {h}\<rparr>"

definition closesocket :: "handle \<Rightarrow> Os \<Rightarrow> Os" where
  "closesocket h os = os\<lparr>os_open := os_open os - {h}, os_nonblocking := os_nonblocking os - {h}\<rparr>"

text \<open>\<open>ioctlsocket(h, FIONBIO, &mode)\<close>.\<close>

definition fionbio :: "handle \<Rightarrow> bool \<Rightarrow> Os \<Rightarrow> Os" where
  "fionbio h mode os = os\<lparr>os_nonblocking := (if mode then insert h (os_nonblocking os) else os_nonblocking os - {h})\<rparr>"

definition fresh_handle :: "Os \<Rightarrow> handle \<Rightarrow> bool" where
  "fresh_handle os h = (h \<noteq> invalid_fd \<and> h \<notin> os_open os)"

lemma os_open_simps [simp]:
  "os_open (os_new_handle h os) = insert h (os_open os)"
  "os_open (closesocket h os) = os_open os - {h}"
  "os_open (fionbio h b os) = os_open os"
  by (simp_all add: os_new_handle_def closesocket_def fionbio_def)

lemma os_nonblocking_simps [simp]:
  "os_nonblocking (os_new_handle h os) = os_nonblocking os - {h}"
  "os_nonblocking (closesocket h os) = os_nonblocking os - {h}"
  "os_nonblocking (fionbio h b os) = (if b then insert h (os_nonblocking os) else os_nonblocking os - {h})"
  by (simp_all add: os_new_handle_def closesocket_def fionbio_def)

section \<open>\<open>TcpSocket\<close>\<close>

definition tcp_close :: "TcpSocket \<Rightarrow> Os \<Rightarrow> TcpSocket \<times> Os" where
  "tcp_close s os = (if sk_valid s then (s\<lparr>sk_fd := invalid_fd\<rparr>, closesocket (sk_fd s) os) else (s, os))"

text \<open>\<open>TcpSocket(TcpSocket&& o)\<close>: the new object and what is left of \<open>o\<close>.\<close>

definition tcp_move :: "TcpSocket \<Rightarrow> TcpSocket \<times> TcpSocket" where
  "tcp_move o' = (o', o'\<lparr>sk_fd := invalid_fd\<rparr>)"

text \<open>\<open>operator=(TcpSocket&& o)\<close> between two different objects; between an object and itself it does nothing.\<close>

definition tcp_assign :: "TcpSocket \<Rightarrow> TcpSocket \<Rightarrow> Os \<Rightarrow> TcpSocket \<times> TcpSocket \<times> Os" where
  "tcp_assign s o' os = (case tcp_close s os of (_, os') \<Rightarrow> (o', o'\<lparr>sk_fd := invalid_fd\<rparr>, os'))"

text \<open>
  One address of \<open>getaddrinfo\<close>: no socket for it, a socket whose \<open>connect\<close> fails, or a connection,
  with the scripts of what its peer will send and take.
\<close>

datatype connect_try =
    NoSocket
  | Refused handle
  | Connected handle "recv_event list" "send_event list"

fun connect_tries :: "connect_try list \<Rightarrow> Os \<Rightarrow> TcpSocket \<times> Os" where
  "connect_tries [] os = (TcpSocket_new, os)"
| "connect_tries (NoSocket # ts) os = connect_tries ts os"
| "connect_tries (Refused h # ts) os = connect_tries ts (closesocket h (os_new_handle h os))"
| "connect_tries (Connected h ins outs # ts) os =
     (\<lparr>sk_fd = h, sk_in = ins, sk_script = outs, sk_out = []\<rparr>, fionbio h False (os_new_handle h os))"

text \<open>\<open>None\<close>: \<open>getaddrinfo\<close> fails. The old handle of the object is overwritten, not closed.\<close>

definition tcp_connect :: "connect_try list option \<Rightarrow> TcpSocket \<Rightarrow> Os \<Rightarrow> unit Result \<times> TcpSocket \<times> Os" where
  "tcp_connect addrs s os = (case addrs of
      None \<Rightarrow> (Err EC_NETWORK_ERROR ''getaddrinfo failed'', s, os)
    | Some ts \<Rightarrow> (case connect_tries ts os of (s', os') \<Rightarrow>
        if sk_valid s' then (Success (), s', os')
        else (Err EC_NETWORK_ERROR ''connect failed'', s, os')))"

section \<open>\<open>TcpListener\<close>\<close>

record TcpListener =
  ls_fd :: handle
  ls_port :: u16

definition ls_valid :: "TcpListener \<Rightarrow> bool" where
  "ls_valid l = (ls_fd l \<noteq> invalid_fd)"

definition TcpListener_new :: "u16 \<Rightarrow> TcpListener" where
  "TcpListener_new port = \<lparr>ls_fd = invalid_fd, ls_port = port\<rparr>"

definition ls_close :: "TcpListener \<Rightarrow> Os \<Rightarrow> TcpListener \<times> Os" where
  "ls_close l os = (if ls_valid l then (l\<lparr>ls_fd := invalid_fd\<rparr>, closesocket (ls_fd l) os) else (l, os))"

definition ls_move :: "TcpListener \<Rightarrow> TcpListener \<times> TcpListener" where
  "ls_move o' = (o', o'\<lparr>ls_fd := invalid_fd\<rparr>)"

definition ls_assign :: "TcpListener \<Rightarrow> TcpListener \<Rightarrow> Os \<Rightarrow> TcpListener \<times> TcpListener \<times> Os" where
  "ls_assign l o' os = (case ls_close l os of (_, os') \<Rightarrow> (o', o'\<lparr>ls_fd := invalid_fd\<rparr>, os'))"

datatype listen_try =
    NoListenSocket
  | BindFailed handle
  | ListenFailed handle
  | Listening handle

definition ls_bind :: "listen_try \<Rightarrow> TcpListener \<Rightarrow> Os \<Rightarrow> unit Result \<times> TcpListener \<times> Os" where
  "ls_bind t l os = (case t of
      NoListenSocket \<Rightarrow> (Err EC_NETWORK_ERROR ''socket failed'', l, os)
    | BindFailed h \<Rightarrow> (Err EC_NETWORK_ERROR ''bind failed'', l, closesocket h (os_new_handle h os))
    | ListenFailed h \<Rightarrow> (Err EC_NETWORK_ERROR ''listen failed'', l, closesocket h (os_new_handle h os))
    | Listening h \<Rightarrow> (Success (), l\<lparr>ls_fd := h\<rparr>, os_new_handle h os))"

datatype accept_try =
    AcceptWouldBlock
  | AcceptFailed
  | Accepted handle "recv_event list" "send_event list"

definition ls_accept :: "accept_try \<Rightarrow> bool \<Rightarrow> TcpListener \<Rightarrow> TcpSocket \<Rightarrow> Os \<Rightarrow> bool Result \<times> TcpSocket \<times> Os" where
  "ls_accept t non_blocking l out os =
     (if \<not> ls_valid l then (Err EC_NETWORK_ERROR ''listener not open'', out, os) else
      let os1 = (if non_blocking then fionbio (ls_fd l) True os else os) in
      case t of
        AcceptWouldBlock \<Rightarrow> (if non_blocking then (Success False, out, os1)
          else (Err EC_NETWORK_ERROR ''accept failed'', out, os1))
      | AcceptFailed \<Rightarrow> (Err EC_NETWORK_ERROR ''accept failed'', out, os1)
      | Accepted h ins outs \<Rightarrow>
          let os2 = os_new_handle h os1;
              os3 = (if non_blocking then fionbio (ls_fd l) False os2 else os2);
              os4 = fionbio h False os3
          in case tcp_assign out \<lparr>sk_fd = h, sk_in = ins, sk_script = outs, sk_out = []\<rparr> os4 of
               (out', _, os5) \<Rightarrow> (Success True, out', os5))"

section \<open>Other systems\<close>

text \<open>Without \<open>_WIN32\<close> the classes of \<open>tcp.hpp\<close> are stubs: never valid, and every operation is refused.\<close>

definition stub_valid :: bool where
  "stub_valid = False"

definition stub_operation :: "'a Result" where
  "stub_operation = Err EC_NOT_IMPLEMENTED ''tcp unsupported''"

section \<open>No handle is lost\<close>

text \<open>\<open>fd_of\<close> is the set of handles an object owns.\<close>

definition fd_of :: "handle \<Rightarrow> handle set" where
  "fd_of h = (if h = invalid_fd then {} else {h})"

lemma fd_of_simps [simp]: "fd_of invalid_fd = {}" "h \<noteq> invalid_fd \<Longrightarrow> fd_of h = {h}"
  by (simp_all add: fd_of_def)

lemma fd_of_fresh: "fresh_handle os h \<Longrightarrow> fd_of h = {h} \<and> h \<notin> os_open os"
  by (simp add: fresh_handle_def)

text \<open>The handles an answer of the operating system brings in are new.\<close>

definition try_handles :: "connect_try \<Rightarrow> handle set" where
  "try_handles t = (case t of NoSocket \<Rightarrow> {} | Refused h \<Rightarrow> {h} | Connected h ins outs \<Rightarrow> {h})"

definition tries_fresh :: "Os \<Rightarrow> connect_try list \<Rightarrow> bool" where
  "tries_fresh os ts = list_all (\<lambda>t. \<forall>h \<in> try_handles t. fresh_handle os h) ts"

definition listen_fresh :: "Os \<Rightarrow> listen_try \<Rightarrow> bool" where
  "listen_fresh os t = (case t of NoListenSocket \<Rightarrow> True | BindFailed h \<Rightarrow> fresh_handle os h
     | ListenFailed h \<Rightarrow> fresh_handle os h | Listening h \<Rightarrow> fresh_handle os h)"

definition accept_fresh :: "Os \<Rightarrow> accept_try \<Rightarrow> bool" where
  "accept_fresh os t = (case t of Accepted h ins outs \<Rightarrow> fresh_handle os h | _ \<Rightarrow> True)"

lemma tries_fresh_simps [simp]:
  "tries_fresh os []" "tries_fresh os (NoSocket # ts) = tries_fresh os ts"
  "tries_fresh os (Refused h # ts) = (fresh_handle os h \<and> tries_fresh os ts)"
  "tries_fresh os (Connected h ins outs # ts) = (fresh_handle os h \<and> tries_fresh os ts)"
  by (simp_all add: tries_fresh_def try_handles_def)

lemma tries_fresh_open: "os_open os' = os_open os \<Longrightarrow> tries_fresh os' ts = tries_fresh os ts"
  by (simp add: tries_fresh_def fresh_handle_def)

lemma close_open:
  "tcp_close s os = (s', os') \<Longrightarrow> \<not> sk_valid s' \<and> os_open os' = os_open os - fd_of (sk_fd s)"
  by (auto simp: tcp_close_def sk_valid_def split: if_splits)

text \<open>Every address that failed is closed again; the one that connected is what the socket holds.\<close>

lemma connect_tries_open:
  "tries_fresh os ts \<Longrightarrow> connect_tries ts os = (s, os') \<Longrightarrow>
   os_open os' = os_open os \<union> fd_of (sk_fd s) \<and> fd_of (sk_fd s) \<inter> os_open os = {} \<and>
   (sk_valid s \<longrightarrow> sk_fd s \<notin> os_nonblocking os')"
proof (induction ts os rule: connect_tries.induct)
  case (1 os)
  then show ?case by (auto simp: TcpSocket_new_def sk_valid_def)
next
  case (3 h ts os)
  have same: "os_open (closesocket h (os_new_handle h os)) = os_open os"
    using 3(2) by (auto simp: fresh_handle_def)
  with 3 tries_fresh_open [OF same] show ?case by simp
next
  case (4 h ins outs ts os)
  then show ?case by (auto simp: fresh_handle_def)
qed simp_all

lemma connect_open:
  assumes "tries_fresh os (case addrs of None \<Rightarrow> [] | Some ts \<Rightarrow> ts)" and "\<not> sk_valid s"
    and "tcp_connect addrs s os = (r, s', os')"
  shows "os_open os' = os_open os \<union> fd_of (sk_fd s') \<and> fd_of (sk_fd s') \<inter> os_open os = {} \<and>
    (sk_valid s' \<longleftrightarrow> r = Success ())"
proof (cases addrs)
  case None
  with assms show ?thesis by (auto simp: tcp_connect_def sk_valid_def)
next
  case (Some ts)
  obtain s1 os1 where c: "connect_tries ts os = (s1, os1)" by fastforce
  have "tries_fresh os ts" using assms(1) Some by simp
  note open1 = connect_tries_open [OF this c]
  show ?thesis
  proof (cases "sk_valid s1")
    case True
    with assms(3) Some c open1 show ?thesis by (auto simp: tcp_connect_def)
  next
    case False
    with assms(2,3) Some c open1 show ?thesis by (auto simp: tcp_connect_def sk_valid_def)
  qed
qed

text \<open>On a socket that is connected already, a successful \<open>connect\<close> loses the old handle: it stays open for good.\<close>

lemma connect_leaks:
  assumes "tries_fresh os ts" and "sk_valid s" and "sk_fd s \<in> os_open os"
    and "tcp_connect (Some ts) s os = (Success (), s', os')"
  shows "sk_fd s \<in> os_open os' \<and> sk_fd s' \<noteq> sk_fd s"
proof -
  obtain s1 os1 where c: "connect_tries ts os = (s1, os1)" by fastforce
  with assms(4) have "s' = s1" "os' = os1" "sk_valid s1" by (auto simp: tcp_connect_def split: if_splits)
  with connect_tries_open [OF assms(1) c] assms(3) show ?thesis by (auto simp: sk_valid_def)
qed

lemma ls_close_open:
  "ls_close l os = (l', os') \<Longrightarrow> \<not> ls_valid l' \<and> ls_port l' = ls_port l \<and> os_open os' = os_open os - fd_of (ls_fd l)"
  by (auto simp: ls_close_def ls_valid_def split: if_splits)

text \<open>A listener that is not open comes back open exactly when it listens; otherwise nothing stays open.\<close>

lemma bind_open:
  assumes "listen_fresh os t" and "\<not> ls_valid l" and "ls_bind t l os = (r, l', os')"
  shows "os_open os' = os_open os \<union> fd_of (ls_fd l') \<and> fd_of (ls_fd l') \<inter> os_open os = {} \<and>
    ls_port l' = ls_port l \<and> (ls_valid l' \<longleftrightarrow> r = Success ())"
  using assms by (cases t) (auto simp: ls_bind_def listen_fresh_def fresh_handle_def ls_valid_def)

text \<open>A listener that is open already loses its handle when it is bound again.\<close>

lemma bind_leaks:
  assumes "fresh_handle os h" and "ls_valid l" and "ls_fd l \<in> os_open os"
    and "ls_bind (Listening h) l os = (r, l', os')"
  shows "ls_fd l \<in> os_open os' \<and> ls_fd l' \<noteq> ls_fd l"
  using assms by (auto simp: ls_bind_def fresh_handle_def)

text \<open>
  \<open>accept\<close> into a socket that is not open: the socket comes back open exactly when a connection was
  taken, it is then in blocking mode, and the listener stays as it is.
\<close>

lemma accept_open:
  assumes "accept_fresh os t" and "\<not> sk_valid out" and "ls_accept t nb l out os = (r, out', os')"
  shows "os_open os' = os_open os \<union> fd_of (sk_fd out') \<and> fd_of (sk_fd out') \<inter> os_open os = {} \<and>
    (sk_valid out' \<longleftrightarrow> r = Success True) \<and> (sk_valid out' \<longrightarrow> sk_fd out' \<notin> os_nonblocking os')"
proof (cases "ls_valid l")
  case False
  with assms show ?thesis by (auto simp: ls_accept_def sk_valid_def)
next
  case True
  with assms show ?thesis
    by (cases t) (auto simp: ls_accept_def Let_def tcp_assign_def tcp_close_def accept_fresh_def
        fresh_handle_def sk_valid_def split: if_splits)
qed

text \<open>With \<open>non_blocking\<close> the absence of a connection is no failure; without it it is one.\<close>

lemma accept_no_connection:
  "ls_valid l \<Longrightarrow> fst (ls_accept AcceptWouldBlock nb l out os) =
     (if nb then Success False else Err EC_NETWORK_ERROR ''accept failed'')"
  by (simp add: ls_accept_def Let_def)

text \<open>The result of \<open>connect\<close> depends on the addresses alone: the first that connects wins.\<close>

fun first_connected :: "connect_try list \<Rightarrow> handle option" where
  "first_connected [] = None"
| "first_connected (Connected h ins outs # ts) = Some h"
| "first_connected (t # ts) = first_connected ts"

lemma connect_tries_first:
  "tries_fresh os ts \<Longrightarrow> sk_fd (fst (connect_tries ts os)) = (case first_connected ts of None \<Rightarrow> invalid_fd | Some h \<Rightarrow> h)"
proof (induction ts os rule: connect_tries.induct)
  case (3 h ts os)
  have same: "os_open (closesocket h (os_new_handle h os)) = os_open os"
    using 3(2) by (auto simp: fresh_handle_def)
  with 3 tries_fresh_open [OF same] show ?case by simp
qed (simp_all add: TcpSocket_new_def)

end
