(* ===== verification/PF_Coordinator.thy ===== *)
theory PF_Coordinator
  imports PF_Runtime PF_Sockets
begin

text \<open>
  The coordinator, \<open>coordinator.hpp\<close> and \<open>src/pciefabric/coordinator.cpp\<close>: its state, one
  definition per message of \<open>handle_frame\<close>, the reply, the connection loop and the state machine
  of any number of connections.

  A handler that touches the topology, the paths or the workers holds the mutex until it returns,
  the stores of measurements and reservations lock themselves, and no handler touches two of them;
  so a frame changes the state in one atomic step, and the interleavings of the connection threads
  are the sequences of such steps. \<open>seq_\<close> and \<open>epoch_\<close> are read without the lock by the reply of
  some handlers; the model gives those reads the values of the step.

  A handler is \<open>None\<close> where it has undefined behaviour: a string read beyond the payload, or the
  digest of an unrepresentable rate.
\<close>

section \<open>State\<close>

record WorkerInfo =
  wi_id :: WorkerId
  wi_boot :: WorkerBootId
  wi_host_gen :: HostGeneration
  wi_connected :: bool
  wi_revalidation :: bool
  wi_last_seen :: EpochMs

record Coordinator =
  co_epoch :: CoordinatorEpoch
  co_seq :: u64
  co_topology :: Topology
  co_paths :: "(PathId, Path) omap"
  co_measurements :: MeasurementStore
  co_reservations :: ReservationRegistry
  co_workers :: "(WorkerId, WorkerInfo) omap"
  co_persist_path :: string

definition Coordinator_new :: Coordinator where
  "Coordinator_new = \<lparr>co_epoch = StrongId 0, co_seq = 0, co_topology = Topology_new, co_paths = [],
     co_measurements = [],
     co_reservations = ReservationRegistry_new \<lparr>per_path_bytes = push_bit 40 1, max_duration = 3600000\<rparr>,
     co_workers = [], co_persist_path = []\<rparr>"

text \<open>What a connection thread keeps between frames: \<open>worker_boot\<close> and \<open>worker_id\<close>.\<close>

record Connection =
  cx_boot :: "WorkerBootId option"
  cx_worker :: "WorkerId option"

definition Connection_new :: Connection where
  "Connection_new = \<lparr>cx_boot = None, cx_worker = None\<rparr>"

section \<open>The handlers\<close>

text \<open>How a handler ends: with a reply, \<open>return reply_ack(...)\<close>, or with a result of its own.\<close>

datatype handled = Reply bool string | Return "unit Result"

type_synonym handler = "(handled \<times> Connection \<times> Coordinator) option"

text \<open>\<open>if (!x) return err(x.code(), x.message());\<close> for a decoded payload.\<close>

definition with_payload :: "'a outcome \<Rightarrow> Connection \<Rightarrow> Coordinator \<Rightarrow> ('a \<Rightarrow> handler) \<Rightarrow> handler" where
  "with_payload x cx s k = (case x of
      Done a \<Rightarrow> k a | Fail c m \<Rightarrow> Some (Return (Err c m), cx, s) | Undef \<Rightarrow> None)"

definition not_registered :: "Connection \<Rightarrow> Coordinator \<Rightarrow> handler" where
  "not_registered cx s = Some (Return (Err EC_NOT_FOUND ''not registered''), cx, s)"

definition new_worker :: "RegisterRequest \<Rightarrow> WorkerInfo" where
  "new_worker reg = \<lparr>wi_id = StrongId (reg_worker reg), wi_boot = StrongId (reg_boot reg),
     wi_host_gen = Generation (reg_host_gen reg), wi_connected = True, wi_revalidation = False,
     wi_last_seen = 0\<rparr>"

definition on_register :: "bytes \<Rightarrow> Connection \<Rightarrow> Coordinator \<Rightarrow> handler" where
  "on_register payload cx s = with_payload (read_register payload) cx s (\<lambda>reg.
     let i = StrongId (reg_worker reg) in
     Some (Reply True ''registered'',
       cx\<lparr>cx_worker := Some i, cx_boot := Some (StrongId (reg_boot reg))\<rparr>,
       s\<lparr>co_seq := co_seq s + 1, co_workers := om_insert i (new_worker reg) (co_workers s)\<rparr>))"

definition accept_node :: "Node \<Rightarrow> Topology \<Rightarrow> Topology" where
  "accept_node n t = (if tp_contains t (nd_id n) then t else restore_node n t)"

definition accept_path :: "CoordinatorEpoch \<Rightarrow> WorkerBootId \<Rightarrow> Path \<Rightarrow> (PathId, Path) omap \<Rightarrow> (PathId, Path) omap" where
  "accept_path e b p ps = (if authority_matches p e b then om_insert (pa_id p) p ps else ps)"

definition on_snapshot :: "bytes \<Rightarrow> Connection \<Rightarrow> Coordinator \<Rightarrow> handler" where
  "on_snapshot payload cx s = (case (cx_worker cx, cx_boot cx) of
      (Some i, Some boot) \<Rightarrow> with_payload (deserialize payload) cx s (\<lambda>sn.
        Some (Reply True ''snapshot accepted'', cx,
          s\<lparr>co_topology := fold accept_node (sn_nodes sn) (co_topology s),
            co_paths := fold (accept_path (co_epoch s) boot) (sn_paths sn) (co_paths s)\<rparr>))
    | _ \<Rightarrow> not_registered cx s)"

definition on_measurement :: "bytes \<Rightarrow> Connection \<Rightarrow> Coordinator \<Rightarrow> handler" where
  "on_measurement payload cx s = (if cx_boot cx = None then not_registered cx s else
     with_payload (rd_run decode_measurement payload) cx s (\<lambda>m.
       case ms_ingest m (co_measurements s) of
         (Err c msg, ms) \<Rightarrow> Some (Reply False msg, cx, s\<lparr>co_measurements := ms\<rparr>)
       | (Success _, ms) \<Rightarrow> Some (Reply True ''measurement accepted'', cx, s\<lparr>co_measurements := ms\<rparr>)))"

definition on_reserve :: "bytes \<Rightarrow> Connection \<Rightarrow> Coordinator \<Rightarrow> handler" where
  "on_reserve payload cx s = (if cx_boot cx = None then not_registered cx s else
     with_payload (rd_run decode_reservation payload) cx s (\<lambda>r.
       case rg_reserve r (co_reservations s) of
         (Err c msg, g) \<Rightarrow> Some (Reply False msg, cx, s\<lparr>co_reservations := g\<rparr>)
       | (Success _, g) \<Rightarrow> Some (Reply True ''reserved'', cx, s\<lparr>co_reservations := g\<rparr>)))"

definition on_release :: "bytes \<Rightarrow> Connection \<Rightarrow> Coordinator \<Rightarrow> handler" where
  "on_release payload cx s = (if cx_boot cx = None then not_registered cx s else
     with_payload (read_release payload) cx s (\<lambda>q.
       case rg_release (StrongId (rl_reservation q)) (StrongId (rl_boot q)) (Generation (rl_gen q))
              (StrongId (rl_epoch q)) (co_reservations s) of
         (Err c msg, g) \<Rightarrow> Some (Reply False msg, cx, s\<lparr>co_reservations := g\<rparr>)
       | (Success _, g) \<Rightarrow> Some (Reply True ''released'', cx, s\<lparr>co_reservations := g\<rparr>)))"

text \<open>\<open>auto it = workers_.find(*wid); if (it != end) it->second...\<close> when the connection has a worker.\<close>

definition update_worker :: "(WorkerInfo \<Rightarrow> WorkerInfo) \<Rightarrow> Connection \<Rightarrow> Coordinator \<Rightarrow> Coordinator" where
  "update_worker f cx s = (case cx_worker cx of None \<Rightarrow> s | Some i \<Rightarrow>
     (case om_lookup (co_workers s) i of None \<Rightarrow> s
      | Some w \<Rightarrow> s\<lparr>co_workers := om_insert i (f w) (co_workers s)\<rparr>))"

definition handle_frame :: "Frame \<Rightarrow> Connection \<Rightarrow> Coordinator \<Rightarrow> handler" where
  "handle_frame f cx s = (case fm_kind f of
      MSG_REGISTER \<Rightarrow> on_register (fm_payload f) cx s
    | MSG_INVENTORY \<Rightarrow> on_snapshot (fm_payload f) cx s
    | MSG_PATH_SNAPSHOT \<Rightarrow> on_snapshot (fm_payload f) cx s
    | MSG_MEASUREMENT \<Rightarrow> on_measurement (fm_payload f) cx s
    | MSG_RESERVE \<Rightarrow> on_reserve (fm_payload f) cx s
    | MSG_RELEASE \<Rightarrow> on_release (fm_payload f) cx s
    | MSG_HEARTBEAT \<Rightarrow> Some (Reply True ''hb'', cx, update_worker (\<lambda>w. w\<lparr>wi_last_seen := 0\<rparr>) cx s)
    | MSG_REVALIDATE \<Rightarrow> Some (Reply True ''revalidate'', cx, update_worker (\<lambda>w. w\<lparr>wi_revalidation := True\<rparr>) cx s)
    | MSG_POLICY_UPDATE \<Rightarrow> Some (Reply True ''policy'', cx, s)
    | MSG_ACK \<Rightarrow> Some (Return (Success ()), cx, s)
    | MSG_ERROR \<Rightarrow> Some (Return (Success ()), cx, s)
    | MSG_HELLO \<Rightarrow> Some (Reply True ''hello'', cx, s))"

definition reply_frame :: "Coordinator \<Rightarrow> bool \<Rightarrow> string \<Rightarrow> Frame" where
  "reply_frame s ok msg = Frame MSG_ACK (write_ack (id_value (co_epoch s)) (co_seq s) ok msg)"

text \<open>One frame on a socket: its handler, then the reply.\<close>

definition serve_frame :: "Frame \<Rightarrow> TcpSocket \<Rightarrow> Connection \<Rightarrow> Coordinator \<Rightarrow>
    (unit Result \<times> TcpSocket \<times> Connection \<times> Coordinator) option" where
  "serve_frame f sk cx s = (case handle_frame f cx s of
      None \<Rightarrow> None
    | Some (Return r, cx', s') \<Rightarrow> Some (r, sk, cx', s')
    | Some (Reply ok msg, cx', s') \<Rightarrow> (case write_frame (reply_frame s' ok msg) sk of
        (r, sk') \<Rightarrow> Some (r, sk', cx', s')))"

section \<open>The connection loop\<close>

text \<open>
  The loop of \<open>handle_connection\<close>, while no stop is requested. A frame that cannot be read, other
  than because the peer is gone, is skipped; a handler's error has no reply. The first argument
  bounds the rounds; \<open>rounds_enough\<close> below shows that a script of \<open>k\<close> events and \<open>m\<close> bytes is
  finished within \<open>k + m + 1\<close> rounds.
\<close>

fun handle_connection :: "nat \<Rightarrow> TcpSocket \<Rightarrow> Connection \<Rightarrow> Coordinator \<Rightarrow>
    (bool \<times> TcpSocket \<times> Coordinator) option" where
  "handle_connection 0 sk cx s = Some (False, sk, s)"
| "handle_connection (Suc n) sk cx s = (case read_frame sk of
      (Undef, sk') \<Rightarrow> None
    | (Fail c m, sk') \<Rightarrow> if c = EC_PEER_LOST then Some (True, sk', s) else handle_connection n sk' cx s
    | (Done f, sk') \<Rightarrow> (case serve_frame f sk' cx s of
        None \<Rightarrow> None
      | Some (r, sk'', cx', s') \<Rightarrow>
          if res_code r = EC_PEER_LOST then Some (True, sk'', s') else handle_connection n sk'' cx' s'))"

section \<open>Operations of the coordinator's owner\<close>

definition co_advance_epoch :: "Coordinator \<Rightarrow> Coordinator" where
  "co_advance_epoch s = s\<lparr>co_epoch := StrongId (id_value (co_epoch s) + 1)\<rparr>"

definition co_revalidate_all :: "Coordinator \<Rightarrow> Coordinator" where
  "co_revalidate_all s = s\<lparr>co_paths := om_map_values revalidate_path (co_paths s)\<rparr>"

definition co_set_persist_path :: "string \<Rightarrow> Coordinator \<Rightarrow> Coordinator" where
  "co_set_persist_path p s = s\<lparr>co_persist_path := p\<rparr>"

definition co_snapshot :: "Coordinator \<Rightarrow> Snapshot option" where
  "co_snapshot s = snapshot_of (co_epoch s) (co_seq s) (co_topology s) (co_paths s) (co_measurements s)"

definition co_persist_now :: "save_faults \<Rightarrow> Coordinator \<Rightarrow> disk \<Rightarrow> (unit Result \<times> disk) option" where
  "co_persist_now f s d = (if co_persist_path s = [] then Some (Err EC_NOT_FOUND ''no persist path'', d)
     else case co_snapshot s of None \<Rightarrow> None | Some sn \<Rightarrow> save f (co_persist_path s) sn d)"

definition co_worker_count :: "Coordinator \<Rightarrow> nat" where
  "co_worker_count s = length (co_workers s)"

definition co_path_count :: "Coordinator \<Rightarrow> nat" where
  "co_path_count s = length (co_paths s)"

definition co_reservation_active_count :: "Coordinator \<Rightarrow> nat" where
  "co_reservation_active_count s = rg_active_count (co_reservations s)"

definition co_measurement_count :: "Coordinator \<Rightarrow> nat" where
  "co_measurement_count s = ms_size (co_measurements s)"

definition co_validate_accounting :: "Coordinator \<Rightarrow> unit Result" where
  "co_validate_accounting s = rg_validate_accounting (co_reservations s)"

section \<open>The coordinator as a state machine\<close>

text \<open>A frame on any connection, with anything in it, or an operation of the owner.\<close>

inductive co_step :: "Coordinator \<Rightarrow> Coordinator \<Rightarrow> bool" where
  co_step_frame: "handle_frame f cx s = Some (h, cx', s') \<Longrightarrow> co_step s s'"
| co_step_epoch: "co_step s (co_advance_epoch s)"
| co_step_revalidate: "co_step s (co_revalidate_all s)"
| co_step_persist_path: "co_step s (co_set_persist_path p s)"

inductive_cases co_stepE: "co_step s s'"

definition co_start :: "Coordinator \<Rightarrow> bool" where
  "co_start s = (s = Coordinator_new)"

definition co_reach :: "Coordinator \<Rightarrow> bool" where
  "co_reach = reachable co_start co_step"

section \<open>The invariant\<close>

definition co_inv :: "Coordinator \<Rightarrow> bool" where
  "co_inv s = (tp_inv (co_topology s) \<and> paths_inv (co_paths s) \<and> ms_inv (co_measurements s) \<and>
     rg_inv (co_reservations s) \<and> om_wf (co_workers s) \<and>
     (\<forall>i w. om_lookup (co_workers s) i = Some w \<longrightarrow> wi_id w = i))"

lemmas on_defs = on_register_def on_snapshot_def on_measurement_def on_reserve_def on_release_def

lemma accept_nodes_inv: "tp_inv t \<Longrightarrow> tp_inv (fold accept_node ns t)"
  by (induction ns arbitrary: t) (simp_all add: accept_node_def restore_node_inv)

lemma accept_paths_inv: "paths_inv m \<Longrightarrow> paths_inv (fold (accept_path e b) ps m)"
  by (induction ps arbitrary: m) (auto simp: accept_path_def)

text \<open>What the handlers leave alone, and what they change.\<close>

lemma on_register_effect:
  assumes "on_register p cx s = Some (h, cx', s')"
  shows "s' = s \<and> cx' = cx \<or> (\<exists>q. read_register p = Done q \<and>
    cx' = cx\<lparr>cx_worker := Some (StrongId (reg_worker q)), cx_boot := Some (StrongId (reg_boot q))\<rparr> \<and>
    s' = s\<lparr>co_seq := co_seq s + 1, co_workers := om_insert (StrongId (reg_worker q)) (new_worker q) (co_workers s)\<rparr>)"
  using assms by (auto simp: on_register_def with_payload_def Let_def split: outcome.splits)

lemma on_snapshot_effect:
  assumes "on_snapshot p cx s = Some (h, cx', s')"
  shows "cx' = cx \<and> (s' = s \<or> (\<exists>sn i boot. cx_worker cx = Some i \<and> cx_boot cx = Some boot \<and> deserialize p = Done sn \<and>
    s' = s\<lparr>co_topology := fold accept_node (sn_nodes sn) (co_topology s),
           co_paths := fold (accept_path (co_epoch s) boot) (sn_paths sn) (co_paths s)\<rparr>))"
  using assms
  by (auto simp: on_snapshot_def with_payload_def not_registered_def split: outcome.splits option.splits)

lemma on_measurement_effect:
  assumes "on_measurement p cx s = Some (h, cx', s')"
  shows "cx' = cx \<and> (s' = s \<or> (\<exists>m. s' = s\<lparr>co_measurements := snd (ms_ingest m (co_measurements s))\<rparr>))"
proof (cases "cx_boot cx = None \<or> (\<nexists>m. rd_run decode_measurement p = Done m)")
  case True
  with assms show ?thesis
    by (auto simp: on_measurement_def with_payload_def not_registered_def split: outcome.splits if_splits)
next
  case False
  then obtain m where m: "rd_run decode_measurement p = Done m" "cx_boot cx \<noteq> None" by blast
  obtain r ms where i: "ms_ingest m (co_measurements s) = (r, ms)" by (cases "ms_ingest m (co_measurements s)")
  from assms m i have "cx' = cx \<and> s' = s\<lparr>co_measurements := ms\<rparr>"
    by (cases r) (auto simp: on_measurement_def with_payload_def)
  with i show ?thesis by (metis snd_conv)
qed

lemma on_reserve_effect:
  assumes "on_reserve p cx s = Some (h, cx', s')"
  shows "cx' = cx \<and> (s' = s \<or> (\<exists>r. s' = s\<lparr>co_reservations := snd (rg_reserve r (co_reservations s))\<rparr>))"
proof (cases "cx_boot cx = None \<or> (\<nexists>r. rd_run decode_reservation p = Done r)")
  case True
  with assms show ?thesis
    by (auto simp: on_reserve_def with_payload_def not_registered_def split: outcome.splits if_splits)
next
  case False
  then obtain q where m: "rd_run decode_reservation p = Done q" "cx_boot cx \<noteq> None" by blast
  obtain r g where i: "rg_reserve q (co_reservations s) = (r, g)" by (cases "rg_reserve q (co_reservations s)")
  from assms m i have "cx' = cx \<and> s' = s\<lparr>co_reservations := g\<rparr>"
    by (cases r) (auto simp: on_reserve_def with_payload_def)
  with i show ?thesis by (metis snd_conv)
qed

lemma on_release_effect:
  assumes "on_release p cx s = Some (h, cx', s')"
  shows "cx' = cx \<and> (s' = s \<or> (\<exists>i b gen e. s' = s\<lparr>co_reservations := snd (rg_release i b gen e (co_reservations s))\<rparr>))"
proof (cases "cx_boot cx = None \<or> (\<nexists>q. read_release p = Done q)")
  case True
  with assms show ?thesis
    by (auto simp: on_release_def with_payload_def not_registered_def split: outcome.splits if_splits)
next
  case False
  then obtain q where m: "read_release p = Done q" "cx_boot cx \<noteq> None" by blast
  obtain r g where i: "rg_release (StrongId (rl_reservation q)) (StrongId (rl_boot q)) (Generation (rl_gen q))
      (StrongId (rl_epoch q)) (co_reservations s) = (r, g)" by fastforce
  from assms m i have "cx' = cx \<and> s' = s\<lparr>co_reservations := g\<rparr>"
    by (cases r) (auto simp: on_release_def with_payload_def)
  with i show ?thesis by (metis snd_conv)
qed

lemma update_worker_effect:
  "update_worker f cx s = s \<or> (\<exists>i w. om_lookup (co_workers s) i = Some w \<and> cx_worker cx = Some i \<and>
     update_worker f cx s = s\<lparr>co_workers := om_insert i (f w) (co_workers s)\<rparr>)"
  by (auto simp: update_worker_def split: option.splits)

section \<open>What a frame may do\<close>

text \<open>
  The promise of \<open>handle_frame\<close>: nothing, or one of six changes; every one but a registration needs
  a connection that has registered.
\<close>

inductive co_effect :: "Connection \<Rightarrow> Coordinator \<Rightarrow> Coordinator \<Rightarrow> bool" where
  eff_none: "co_effect cx s s"
| eff_register: "co_effect cx s (s\<lparr>co_seq := co_seq s + 1,
      co_workers := om_insert (StrongId (reg_worker q)) (new_worker q) (co_workers s)\<rparr>)"
| eff_worker: "cx_worker cx = Some i \<Longrightarrow> om_lookup (co_workers s) i = Some w \<Longrightarrow> wi_id w' = wi_id w \<Longrightarrow>
    wi_boot w' = wi_boot w \<Longrightarrow> co_effect cx s (s\<lparr>co_workers := om_insert i w' (co_workers s)\<rparr>)"
| eff_snapshot: "cx_boot cx = Some boot \<Longrightarrow> cx_worker cx \<noteq> None \<Longrightarrow>
    co_effect cx s (s\<lparr>co_topology := fold accept_node ns (co_topology s),
      co_paths := fold (accept_path (co_epoch s) boot) ps (co_paths s)\<rparr>)"
| eff_measurement: "cx_boot cx \<noteq> None \<Longrightarrow>
    co_effect cx s (s\<lparr>co_measurements := snd (ms_ingest m (co_measurements s))\<rparr>)"
| eff_reserve: "cx_boot cx \<noteq> None \<Longrightarrow>
    co_effect cx s (s\<lparr>co_reservations := snd (rg_reserve r (co_reservations s))\<rparr>)"
| eff_release: "cx_boot cx \<noteq> None \<Longrightarrow>
    co_effect cx s (s\<lparr>co_reservations := snd (rg_release i b gen e (co_reservations s))\<rparr>)"

inductive_cases co_effectE: "co_effect cx s s'"

lemma unregistered_handlers:
  "cx_boot cx = None \<Longrightarrow> on_measurement p cx s = not_registered cx s"
  "cx_boot cx = None \<Longrightarrow> on_reserve p cx s = not_registered cx s"
  "cx_boot cx = None \<Longrightarrow> on_release p cx s = not_registered cx s"
  "cx_boot cx = None \<Longrightarrow> on_snapshot p cx s = not_registered cx s"
  by (simp_all add: on_defs split: option.split)

lemma registered_effect:
  "on_measurement p cx s = Some (h, cx', s') \<Longrightarrow> co_effect cx s s'"
  "on_reserve p cx s = Some (h, cx', s') \<Longrightarrow> co_effect cx s s'"
  "on_release p cx s = Some (h, cx', s') \<Longrightarrow> co_effect cx s s'"
  by (cases "cx_boot cx = None"; auto simp: unregistered_handlers not_registered_def
      dest!: on_measurement_effect on_reserve_effect on_release_effect intro: co_effect.intros)+

lemma handle_frame_effect:
  assumes "handle_frame f cx s = Some (h, cx', s')"
  shows "co_effect cx s s'"
proof -
  have w: "co_effect cx s (update_worker g cx s)" if "\<And>w. wi_id (g w) = wi_id w" "\<And>w. wi_boot (g w) = wi_boot w" for g
    using update_worker_effect [of g cx s]
  proof (elim disjE exE conjE)
    fix i w assume w: "om_lookup (co_workers s) i = Some w" "cx_worker cx = Some i"
      and u: "update_worker g cx s = s\<lparr>co_workers := om_insert i (g w) (co_workers s)\<rparr>"
    show ?thesis unfolding u by (rule eff_worker [OF w(2,1) that])
  qed (simp add: eff_none)
  show ?thesis
  proof (cases "fm_kind f")
    case MSG_REGISTER
    with assms have "on_register (fm_payload f) cx s = Some (h, cx', s')" by (simp add: handle_frame_def)
    from on_register_effect [OF this] show ?thesis by (auto intro: co_effect.intros)
  next
    case MSG_INVENTORY
    with assms have "on_snapshot (fm_payload f) cx s = Some (h, cx', s')" by (simp add: handle_frame_def)
    from on_snapshot_effect [OF this] show ?thesis by (auto intro: co_effect.intros)
  next
    case MSG_PATH_SNAPSHOT
    with assms have "on_snapshot (fm_payload f) cx s = Some (h, cx', s')" by (simp add: handle_frame_def)
    from on_snapshot_effect [OF this] show ?thesis by (auto intro: co_effect.intros)
  next
    case MSG_MEASUREMENT
    with assms show ?thesis by (auto simp: handle_frame_def dest: registered_effect)
  next
    case MSG_RESERVE
    with assms show ?thesis by (auto simp: handle_frame_def dest: registered_effect)
  next
    case MSG_RELEASE
    with assms show ?thesis by (auto simp: handle_frame_def dest: registered_effect)
  qed (use assms w in \<open>auto simp: handle_frame_def intro: eff_none\<close>)
qed

lemma co_inv_effect: "co_inv s \<Longrightarrow> co_effect cx s s' \<Longrightarrow> co_inv s'"
  by (elim co_effectE)
     (auto simp: co_inv_def new_worker_def accept_nodes_inv accept_paths_inv ms_inv_ingest rg_inv_reserve
       rg_inv_release split: if_splits)

lemma revalidate_path_id [simp]: "pa_id (revalidate_path p) = pa_id p"
  by (simp add: revalidate_path_def)

lemma co_inv_step:
  assumes "co_inv s" and "co_step s s'"
  shows "co_inv s'"
  using assms(2)
proof (cases rule: co_step.cases)
  case co_step_frame
  then show ?thesis using assms(1) by (blast dest: handle_frame_effect intro: co_inv_effect)
qed (use assms(1) in \<open>auto simp: co_advance_epoch_def co_revalidate_all_def co_set_persist_path_def
    co_inv_def paths_inv_map\<close>)

lemma co_inv_new: "co_inv Coordinator_new"
  by (simp add: co_inv_def Coordinator_new_def tp_inv_new ms_inv_def rg_inv_init rg_initial_def
      ReservationRegistry_new_def)

interpretation coi: invariant co_start co_step co_inv
  by unfold_locales (auto simp: co_start_def co_inv_new intro: co_inv_step)

lemma co_reach_inv: "co_reach s \<Longrightarrow> co_inv s"
  unfolding co_reach_def by (rule coi.always)

section \<open>Authority\<close>

text \<open>A connection that has not registered changes nothing but by registering.\<close>

lemma unregistered_frame:
  assumes "handle_frame f cx s = Some (h, cx', s')" and "cx_boot cx = None" and "cx_worker cx = None"
    and "fm_kind f \<noteq> MSG_REGISTER"
  shows "s' = s \<and> cx' = cx"
  using assms by (cases "fm_kind f")
    (auto simp: handle_frame_def unregistered_handlers not_registered_def update_worker_def)

lemma fold_accept_path:
  "om_lookup (fold (accept_path e b) ps m) i = Some p \<Longrightarrow>
   om_lookup m i = Some p \<or> p \<in> set ps \<and> authority_matches p e b"
proof (induction ps arbitrary: m)
  case (Cons q ps)
  from Cons.IH [of "accept_path e b q m"] Cons.prems show ?case
    by (auto simp: accept_path_def split: if_splits)
qed simp

text \<open>A path enters the store only under the epoch of that moment and the boot its connection registered.\<close>

lemma frame_path_fenced:
  assumes "handle_frame f cx s = Some (h, cx', s')" and "om_lookup (co_paths s') i = Some p"
    and "om_lookup (co_paths s) i \<noteq> Some p"
  shows "\<exists>boot. cx_boot cx = Some boot \<and> authority_matches p (co_epoch s) boot"
  using handle_frame_effect [OF assms(1)] assms(2,3)
  by (elim co_effectE) (auto dest: fold_accept_path)

text \<open>With a stale epoch the whole snapshot leaves the paths as they were.\<close>

lemma fold_accept_none:
  "(\<forall>p \<in> set ps. \<not> authority_matches p e b) \<Longrightarrow> fold (accept_path e b) ps m = m"
  by (induction ps arbitrary: m) (auto simp: accept_path_def)

lemma frame_epoch: "handle_frame f cx s = Some (h, cx', s') \<Longrightarrow> co_epoch s' = co_epoch s"
  by (drule handle_frame_effect) (elim co_effectE, auto)

section \<open>Releases and reservations\<close>

text \<open>
  \<open>MSG_RELEASE\<close> is checked against the boot and epoch it names itself: whoever knows the names of
  an active reservation releases it, whatever boot its own connection registered.
\<close>

lemma frame_release_any_boot:
  assumes "rg_get (co_reservations s) i = Some r" and "rs_active r"
    and "rs_bytes r \<le> rg_reserved_bytes (co_reservations s) (rs_path r)" and "cx_boot cx = Some boot"
  shows "\<exists>s'. handle_frame (Frame MSG_RELEASE (write_release (ReleaseRequest (id_value i) (id_value (rs_boot r))
      (gen_value (rs_generation r)) (id_value (rs_epoch r))))) cx s = Some (Reply True ''released'', cx, s') \<and>
    s' = s\<lparr>co_reservations := snd (rg_release i (rs_boot r) (rs_generation r) (rs_epoch r) (co_reservations s))\<rparr>"
proof -
  obtain v g where rel: "rg_release i (rs_boot r) (rs_generation r) (rs_epoch r) (co_reservations s) = (v, g)"
    by fastforce
  have "fst (rg_release i (rs_boot r) (rs_generation r) (rs_epoch r) (co_reservations s)) = Success ()"
    using assms(1-3) by (auto simp: rg_release_iff)
  with rel have "v = Success ()" by simp
  with rel assms(4) show ?thesis
    by (simp add: handle_frame_def on_release_def with_payload_def)
qed

text \<open>A reservation sent by a worker is taken up as the registry takes it up.\<close>

lemma rg_reserve_norm:
  "res_ok (fst (rg_reserve (norm_reservation r) g)) \<longleftrightarrow> res_ok (fst (rg_reserve r g))"
  by (simp add: rg_reserve_def norm_reservation_def Let_def rs_mark_active_def rs_mark_released_def)

lemma frame_reserve:
  assumes "reservation_fits r 0" and "cx_boot cx = Some boot"
  shows "\<exists>ok msg. handle_frame (Frame MSG_RESERVE (encode_reservation r)) cx s = Some (Reply ok msg, cx,
      s\<lparr>co_reservations := snd (rg_reserve (norm_reservation r) (co_reservations s))\<rparr>) \<and>
    (ok \<longleftrightarrow> res_ok (fst (rg_reserve r (co_reservations s))))"
proof -
  have d: "rd_run decode_reservation (encode_reservation r) = Done (norm_reservation r)"
    using decode_reservation_encode [OF assms(1), of "[]"] by (simp add: rd_run_def rd_open_def)
  obtain v g where res: "rg_reserve (norm_reservation r) (co_reservations s) = (v, g)" by fastforce
  from res assms(2) d rg_reserve_norm [of r "co_reservations s"] show ?thesis
    by (cases v) (auto simp: handle_frame_def on_reserve_def with_payload_def)
qed

text \<open>In every reachable state the accounting of the coordinator closes.\<close>

lemma co_accounting: "co_reach s \<Longrightarrow> co_validate_accounting s = Success ()"
  by (drule co_reach_inv) (simp add: co_inv_def co_validate_accounting_def rg_inv_validate)

section \<open>Undefined behaviour on the wire\<close>

text \<open>
  A measurement message that ends after the length of its first string makes the coordinator read
  beyond the payload.
\<close>

definition cut_measurement :: "Measurement \<Rightarrow> u32 \<Rightarrow> bytes" where
  "cut_measurement m len = w_id (ms_id m) @ w_gen (ms_generation m)
     @ w_id (ms_source m) @ w_id (ms_destination m)
     @ w_u8 (TransferClass_code (ms_transfer_class m))
     @ w_u8 (EngineKind_code (ms_engine m))
     @ w_u64 (ms_bytes m) @ w_u64 (ms_iterations m)
     @ w_u64 (ms_duration_ns m) @ w_u64 (ms_latency_ns m)
     @ w_u8 (Provenance_code (ms_provenance m)) @ w_flag False @ w_u32 len"

lemma frame_measurement_undefined:
  assumes "Provenance_valid (Provenance_code (ms_provenance m))" and "0 < len" and "len \<le> 65536"
    and "cx_boot cx = Some boot"
  shows "handle_frame (Frame MSG_MEASUREMENT (cut_measurement m len)) cx s = None"
proof -
  have l: "0 < unat len" "unat len \<le> 65536"
    using assms(2,3) by (simp_all add: word_less_nat_alt word_le_nat_alt)
  have u: "unat (ucast len :: u64) = unat len"
    unfolding unsigned_ucast_eq using l by (simp add: take_bit_nat_eq_self)
  have "\<not> (max_string - of_nat 72 < (ucast len :: u64))"
    using l u by (simp add: word_less_nat_alt max_string_def)
  then have "\<not> string_refused 72 len"
    using assms(3) by (simp add: string_refused_def not_less)
  then have "r_string (Rd 68 (w_u32 len @ [])) = Undef"
    using l by (simp only: r_string_Undef) simp
  then have "r_string (Rd 68 (w_u32 len)) = Undef" by simp
  moreover have "provenance_checked (Provenance_code (ms_provenance m)) =
      Some (Provenance_cast (Provenance_code (ms_provenance m)))"
    using assms(1) by (simp add: provenance_checked_def)
  ultimately have "rd_run decode_measurement (cut_measurement m len) = Undef"
    by (simp add: rd_run_def rd_open_def decode_measurement_def cut_measurement_def rd_bind_def rd_check_def)
  with assms(4) show ?thesis
    by (simp add: handle_frame_def on_measurement_def with_payload_def)
qed

end
