(* ===== verification/PF_Session.thy ===== *)
theory PF_Session
  imports PF_Coordinator
begin

text \<open>
  What a whole connection does, \<open>handle_connection\<close> in \<open>src/pciefabric/coordinator.cpp\<close> over the
  framing of \<open>tcp.cpp\<close>: the loop ends on every finite script, and on a stream of frames it computes
  the abstract \<open>session\<close>, whatever the chunks the stream arrives in.
\<close>

section \<open>The loop ends\<close>

lemma serve_frame_socket:
  assumes "serve_frame f sk cx s = Some (r, sk', cx', s')"
  shows "sk_fd sk' = sk_fd sk \<and> sk_in sk' = sk_in sk"
proof -
  obtain h cx2 s2 where h: "handle_frame f cx s = Some (h, cx2, s2)"
    using assms by (auto simp: serve_frame_def split: option.splits)
  show ?thesis
  proof (cases h)
    case (Return x)
    with assms h show ?thesis by (simp add: serve_frame_def)
  next
    case (Reply ok msg)
    obtain q sk2 where w: "write_frame (reply_frame s2 ok msg) sk = (q, sk2)" by fastforce
    with assms h Reply have "sk' = sk2" by (simp add: serve_frame_def)
    with send_all_result [OF w [unfolded write_frame_def]] show ?thesis by simp
  qed
qed

text \<open>With more rounds than the script has events and bytes, the loop is left because the peer is gone.\<close>

lemma rounds_enough:
  "sk_valid sk \<Longrightarrow> sk_size sk < n \<Longrightarrow>
   handle_connection n sk cx s = None \<or> (\<exists>sk' s'. handle_connection n sk cx s = Some (True, sk', s'))"
proof (induction n arbitrary: sk cx s)
  case (Suc n)
  obtain r sk1 where r: "read_frame sk = (r, sk1)" by fastforce
  note size = read_frame_size [OF r]
  have valid: "sk_valid sk1" using size Suc.prems(1) sk_same_valid by blast
  show ?case
  proof (cases r)
    case Undef
    then show ?thesis using r by simp
  next
    case (Fail c m)
    show ?thesis
    proof (cases "c = EC_PEER_LOST")
      case True
      then show ?thesis using r Fail by simp
    next
      case False
      then have "sk_size sk1 < n" using size Suc.prems Fail by auto
      from Suc.IH [OF valid this] show ?thesis using r Fail False by simp
    qed
  next
    case (Done f)
    then have lt: "sk_size sk1 < n" using size Suc.prems by auto
    show ?thesis
    proof (cases "serve_frame f sk1 cx s")
      case None
      then show ?thesis using r Done by simp
    next
      case (Some x)
      obtain q sk2 cx2 s2 where x: "x = (q, sk2, cx2, s2)" by (metis prod_cases4)
      with serve_frame_socket Some have "sk_valid sk2 \<and> sk_size sk2 < n"
        using valid lt by (metis sk_size_def sk_valid_def)
      with Suc.IH [of sk2 cx2 s2] show ?thesis using r Done Some x by auto
    qed
  qed
qed simp

text \<open>More rounds change nothing.\<close>

lemma rounds_stable:
  "handle_connection n sk cx s = Some (True, sk', s') \<Longrightarrow> n \<le> m \<Longrightarrow> handle_connection m sk cx s = Some (True, sk', s')"
proof (induction n arbitrary: m sk cx s)
  case (Suc n)
  then obtain k where m: "m = Suc k" "n \<le> k" by (cases m) auto
  from Suc.prems(1) Suc.IH m(2) show ?case unfolding m(1)
    by (auto split: prod.splits outcome.splits option.splits if_splits)
qed simp

section \<open>The abstract session\<close>

fun session :: "Frame list \<Rightarrow> Connection \<Rightarrow> Coordinator \<Rightarrow> (Frame list \<times> Coordinator) option" where
  "session [] cx s = Some ([], s)"
| "session (f # fs) cx s = (case handle_frame f cx s of
      None \<Rightarrow> None
    | Some (Return r, cx', s') \<Rightarrow> if res_code r = EC_PEER_LOST then Some ([], s') else session fs cx' s'
    | Some (Reply ok msg, cx', s') \<Rightarrow>
        map_option (\<lambda>(out, s''). (reply_frame s' ok msg # out, s'')) (session fs cx' s'))"

definition same_outcome :: "TcpSocket \<Rightarrow> (bool \<times> TcpSocket \<times> Coordinator) option \<Rightarrow>
    (Frame list \<times> Coordinator) option \<Rightarrow> bool" where
  "same_outcome sk x y = (case y of None \<Rightarrow> x = None
    | Some (out, s') \<Rightarrow> \<exists>sk'. x = Some (True, sk', s') \<and> sk_out sk' = sk_out sk @ concat (map frame_encode out))"

lemma handle_connection_session:
  "sk_valid sk \<Longrightarrow> sk_script sk = [] \<Longrightarrow> only_data (sk_in sk) \<Longrightarrow>
   delivered (sk_in sk) = concat (map frame_encode fs) \<Longrightarrow>
   list_all (\<lambda>f. length (fm_payload f) \<le> kMaxPayload) fs \<Longrightarrow> sk_size sk < n \<Longrightarrow>
   same_outcome sk (handle_connection n sk cx s) (session fs cx s)"
proof (induction fs arbitrary: sk cx s n)
  case Nil
  obtain k where n: "n = Suc k" using Nil.prems(6) by (cases n) auto
  obtain sk' where "read_frame sk = (Fail EC_PEER_LOST ''connection closed'', sk')" "sk_same sk sk'"
    using read_frame_end [OF Nil.prems(1,3)] Nil.prems(4) by auto
  then show ?case by (simp add: n same_outcome_def sk_same_def)
next
  case (Cons f fs)
  obtain k where n: "n = Suc k" using Cons.prems(6) by (cases n) auto
  obtain es where r: "read_frame sk = (Done f, sk\<lparr>sk_in := es\<rparr>)" "only_data es"
    "delivered es = concat (map frame_encode fs)"
    using read_frame_data [OF Cons.prems(1,3), of f "concat (map frame_encode fs)"] Cons.prems(4,5) by auto
  let ?sk = "sk\<lparr>sk_in := es\<rparr>"
  have lt: "sk_size ?sk < k" using read_frame_size [OF r(1)] Cons.prems(1,6) n by auto
  have rest: "list_all (\<lambda>f. length (fm_payload f) \<le> kMaxPayload) fs" using Cons.prems(5) by simp
  show ?case
  proof (cases "handle_frame f cx s")
    case None
    then show ?thesis using r(1) n by (simp add: same_outcome_def serve_frame_def)
  next
    case (Some x)
    then obtain h cx' s' where h: "handle_frame f cx s = Some (h, cx', s')" by (metis prod_cases3)
    show ?thesis
    proof (cases h)
      case (Return q)
      have "same_outcome ?sk (handle_connection k ?sk cx' s') (session fs cx' s')"
        by (rule Cons.IH) (use Cons.prems r lt rest in auto)
      with h Return r(1) n show ?thesis by (auto simp: same_outcome_def serve_frame_def split: option.splits)
    next
      case (Reply ok msg)
      let ?out = "?sk\<lparr>sk_out := sk_out sk @ frame_encode (reply_frame s' ok msg)\<rparr>"
      have w: "write_frame (reply_frame s' ok msg) ?sk = (Success (), ?out)"
        using write_frame_accepting [of ?sk] Cons.prems(1,2) by simp
      have "same_outcome ?out (handle_connection k ?out cx' s') (session fs cx' s')"
        by (rule Cons.IH) (use Cons.prems r lt rest in \<open>auto simp: sk_size_def\<close>)
      with h Reply r(1) n w show ?thesis
        by (auto simp: same_outcome_def serve_frame_def split: option.splits)
    qed
  qed
qed

end
