(* ===== verification/PF_Server.thy ===== *)
theory PF_Server
  imports PF_Session
begin

text \<open>
  The coordinator as a server, the upper half of \<open>src/pciefabric/coordinator.cpp\<close>: \<open>start\<close>, the accept
  loop of \<open>run\<close>, one thread for each connection, \<open>request_stop\<close> and the destructor. The state is the
  coordinator, its listener, the threads in the order they were made (\<open>threads_\<close> and \<open>conns_\<close> keep
  them all until the end), where the caller of \<open>run\<close> and each thread are in their code, and the
  handles that are open. The scheduler picks whose step is next. A step does what the code does between
  two points where the threads can notice each other: the test of \<open>stop_\<close>, and one frame with its
  handler, whose access to the coordinator is atomic (see \<open>PF_Coordinator\<close>). After its script a peer has
  closed the connection or, where \<open>ct_idle\<close> holds, stays connected in silence: a thread that then comes
  to the end of the script is in a \<open>recv\<close> that does not return, and has no step any more.
\<close>

section \<open>State\<close>

datatype conn_phase =
    Spawned   \<comment> \<open>the socket is in the \<open>ConnContext\<close>, the thread has not started\<close>
  | Testing   \<comment> \<open>at \<open>while (!stop_.load())\<close>\<close>
  | Reading   \<comment> \<open>in the body of the loop\<close>
  | Waiting   \<comment> \<open>in a \<open>recv\<close> that does not return: the peer is connected and silent\<close>
  | Finished  \<comment> \<open>\<open>handle_connection\<close> has returned and destroyed its socket\<close>

record ConnThread =
  ct_phase :: conn_phase
  ct_sock :: TcpSocket
  ct_idle :: bool  \<comment> \<open>whether the peer stays connected after its script\<close>
  ct_conn :: Connection

datatype main_phase =
    Idle        \<comment> \<open>the owner is not in \<open>run\<close>\<close>
  | LoopTest    \<comment> \<open>at \<open>while (!stop_.load())\<close> of \<open>run\<close>\<close>
  | Accepting   \<comment> \<open>in the body of that loop\<close>
  | Joining     \<comment> \<open>the destructor waits for the threads\<close>
  | Destroyed

record Server =
  sv_co :: Coordinator
  sv_port :: u16
  sv_stop :: bool
  sv_listener :: TcpListener
  sv_main :: main_phase
  sv_threads :: "ConnThread list"
  sv_os :: Os

definition Server_new :: Server where
  "Server_new = \<lparr>sv_co = Coordinator_new, sv_port = 0, sv_stop = False, sv_listener = TcpListener_new 0,
     sv_main = Idle, sv_threads = [], sv_os = \<lparr>os_open = {}, os_nonblocking = {}\<rparr>\<rparr>"

section \<open>The owner's operations\<close>

definition sv_start :: "u16 \<Rightarrow> listen_try \<Rightarrow> Server \<Rightarrow> unit Result \<times> Server" where
  "sv_start port t s =
     (let (l0, os0) = (if ls_valid (sv_listener s) then ls_close (sv_listener s) (sv_os s)
                       else (sv_listener s, sv_os s));
          (l1, _, os1) = ls_assign l0 (TcpListener_new port) os0
      in case ls_bind t l1 os1 of
           (r, l2, os2) \<Rightarrow> (r, s\<lparr>sv_port := port, sv_listener := l2, sv_os := os2\<rparr>))"

definition sv_request_stop :: "Server \<Rightarrow> Server" where
  "sv_request_stop s = s\<lparr>sv_stop := True\<rparr>"

text \<open>The call of \<open>run\<close> up to its loop, one test of the loop, and one round of its body.\<close>

definition sv_run :: "Server \<Rightarrow> unit Result \<times> Server" where
  "sv_run s = (if \<not> ls_valid (sv_listener s) then (Err EC_NETWORK_ERROR ''listener not bound'', s)
     else (Success (), s\<lparr>sv_main := LoopTest\<rparr>))"

definition sv_loop_test :: "Server \<Rightarrow> Server" where
  "sv_loop_test s = s\<lparr>sv_main := (if sv_stop s then Idle else Accepting)\<rparr>"

definition conn_thread :: "bool \<Rightarrow> TcpSocket \<Rightarrow> ConnThread" where
  "conn_thread idle sock = \<lparr>ct_phase = Spawned, ct_sock = sock, ct_idle = idle, ct_conn = Connection_new\<rparr>"

definition sv_accept :: "bool \<Rightarrow> accept_try \<Rightarrow> Server \<Rightarrow> Server" where
  "sv_accept idle t s = (case ls_accept t True (sv_listener s) TcpSocket_new (sv_os s) of
      (Err c m, sock, os) \<Rightarrow> s\<lparr>sv_main := LoopTest, sv_os := os\<rparr>
    | (Success taken, sock, os) \<Rightarrow>
        if \<not> taken then s\<lparr>sv_main := LoopTest, sv_os := os\<rparr>
        else s\<lparr>sv_main := LoopTest, sv_os := os, sv_threads := sv_threads s @ [conn_thread idle sock]\<rparr>)"

definition sv_destroy :: "Server \<Rightarrow> Server" where
  "sv_destroy s = (case ls_close (sv_listener s) (sv_os s) of
     (l, os) \<Rightarrow> (sv_request_stop s)\<lparr>sv_listener := l, sv_os := os, sv_main := Joining\<rparr>)"

definition all_finished :: "Server \<Rightarrow> bool" where
  "all_finished s = list_all (\<lambda>t. ct_phase t = Finished) (sv_threads s)"

section \<open>A connection's thread\<close>

text \<open>The end of \<open>handle_connection\<close>, also when an exception ends it: its parameter \<open>sock\<close> is destroyed.\<close>

definition ct_finish :: "ConnThread \<Rightarrow> Os \<Rightarrow> ConnThread \<times> Os" where
  "ct_finish t os = (case tcp_close (ct_sock t) os of
     (sock, os') \<Rightarrow> (t\<lparr>ct_phase := Finished, ct_sock := sock\<rparr>, os'))"

text \<open>One round of the body of \<open>handle_connection\<close>: \<open>None\<close> where a handler is undefined.\<close>

definition ct_round :: "ConnThread \<Rightarrow> Coordinator \<Rightarrow> Os \<Rightarrow> (ConnThread \<times> Coordinator \<times> Os) option" where
  "ct_round t co os = (case read_frame (ct_sock t) of
      (Undef, sk) \<Rightarrow> None
    | (Fail c m, sk) \<Rightarrow>
        if c = EC_PEER_LOST then (case ct_finish (t\<lparr>ct_sock := sk\<rparr>) os of (t', os') \<Rightarrow> Some (t', co, os'))
        else Some (t\<lparr>ct_sock := sk, ct_phase := Testing\<rparr>, co, os)
    | (Done f, sk) \<Rightarrow> (case serve_frame f sk (ct_conn t) co of
        None \<Rightarrow> None
      | Some (r, sk', cx, co') \<Rightarrow>
          let t1 = t\<lparr>ct_sock := sk', ct_conn := cx\<rparr> in
          if res_code r = EC_PEER_LOST then (case ct_finish t1 os of (t', os') \<Rightarrow> Some (t', co', os'))
          else Some (t1\<lparr>ct_phase := Testing\<rparr>, co', os)))"

definition ct_step :: "bool \<Rightarrow> ConnThread \<Rightarrow> Coordinator \<Rightarrow> Os \<Rightarrow> (ConnThread \<times> Coordinator \<times> Os) option" where
  "ct_step stop t co os = (case ct_phase t of
      Spawned \<Rightarrow> Some (t\<lparr>ct_phase := Testing\<rparr>, co, os)
    | Testing \<Rightarrow> if stop then (case ct_finish t os of (t', os') \<Rightarrow> Some (t', co, os'))
                 else Some (t\<lparr>ct_phase := Reading\<rparr>, co, os)
    | Reading \<Rightarrow> if ct_idle t \<and> read_waits (ct_sock t) then Some (t\<lparr>ct_phase := Waiting\<rparr>, co, os)
                 else ct_round t co os
    | Waiting \<Rightarrow> None
    | Finished \<Rightarrow> None)"

definition sv_set_thread :: "nat \<Rightarrow> ConnThread \<times> Coordinator \<times> Os \<Rightarrow> Server \<Rightarrow> Server" where
  "sv_set_thread i x s = (case x of (t, co, os) \<Rightarrow>
     s\<lparr>sv_threads := (sv_threads s)[i := t], sv_co := co, sv_os := os\<rparr>)"

definition sv_thread :: "nat \<Rightarrow> Server \<Rightarrow> Server option" where
  "sv_thread i s = (if i < length (sv_threads s)
     then map_option (\<lambda>x. sv_set_thread i x s) (ct_step (sv_stop s) (sv_threads s ! i) (sv_co s) (sv_os s))
     else None)"

text \<open>An exception while a frame is read or decoded (its buffers are allocated): \<open>catch (...)\<close>.\<close>

definition sv_thread_throws :: "nat \<Rightarrow> Server \<Rightarrow> Server option" where
  "sv_thread_throws i s = (if i < length (sv_threads s) \<and> ct_phase (sv_threads s ! i) = Reading
     then (case ct_finish (sv_threads s ! i) (sv_os s) of (t, os) \<Rightarrow> Some (sv_set_thread i (t, sv_co s, os) s))
     else None)"

section \<open>Steps\<close>

text \<open>The work of the server: the loop of \<open>run\<close>, the threads, and the end of the destructor's wait.\<close>

inductive sv_work :: "Server \<Rightarrow> Server \<Rightarrow> bool" where
  work_test: "sv_main s = LoopTest \<Longrightarrow> sv_work s (sv_loop_test s)"
| work_accept: "sv_main s = Accepting \<Longrightarrow> accept_fresh (sv_os s) t \<Longrightarrow> sv_work s (sv_accept idle t s)"
| work_thread: "sv_thread i s = Some s' \<Longrightarrow> sv_work s s'"
| work_throws: "sv_thread_throws i s = Some s' \<Longrightarrow> sv_work s s'"
| work_joined: "sv_main s = Joining \<Longrightarrow> all_finished s \<Longrightarrow> sv_work s (s\<lparr>sv_main := Destroyed\<rparr>)"

text \<open>What the owner of the coordinator does while the object lives; \<open>run\<close> keeps one thread of the owner busy.\<close>

definition sv_alive :: "Server \<Rightarrow> bool" where
  "sv_alive s = (sv_main s \<noteq> Joining \<and> sv_main s \<noteq> Destroyed)"

definition sv_owner_update :: "Coordinator \<Rightarrow> Coordinator \<Rightarrow> bool" where
  "sv_owner_update co co' = (co' = co_advance_epoch co \<or> co' = co_revalidate_all co \<or>
     (\<exists>p. co' = co_set_persist_path p co))"

inductive sv_own :: "Server \<Rightarrow> Server \<Rightarrow> bool" where
  own_start: "sv_main s = Idle \<Longrightarrow> listen_fresh (sv_os s) t \<Longrightarrow> sv_own s (snd (sv_start port t s))"
| own_run: "sv_main s = Idle \<Longrightarrow> sv_own s (snd (sv_run s))"
| own_stop: "sv_alive s \<Longrightarrow> sv_own s (sv_request_stop s)"
| own_update: "sv_alive s \<Longrightarrow> sv_owner_update (sv_co s) co \<Longrightarrow> sv_own s (s\<lparr>sv_co := co\<rparr>)"
| own_destroy: "sv_main s = Idle \<Longrightarrow> sv_own s (sv_destroy s)"

definition sv_step :: "Server \<Rightarrow> Server \<Rightarrow> bool" where
  "sv_step s s' = (sv_work s s' \<or> sv_own s s')"

definition sv_init :: "Server \<Rightarrow> bool" where
  "sv_init s = (s = Server_new)"

definition sv_reach :: "Server \<Rightarrow> bool" where
  "sv_reach = reachable sv_init sv_step"

inductive_cases sv_workE: "sv_work s s'"
inductive_cases sv_ownE: "sv_own s s'"

section \<open>The coordinator inside the server\<close>

lemma serve_frame_co_step:
  "serve_frame f sk cx co = Some (r, sk', cx', co') \<Longrightarrow> co_step co co' \<and> sk_fd sk' = sk_fd sk"
  using serve_frame_socket [of f sk cx co r sk' cx' co']
  by (auto simp: serve_frame_def split: option.splits handled.splits prod.splits intro: co_step_frame)

text \<open>What a step of a thread does: it keeps its socket and goes on, or closes it and has ended.\<close>

definition ct_goes_on :: "ConnThread \<Rightarrow> Os \<Rightarrow> ConnThread \<Rightarrow> Os \<Rightarrow> bool" where
  "ct_goes_on t os t' os' = (sk_fd (ct_sock t') = sk_fd (ct_sock t) \<and> os' = os \<and>
     ct_phase t' \<noteq> Finished \<and> ct_phase t' \<noteq> Spawned)"

definition ct_ends :: "ConnThread \<Rightarrow> Os \<Rightarrow> ConnThread \<Rightarrow> Os \<Rightarrow> bool" where
  "ct_ends t os t' os' = (ct_phase t' = Finished \<and> sk_fd (ct_sock t') = invalid_fd \<and>
     os' = (if sk_valid (ct_sock t) then closesocket (sk_fd (ct_sock t)) os else os))"

lemma ct_finish_ends:
  "ct_finish t os = (t', os') \<Longrightarrow> sk_fd (ct_sock t) = sk_fd (ct_sock u) \<Longrightarrow> ct_ends u os t' os'"
  by (auto simp: ct_finish_def tcp_close_def ct_ends_def sk_valid_def split: if_splits)

lemma ct_round_effect:
  assumes "ct_round t co os = Some (t', co', os')"
  shows "(co' = co \<or> co_step co co') \<and> (ct_goes_on t os t' os' \<and> ct_phase t' = Testing \<or> ct_ends t os t' os')"
proof -
  obtain x sk where r: "read_frame (ct_sock t) = (x, sk)" by fastforce
  have fd: "sk_fd sk = sk_fd (ct_sock t)" using read_frame_size [OF r] by (simp add: sk_same_def)
  show ?thesis
  proof (cases x)
    case (Fail c m)
    with assms r fd show ?thesis
      by (auto simp: ct_round_def ct_goes_on_def split: if_splits prod.splits intro: ct_finish_ends)
  next
    case (Done f)
    with assms r obtain q sk2 cx co2 where s: "serve_frame f sk (ct_conn t) co = Some (q, sk2, cx, co2)"
      by (auto simp: ct_round_def split: option.splits)
    with serve_frame_co_step [OF s] assms r Done fd show ?thesis
      by (auto simp: ct_round_def ct_goes_on_def Let_def split: if_splits prod.splits intro: ct_finish_ends)
  qed (use assms r in \<open>auto simp: ct_round_def\<close>)
qed

lemma ct_step_effect:
  assumes "ct_step stop t co os = Some (t', co', os')"
  shows "ct_phase t \<noteq> Finished \<and> (co' = co \<or> co_step co co') \<and> (ct_goes_on t os t' os' \<or> ct_ends t os t' os')"
proof (cases "ct_phase t")
  case Reading
  with assms show ?thesis using ct_round_effect [of t co os t' co' os']
    by (auto simp: ct_step_def ct_goes_on_def split: if_splits)
qed (use assms in \<open>auto simp: ct_step_def ct_goes_on_def split: if_splits prod.splits intro: ct_finish_ends\<close>)

text \<open>A step of the server's threads, by any of the two rules.\<close>

definition sv_thread_moves :: "nat \<Rightarrow> Server \<Rightarrow> Server \<Rightarrow> bool" where
  "sv_thread_moves i s s' = (sv_thread i s = Some s' \<or> sv_thread_throws i s = Some s')"

lemma sv_thread_moves_effect:
  assumes "sv_thread_moves i s s'"
  shows "i < length (sv_threads s) \<and> ct_phase (sv_threads s ! i) \<noteq> Finished \<and>
    (\<exists>t co os. s' = sv_set_thread i (t, co, os) s \<and> (co = sv_co s \<or> co_step (sv_co s) co) \<and>
      (ct_goes_on (sv_threads s ! i) (sv_os s) t os \<or> ct_ends (sv_threads s ! i) (sv_os s) t os))"
proof (cases "sv_thread i s = Some s'")
  case True
  then obtain t co os where "i < length (sv_threads s)" "s' = sv_set_thread i (t, co, os) s"
    "ct_step (sv_stop s) (sv_threads s ! i) (sv_co s) (sv_os s) = Some (t, co, os)"
    by (auto simp: sv_thread_def split: if_splits)
  with ct_step_effect show ?thesis by blast
next
  case False
  with assms have t: "sv_thread_throws i s = Some s'" by (simp add: sv_thread_moves_def)
  obtain t os where f: "ct_finish (sv_threads s ! i) (sv_os s) = (t, os)" by fastforce
  with t have "i < length (sv_threads s)" "ct_phase (sv_threads s ! i) = Reading"
    "s' = sv_set_thread i (t, sv_co s, os) s"
    by (auto simp: sv_thread_throws_def split: if_splits)
  with ct_finish_ends [OF f refl] show ?thesis by auto
qed

text \<open>The kinds of step of the server, as the proofs about it need them.\<close>

lemma sv_step_cases [consumes 1, case_names test accept thread joined start run stop update destroy]:
  assumes "sv_step s s'"
    and "sv_main s = LoopTest \<Longrightarrow> s' = sv_loop_test s \<Longrightarrow> P"
    and "\<And>idle t. sv_main s = Accepting \<Longrightarrow> accept_fresh (sv_os s) t \<Longrightarrow> s' = sv_accept idle t s \<Longrightarrow> P"
    and "\<And>i. sv_thread_moves i s s' \<Longrightarrow> P"
    and "sv_main s = Joining \<Longrightarrow> all_finished s \<Longrightarrow> s' = s\<lparr>sv_main := Destroyed\<rparr> \<Longrightarrow> P"
    and "\<And>t port. sv_main s = Idle \<Longrightarrow> listen_fresh (sv_os s) t \<Longrightarrow> s' = snd (sv_start port t s) \<Longrightarrow> P"
    and "sv_main s = Idle \<Longrightarrow> s' = snd (sv_run s) \<Longrightarrow> P"
    and "sv_alive s \<Longrightarrow> s' = sv_request_stop s \<Longrightarrow> P"
    and "\<And>co. sv_alive s \<Longrightarrow> sv_owner_update (sv_co s) co \<Longrightarrow> s' = s\<lparr>sv_co := co\<rparr> \<Longrightarrow> P"
    and "sv_main s = Idle \<Longrightarrow> s' = sv_destroy s \<Longrightarrow> P"
  shows P
  using assms(1) unfolding sv_step_def
proof
  assume "sv_work s s'"
  then show P using assms(2-5) by (cases rule: sv_work.cases) (auto simp: sv_thread_moves_def)
next
  assume "sv_own s s'"
  then show P using assms(6-10) by (cases rule: sv_own.cases) auto
qed

text \<open>What \<open>start\<close>, \<open>accept\<close> and the destructor leave alone.\<close>

lemma sv_frame [simp]:
  "sv_co (snd (sv_start port t s)) = sv_co s" "sv_threads (snd (sv_start port t s)) = sv_threads s"
  "sv_stop (snd (sv_start port t s)) = sv_stop s" "sv_main (snd (sv_start port t s)) = sv_main s"
  "sv_co (sv_accept idle a s) = sv_co s" "sv_stop (sv_accept idle a s) = sv_stop s"
  "sv_main (sv_accept idle a s) = LoopTest" "sv_listener (sv_accept idle a s) = sv_listener s"
  "sv_co (sv_destroy s) = sv_co s" "sv_threads (sv_destroy s) = sv_threads s"
  "sv_stop (sv_destroy s)" "sv_main (sv_destroy s) = Joining"
  "sv_co (snd (sv_run s)) = sv_co s" "sv_threads (snd (sv_run s)) = sv_threads s"
  "sv_stop (snd (sv_run s)) = sv_stop s"
  by (auto simp: sv_start_def sv_accept_def sv_destroy_def sv_request_stop_def sv_run_def Let_def
      split: prod.splits Result.splits)

lemma sv_set_thread_frame [simp]:
  "sv_co (sv_set_thread i (t, co, os) s) = co"
  "sv_os (sv_set_thread i (t, co, os) s) = os"
  "sv_threads (sv_set_thread i (t, co, os) s) = (sv_threads s)[i := t]"
  "sv_stop (sv_set_thread i x s) = sv_stop s"
  "sv_main (sv_set_thread i x s) = sv_main s"
  "sv_listener (sv_set_thread i x s) = sv_listener s"
  "sv_port (sv_set_thread i x s) = sv_port s"
  by (simp_all add: sv_set_thread_def split: prod.splits)

lemma owner_co_step: "sv_owner_update co co' \<Longrightarrow> co_step co co'"
  by (auto simp: sv_owner_update_def intro: co_step.intros)

text \<open>
  The server implements the coordinator's state machine: a step of the server is a step of the
  coordinator or leaves it alone, whatever the threads, sockets and the listener do.
\<close>

lemma sv_step_refines: "sv_step s s' \<Longrightarrow> sv_co s' = sv_co s \<or> co_step (sv_co s) (sv_co s')"
  by (cases rule: sv_step_cases)
     (auto simp: sv_loop_test_def sv_request_stop_def owner_co_step dest!: sv_thread_moves_effect)

interpretation svc: simulation sv_init sv_step co_start co_step sv_co
  by unfold_locales (simp add: sv_init_def Server_new_def co_start_def, rule sv_step_refines)

lemma sv_reach_co: "sv_reach s \<Longrightarrow> co_reach (sv_co s)"
  unfolding sv_reach_def co_reach_def by (rule svc.sim_reach)

section \<open>Handles\<close>

text \<open>The handles in a list are all different, and they are all that is open.\<close>

definition owns :: "handle list \<Rightarrow> Os \<Rightarrow> bool" where
  "owns hs os = (distinct (filter (\<lambda>h. h \<noteq> invalid_fd) hs) \<and> set (filter (\<lambda>h. h \<noteq> invalid_fd) hs) = os_open os)"

lemma owns_open: "os_open os' = os_open os \<Longrightarrow> owns hs os' = owns hs os"
  by (simp add: owns_def)

lemma owns_closed: "owns (invalid_fd # hs) os = owns hs os"
  by (simp add: owns_def)

lemma owns_grow:
  assumes "owns hs os" and "os_open os' = os_open os \<union> fd_of h" and "fd_of h \<inter> os_open os = {}"
  shows "owns (h # hs) os'" and "owns (hs @ [h]) os'"
  using assms by (auto simp: owns_def fd_of_def split: if_splits)

lemma owns_close:
  assumes "owns hs os" and "i < length hs" and "hs ! i = h" and "h \<noteq> invalid_fd"
  shows "owns (hs[i := invalid_fd]) (closesocket h os)"
proof -
  have "hs = take i hs @ h # drop (Suc i) hs" "hs[i := invalid_fd] = take i hs @ invalid_fd # drop (Suc i) hs"
    using assms(2,3) by (auto simp: id_take_nth_drop upd_conv_take_nth_drop)
  then obtain xs ys where "hs = xs @ h # ys" "hs[i := invalid_fd] = xs @ invalid_fd # ys" by blast
  with assms(1,4) show ?thesis by (auto simp: owns_def)
qed

lemma owns_member: "owns hs os \<Longrightarrow> h \<in> set hs \<Longrightarrow> h \<noteq> invalid_fd \<Longrightarrow> h \<in> os_open os"
  by (auto simp: owns_def)

lemma owns_head: "owns (h # hs) os \<Longrightarrow> h \<noteq> invalid_fd \<Longrightarrow> h \<notin> set hs"
  by (auto simp: owns_def)

definition thread_fds :: "ConnThread list \<Rightarrow> handle list" where
  "thread_fds ts = map (\<lambda>t. sk_fd (ct_sock t)) ts"

lemma thread_fds_simps [simp]:
  "length (thread_fds ts) = length ts" "thread_fds (ts @ [t]) = thread_fds ts @ [sk_fd (ct_sock t)]"
  "i < length ts \<Longrightarrow> thread_fds ts ! i = sk_fd (ct_sock (ts ! i))"
  "thread_fds (ts[i := t]) = (thread_fds ts)[i := sk_fd (ct_sock t)]" "thread_fds [] = []"
  by (simp_all add: thread_fds_def map_update)

text \<open>
  The listener and the threads hold exactly the open handles, a thread has closed its socket
  exactly when it has ended, and where the owner is fits the listener and the stop flag.
\<close>

definition sv_inv :: "Server \<Rightarrow> bool" where
  "sv_inv s = (owns (ls_fd (sv_listener s) # thread_fds (sv_threads s)) (sv_os s) \<and>
     list_all (\<lambda>t. ct_phase t = Finished \<longleftrightarrow> \<not> sk_valid (ct_sock t)) (sv_threads s) \<and>
     (sv_main s = LoopTest \<or> sv_main s = Accepting \<longrightarrow> ls_valid (sv_listener s)) \<and>
     (\<not> sv_alive s \<longrightarrow> sv_stop s \<and> \<not> ls_valid (sv_listener s)) \<and>
     (sv_main s = Destroyed \<longrightarrow> all_finished s))"

definition sv_owns :: "Server \<Rightarrow> bool" where
  "sv_owns s = owns (ls_fd (sv_listener s) # thread_fds (sv_threads s)) (sv_os s)"

definition sv_phases :: "ConnThread list \<Rightarrow> bool" where
  "sv_phases ts = list_all (\<lambda>t. ct_phase t = Finished \<longleftrightarrow> \<not> sk_valid (ct_sock t)) ts"

definition sv_main_ok :: "Server \<Rightarrow> bool" where
  "sv_main_ok s = ((sv_main s = LoopTest \<or> sv_main s = Accepting \<longrightarrow> ls_valid (sv_listener s)) \<and>
     (\<not> sv_alive s \<longrightarrow> sv_stop s \<and> \<not> ls_valid (sv_listener s)) \<and>
     (sv_main s = Destroyed \<longrightarrow> all_finished s))"

lemma sv_inv_parts: "sv_inv s = (sv_owns s \<and> sv_phases (sv_threads s) \<and> sv_main_ok s)"
  by (simp add: sv_inv_def sv_owns_def sv_phases_def sv_main_ok_def)

lemma sv_phases_nth:
  "sv_phases ts \<Longrightarrow> i < length ts \<Longrightarrow> ct_phase (ts ! i) = Finished \<longleftrightarrow> \<not> sk_valid (ct_sock (ts ! i))"
  by (simp add: sv_phases_def list_all_length)

lemma sv_phases_update:
  "sv_phases ts \<Longrightarrow> (ct_phase t = Finished \<longleftrightarrow> \<not> sk_valid (ct_sock t)) \<Longrightarrow> sv_phases (ts[i := t])"
  unfolding sv_phases_def list_all_iff using set_update_subset_insert [of ts i t] by blast

subsection \<open>A listener that is closed or started again\<close>

lemma ls_close_owns:
  "ls_close l os = (l', os') \<Longrightarrow> owns (ls_fd l # hs) os \<Longrightarrow>
   ls_fd l' = invalid_fd \<and> owns hs os' \<and> (\<forall>h. fresh_handle os h \<longrightarrow> fresh_handle os' h)"
  using owns_close [of "ls_fd l # hs" os 0 "ls_fd l"]
  by (auto simp: ls_close_def ls_valid_def owns_closed fresh_handle_def split: if_splits)

lemma ls_bind_owns:
  assumes "ls_bind t l os = (r, l', os')" and "listen_fresh os t" and "\<not> ls_valid l" and "owns hs os"
  shows "owns (ls_fd l' # hs) os' \<and> (ls_valid l' \<longleftrightarrow> r = Success ())"
  using bind_open [OF assms(2,3,1)] owns_grow(1) [OF assms(4)] by blast

lemma listen_fresh_mono:
  "listen_fresh os t \<Longrightarrow> (\<forall>h. fresh_handle os h \<longrightarrow> fresh_handle os' h) \<Longrightarrow> listen_fresh os' t"
  by (cases t) (simp_all add: listen_fresh_def)

lemma sv_start_owns:
  assumes "sv_owns s" and "listen_fresh (sv_os s) t" and "sv_start port t s = (r, s')"
  shows "sv_owns s' \<and> sv_port s' = port \<and> (ls_valid (sv_listener s') \<longleftrightarrow> r = Success ())"
proof -
  let ?hs = "thread_fds (sv_threads s)"
  obtain l0 os0 where c: "ls_close (sv_listener s) (sv_os s) = (l0, os0)" by fastforce
  have o: "owns ?hs os0" "ls_fd l0 = invalid_fd" "\<forall>h. fresh_handle (sv_os s) h \<longrightarrow> fresh_handle os0 h"
    using ls_close_owns [OF c, of ?hs] assms(1) by (auto simp: sv_owns_def)
  have same: "(if ls_valid (sv_listener s) then ls_close (sv_listener s) (sv_os s) else (sv_listener s, sv_os s)) = (l0, os0)"
    using c by (auto simp: ls_close_def)
  have n: "ls_close l0 os0 = (l0, os0)" using o(2) by (simp add: ls_close_def ls_valid_def)
  obtain r2 l2 os2 where b: "ls_bind t (TcpListener_new port) os0 = (r2, l2, os2)" by (metis prod_cases3)
  have "s' = s\<lparr>sv_port := port, sv_listener := l2, sv_os := os2\<rparr>" "r2 = r"
    using assms(3) by (auto simp: sv_start_def same ls_assign_def n b)
  with ls_bind_owns [OF b listen_fresh_mono [OF assms(2) o(3)] _ o(1)] show ?thesis
    by (simp add: sv_owns_def TcpListener_new_def ls_valid_def)
qed

lemma sv_destroy_owns: "sv_owns s \<Longrightarrow> sv_owns (sv_destroy s) \<and> \<not> ls_valid (sv_listener (sv_destroy s))"
  by (auto simp: sv_owns_def sv_destroy_def sv_request_stop_def ls_valid_def owns_closed
      split: prod.splits dest: ls_close_owns)

subsection \<open>A new connection\<close>

lemma sv_accept_cases:
  assumes "accept_fresh (sv_os s) t"
  obtains (none) os where "sv_accept idle t s = s\<lparr>sv_main := LoopTest, sv_os := os\<rparr>" "os_open os = os_open (sv_os s)"
  | (taken) sock os where
      "sv_accept idle t s = s\<lparr>sv_main := LoopTest, sv_os := os, sv_threads := sv_threads s @ [conn_thread idle sock]\<rparr>"
      "sk_valid sock" "os_open os = os_open (sv_os s) \<union> fd_of (sk_fd sock)" "fd_of (sk_fd sock) \<inter> os_open (sv_os s) = {}"
      "sk_fd sock \<notin> os_nonblocking os"
proof -
  obtain r sock os where a: "ls_accept t True (sv_listener s) TcpSocket_new (sv_os s) = (r, sock, os)"
    by (metis prod_cases3)
  note o = accept_open [OF assms TcpSocket_new_invalid a]
  show thesis
  proof (cases "r = Success True")
    case True
    with a o show thesis by (intro taken [of sock os]) (auto simp: sv_accept_def)
  next
    case False
    with o have "fd_of (sk_fd sock) = {}" by (simp add: sk_valid_def)
    with False a o show thesis by (intro none [of os]) (auto simp: sv_accept_def split: Result.splits)
  qed
qed

lemma sv_accept_owns:
  assumes "sv_owns s" and "sv_phases (sv_threads s)" and "accept_fresh (sv_os s) t"
  shows "sv_owns (sv_accept idle t s) \<and> sv_phases (sv_threads (sv_accept idle t s))"
  using assms(3)
proof (cases rule: sv_accept_cases [where idle = idle])
  case (none os)
  with assms(1,2) show ?thesis by (simp add: sv_owns_def owns_open [OF none(2)])
next
  case (taken sock os)
  from owns_grow(2) [OF assms(1) [unfolded sv_owns_def] taken(3,4)] assms(2) taken(1,2) show ?thesis
    by (auto simp: sv_owns_def conn_thread_def sv_phases_def)
qed

subsection \<open>A thread\<close>

lemma ct_result_phase:
  "ct_goes_on t os t' os' \<Longrightarrow> sk_valid (ct_sock t) \<Longrightarrow> ct_phase t' = Finished \<longleftrightarrow> \<not> sk_valid (ct_sock t')"
  "ct_ends t os t' os' \<Longrightarrow> ct_phase t' = Finished \<longleftrightarrow> \<not> sk_valid (ct_sock t')"
  by (simp_all add: ct_goes_on_def ct_ends_def sk_valid_def)

lemma sv_thread_owns:
  assumes "sv_thread_moves i s s'" and "sv_owns s" and "sv_phases (sv_threads s)"
  shows "sv_owns s' \<and> sv_phases (sv_threads s')"
proof -
  let ?t = "sv_threads s ! i" and ?hs = "ls_fd (sv_listener s) # thread_fds (sv_threads s)"
  obtain t co os where i: "i < length (sv_threads s)" "ct_phase ?t \<noteq> Finished" "s' = sv_set_thread i (t, co, os) s"
    and e: "ct_goes_on ?t (sv_os s) t os \<or> ct_ends ?t (sv_os s) t os"
    using sv_thread_moves_effect [OF assms(1)] by blast
  have valid: "sk_valid (ct_sock ?t)" using sv_phases_nth [OF assms(3) i(1)] i(2) by simp
  have o: "owns ?hs (sv_os s)" using assms(2) by (simp add: sv_owns_def)
  have s': "thread_fds (sv_threads s') = (thread_fds (sv_threads s))[i := sk_fd (ct_sock t)]"
    "sv_os s' = os" "ls_fd (sv_listener s') = ls_fd (sv_listener s)" "sv_threads s' = (sv_threads s)[i := t]"
    using i(1,3) by simp_all
  have p: "sv_phases (sv_threads s')"
    using e valid unfolding s'(4) by (auto intro!: sv_phases_update [OF assms(3)] simp: ct_result_phase)
  from e have "owns (ls_fd (sv_listener s') # thread_fds (sv_threads s')) (sv_os s')"
  proof
    assume "ct_goes_on ?t (sv_os s) t os"
    then have "sk_fd (ct_sock t) = thread_fds (sv_threads s) ! i" "os = sv_os s"
      using i(1) by (simp_all add: ct_goes_on_def)
    with o show ?thesis unfolding s' by simp
  next
    assume "ct_ends ?t (sv_os s) t os"
    then have "sk_fd (ct_sock t) = invalid_fd" "os = closesocket (thread_fds (sv_threads s) ! i) (sv_os s)"
      using valid i(1) by (simp_all add: ct_ends_def)
    with owns_close [OF o, of "Suc i"] i(1) valid show ?thesis unfolding s' by (simp add: sk_valid_def)
  qed
  with p show ?thesis by (simp add: sv_owns_def)
qed

lemma all_finished_stays: "all_finished s \<Longrightarrow> \<not> sv_thread_moves i s s'"
  by (auto simp: all_finished_def list_all_length dest!: sv_thread_moves_effect)

subsection \<open>Every step keeps the invariant\<close>

lemma sv_inv_init: "sv_inv Server_new"
  by (simp add: sv_inv_def Server_new_def TcpListener_new_def owns_def sv_alive_def)

lemma sv_inv_step:
  assumes "sv_inv s" and "sv_step s s'"
  shows "sv_inv s'"
proof -
  have o: "sv_owns s" and p: "sv_phases (sv_threads s)" and m: "sv_main_ok s"
    using assms(1) by (simp_all add: sv_inv_parts)
  from assms(2) show ?thesis
  proof (cases rule: sv_step_cases)
    case test
    with o p m show ?thesis by (simp add: sv_inv_parts sv_owns_def sv_main_ok_def sv_loop_test_def sv_alive_def)
  next
    case (accept idle t)
    with sv_accept_owns [OF o p accept(2)] m show ?thesis by (simp add: sv_inv_parts sv_main_ok_def sv_alive_def)
  next
    case (thread i)
    with sv_thread_moves_effect [OF thread] have f: "sv_main s' = sv_main s" "sv_stop s' = sv_stop s"
      "sv_listener s' = sv_listener s" by auto
    have "sv_main s \<noteq> Destroyed" using thread m all_finished_stays by (auto simp: sv_main_ok_def)
    with sv_thread_owns [OF thread o p] m f show ?thesis by (simp add: sv_inv_parts sv_main_ok_def sv_alive_def)
  next
    case joined
    with o p m show ?thesis
      by (auto simp: sv_inv_parts sv_owns_def sv_main_ok_def all_finished_def sv_alive_def)
  next
    case (start t port)
    obtain r s1 where st: "sv_start port t s = (r, s1)" by fastforce
    with start sv_start_owns [OF o start(2) st] sv_frame(1-4) [of port t s] p show ?thesis
      by (simp add: sv_inv_parts sv_main_ok_def sv_alive_def)
  next
    case run
    with o p m show ?thesis
      by (auto simp: sv_inv_parts sv_owns_def sv_main_ok_def sv_run_def sv_alive_def)
  next
    case stop
    with o p m show ?thesis
      by (simp add: sv_inv_parts sv_owns_def sv_main_ok_def sv_request_stop_def sv_alive_def)
  next
    case (update co)
    with o p m show ?thesis by (simp add: sv_inv_parts sv_owns_def sv_main_ok_def sv_alive_def)
  next
    case destroy
    with sv_destroy_owns [OF o] p show ?thesis by (simp add: sv_inv_parts sv_main_ok_def sv_alive_def)
  qed
qed

interpretation svi: invariant sv_init sv_step sv_inv
  by unfold_locales (auto simp: sv_init_def sv_inv_init intro: sv_inv_step)

lemma sv_reach_inv: "sv_reach s \<Longrightarrow> sv_inv s"
  unfolding sv_reach_def by (rule svi.always)

text \<open>Once the destructor has returned, nothing is open.\<close>

lemma owns_none: "\<forall>h \<in> set hs. h = invalid_fd \<Longrightarrow> owns hs os \<Longrightarrow> os_open os = {}"
  by (auto simp: owns_def filter_empty_conv)

lemma sv_destroyed_closed:
  assumes "sv_reach s" and "sv_main s = Destroyed"
  shows "os_open (sv_os s) = {}"
proof (rule owns_none)
  have i: "sv_inv s" by (rule sv_reach_inv [OF assms(1)])
  then show "owns (ls_fd (sv_listener s) # thread_fds (sv_threads s)) (sv_os s)" by (simp add: sv_inv_def)
  from i assms(2) show "\<forall>h \<in> set (ls_fd (sv_listener s) # thread_fds (sv_threads s)). h = invalid_fd"
    by (auto simp: sv_inv_def all_finished_def list_all_iff sv_alive_def ls_valid_def sk_valid_def thread_fds_def)
qed

section \<open>Stopping\<close>

text \<open>
  How many steps are left once a stop is requested: a thread ends its round and tests once more; the
  accept loop ends its round, in which it may still take one connection, and tests once more.
\<close>

definition ct_rank :: "conn_phase \<Rightarrow> nat" where
  "ct_rank p = (case p of Spawned \<Rightarrow> 2 | Testing \<Rightarrow> 1 | Reading \<Rightarrow> 2 | Waiting \<Rightarrow> 0 | Finished \<Rightarrow> 0)"

definition main_rank :: "main_phase \<Rightarrow> nat" where
  "main_rank p = (case p of Idle \<Rightarrow> 0 | LoopTest \<Rightarrow> 1 | Accepting \<Rightarrow> 4 | Joining \<Rightarrow> 1 | Destroyed \<Rightarrow> 0)"

definition sv_rank :: "Server \<Rightarrow> nat" where
  "sv_rank s = main_rank (sv_main s) + sum_list (map (\<lambda>t. ct_rank (ct_phase t)) (sv_threads s))"

lemma rank_bound: "sv_rank s \<le> 4 + 2 * length (sv_threads s)"
proof -
  have "sum_list (map (\<lambda>t. ct_rank (ct_phase t)) ts) \<le> 2 * length ts" for ts
    by (induction ts) (auto simp: ct_rank_def split: conn_phase.split)
  moreover have "main_rank p \<le> 4" for p by (simp add: main_rank_def split: main_phase.split)
  ultimately show ?thesis unfolding sv_rank_def using add_mono by blast
qed

lemma sum_list_update_less:
  "i < length xs \<Longrightarrow> f y < f (xs ! i) \<Longrightarrow> sum_list (map f (xs[i := y])) < (sum_list (map f xs) :: nat)"
proof (induction xs arbitrary: i)
  case (Cons x xs)
  then show ?case by (cases i) (auto simp: less_diff_conv)
qed simp

lemma ct_step_rank:
  assumes "ct_step True t co os = Some (t', co', os')"
  shows "ct_rank (ct_phase t') < ct_rank (ct_phase t)"
proof (cases "ct_phase t")
  case Reading
  show ?thesis
  proof (cases "ct_idle t \<and> read_waits (ct_sock t)")
    case False
    with assms Reading have "ct_round t co os = Some (t', co', os')" by (simp add: ct_step_def)
    from ct_round_effect [OF this] Reading show ?thesis by (auto simp: ct_rank_def ct_ends_def)
  qed (use assms Reading in \<open>auto simp: ct_step_def ct_rank_def\<close>)
qed (use assms in \<open>auto simp: ct_step_def ct_finish_def ct_rank_def split: prod.splits\<close>)

lemma sv_thread_rank:
  assumes "sv_thread_moves i s s'" and "sv_stop s"
  shows "sv_rank s' < sv_rank s \<and> length (sv_threads s') = length (sv_threads s)"
proof -
  obtain t co os where i: "i < length (sv_threads s)" "s' = sv_set_thread i (t, co, os) s"
    and r: "ct_rank (ct_phase t) < ct_rank (ct_phase (sv_threads s ! i))"
  proof (cases "sv_thread i s = Some s'")
    case True
    then obtain t co os where "i < length (sv_threads s)" "s' = sv_set_thread i (t, co, os) s"
      "ct_step True (sv_threads s ! i) (sv_co s) (sv_os s) = Some (t, co, os)"
      using assms(2) by (auto simp: sv_thread_def split: if_splits)
    with ct_step_rank that show thesis by blast
  next
    case False
    with assms(1) that show thesis
      by (auto simp: sv_thread_moves_def sv_thread_throws_def ct_finish_def ct_rank_def split: if_splits prod.splits)
  qed
  with sum_list_update_less [OF i(1), of "\<lambda>t. ct_rank (ct_phase t)" t] show ?thesis
    by (simp add: sv_rank_def)
qed

lemma sv_work_rank:
  assumes "sv_work s s'" and "sv_stop s"
  shows "sv_rank s' < sv_rank s \<and> sv_stop s'"
  using assms(1)
proof (cases rule: sv_work.cases)
  case work_test
  with assms(2) show ?thesis by (simp add: sv_loop_test_def sv_rank_def main_rank_def)
next
  case (work_accept t idle)
  from work_accept(3) show ?thesis
    by (cases rule: sv_accept_cases [where idle = idle]) (use assms(2) work_accept(1,2) in
      \<open>simp_all add: sv_rank_def main_rank_def conn_thread_def ct_rank_def\<close>)
next
  case (work_thread i)
  then have m: "sv_thread_moves i s s'" by (simp add: sv_thread_moves_def)
  from sv_thread_rank [OF m assms(2)] sv_thread_moves_effect [OF m] assms(2) show ?thesis by auto
next
  case (work_throws i)
  then have m: "sv_thread_moves i s s'" by (simp add: sv_thread_moves_def)
  from sv_thread_rank [OF m assms(2)] sv_thread_moves_effect [OF m] assms(2) show ?thesis by auto
next
  case work_joined
  with assms(2) show ?thesis by (simp add: sv_rank_def main_rank_def)
qed

interpretation svw: ranked_work sv_work sv_stop sv_rank
  by unfold_locales (rule sv_work_rank)

text \<open>
  A thread waits only for a peer that is connected and silent: for a \<open>recv\<close> at the end of what the peer
  sends.
\<close>

definition ct_wait_ok :: "ConnThread \<Rightarrow> bool" where
  "ct_wait_ok t = (ct_phase t = Waiting \<longrightarrow> ct_idle t \<and> read_waits (ct_sock t))"

definition sv_wait_ok :: "Server \<Rightarrow> bool" where
  "sv_wait_ok s = list_all ct_wait_ok (sv_threads s)"

lemma ct_round_no_wait: "ct_round t co os = Some (t', co', os') \<Longrightarrow> ct_phase t' \<noteq> Waiting"
  using ct_round_effect [of t co os t' co' os'] by (auto simp: ct_ends_def)

lemma ct_step_wait_ok: "ct_step stop t co os = Some (t', co', os') \<Longrightarrow> ct_wait_ok t'"
  using ct_round_no_wait [of t co os t' co' os']
  by (cases "ct_phase t") (auto simp: ct_step_def ct_wait_ok_def ct_finish_def split: if_splits prod.splits)

lemma sv_thread_wait_ok:
  assumes "sv_thread_moves i s s'" and "sv_wait_ok s"
  shows "sv_wait_ok s'"
proof -
  obtain t co os where i: "s' = sv_set_thread i (t, co, os) s" and t: "ct_wait_ok t"
  proof (cases "sv_thread i s = Some s'")
    case True
    then obtain t co os where "s' = sv_set_thread i (t, co, os) s"
      "ct_step (sv_stop s) (sv_threads s ! i) (sv_co s) (sv_os s) = Some (t, co, os)"
      by (auto simp: sv_thread_def split: if_splits)
    with ct_step_wait_ok that show thesis by blast
  next
    case False
    with assms(1) that show thesis
      by (auto simp: sv_thread_moves_def sv_thread_throws_def ct_finish_def ct_wait_ok_def split: if_splits prod.splits)
  qed
  show ?thesis
    using assms(2) t set_update_subset_insert [of "sv_threads s" i t] by (auto simp: sv_wait_ok_def list_all_iff i)
qed

lemma sv_wait_ok_step:
  assumes "sv_wait_ok s" and "sv_step s s'"
  shows "sv_wait_ok s'"
  using assms(2)
proof (cases rule: sv_step_cases)
  case (accept idle t)
  from accept(2) show ?thesis
    by (cases rule: sv_accept_cases [where idle = idle]) (use assms(1) accept(3) in
      \<open>simp_all add: sv_wait_ok_def conn_thread_def ct_wait_ok_def\<close>)
next
  case (thread i)
  with sv_thread_wait_ok assms(1) show ?thesis by blast
qed (use assms(1) in \<open>auto simp: sv_wait_ok_def sv_loop_test_def sv_request_stop_def\<close>)

interpretation svwait: invariant sv_init sv_step sv_wait_ok
  by unfold_locales (auto simp: sv_init_def sv_wait_ok_def Server_new_def intro: sv_wait_ok_step [unfolded sv_wait_ok_def])

text \<open>
  A server at rest: the loop of \<open>run\<close> has returned, and every thread has ended or waits for a silent
  peer. The destructor has not returned where one waits.
\<close>

definition ct_at_rest :: "ConnThread \<Rightarrow> bool" where
  "ct_at_rest t = (ct_phase t = Finished \<or> ct_phase t = Waiting)"

lemma sv_rest:
  assumes "\<And>s'. \<not> sv_work s s'"
  shows "sv_main s \<in> {Idle, Joining, Destroyed} \<and> list_all ct_at_rest (sv_threads s) \<and>
    (sv_main s = Joining \<longrightarrow> \<not> all_finished s)"
proof -
  have f: "ct_at_rest (sv_threads s ! i)" if i: "i < length (sv_threads s)" for i
  proof (rule ccontr)
    assume n: "\<not> ct_at_rest (sv_threads s ! i)"
    have "\<exists>s'. sv_thread i s = Some s' \<or> sv_thread_throws i s = Some s'"
      using n i by (cases "ct_phase (sv_threads s ! i)")
        (auto simp: ct_at_rest_def sv_thread_def sv_thread_throws_def ct_step_def split: prod.splits)
    with assms show False using work_thread work_throws by blast
  qed
  then have a: "list_all ct_at_rest (sv_threads s)" by (simp add: list_all_length)
  moreover have "sv_main s \<noteq> LoopTest" "sv_main s = Joining \<longrightarrow> \<not> all_finished s"
    using assms work_test work_joined by blast+
  moreover have "sv_main s \<noteq> Accepting"
    using assms work_accept [of s AcceptFailed] by (auto simp: accept_fresh_def)
  ultimately show ?thesis by (cases "sv_main s") auto
qed

text \<open>At most the one connection whose \<open>accept\<close> was under way is taken on after a stop, for good.\<close>

definition sv_taken :: "Server \<Rightarrow> nat" where
  "sv_taken s = length (sv_threads s) + (if sv_main s = Accepting then 1 else 0)"

lemma sv_stop_step:
  assumes "sv_step s s'" and "sv_stop s"
  shows "sv_stop s' \<and> sv_taken s' \<le> sv_taken s"
  using assms(1)
proof (cases rule: sv_step_cases)
  case (accept idle t)
  from accept(2) show ?thesis
    by (cases rule: sv_accept_cases [where idle = idle]) (use assms(2) accept(1,3) in \<open>simp_all add: sv_taken_def\<close>)
next
  case (thread i)
  with sv_thread_rank [OF thread assms(2)] sv_thread_moves_effect [OF thread] assms(2) show ?thesis
    by (auto simp: sv_taken_def)
qed (use assms(2) in \<open>auto simp: sv_taken_def sv_loop_test_def sv_request_stop_def sv_run_def\<close>)

lemma sv_stop_steps: "sv_step\<^sup>*\<^sup>* s s' \<Longrightarrow> sv_stop s \<Longrightarrow> sv_stop s' \<and> sv_taken s' \<le> sv_taken s"
  by (induction rule: rtranclp_induct) (auto dest: sv_stop_step)

text \<open>Without a stop \<open>run\<close> does not return.\<close>

lemma sv_work_runs:
  assumes "sv_work s s'" and "\<not> sv_stop s" and "sv_main s = LoopTest \<or> sv_main s = Accepting"
  shows "\<not> sv_stop s' \<and> (sv_main s' = LoopTest \<or> sv_main s' = Accepting)"
  using assms(1)
proof (cases rule: sv_work.cases)
  case (work_thread i)
  then have "sv_thread_moves i s s'" by (simp add: sv_thread_moves_def)
  from sv_thread_moves_effect [OF this] assms show ?thesis by auto
next
  case (work_throws i)
  then have "sv_thread_moves i s s'" by (simp add: sv_thread_moves_def)
  from sv_thread_moves_effect [OF this] assms show ?thesis by auto
qed (use assms(2,3) in \<open>auto simp: sv_loop_test_def\<close>)

section \<open>What a stop does not do\<close>

text \<open>
  A thread is left alone by everything but its own step: no other step, the stop and the destructor
  among them, touches its socket. So one that waits for a silent peer waits for good, and the destructor
  waits for it.
\<close>

lemma sv_step_leaves_thread:
  assumes "sv_step s s'" and "i < length (sv_threads s)" and "\<not> sv_thread_moves i s s'"
  shows "i < length (sv_threads s') \<and> sv_threads s' ! i = sv_threads s ! i"
  using assms(1)
proof (cases rule: sv_step_cases)
  case (accept idle t)
  from accept(2) show ?thesis
    by (cases rule: sv_accept_cases [where idle = idle]) (use assms(2) accept(3) in \<open>simp_all add: nth_append\<close>)
next
  case (thread j)
  with assms(3) have "j \<noteq> i" by blast
  with sv_thread_moves_effect [OF thread] assms(2) show ?thesis by auto
qed (use assms(2) in \<open>auto simp: sv_loop_test_def sv_request_stop_def\<close>)

lemma sv_thread_waits: "ct_phase (sv_threads s ! i) = Waiting \<Longrightarrow> \<not> sv_thread_moves i s s'"
  by (auto simp: sv_thread_moves_def sv_thread_def sv_thread_throws_def ct_step_def split: if_splits)

text \<open>A thread that waits for a silent peer does so for good, whatever the server and its owner do.\<close>

lemma sv_waits_for_good:
  "sv_step\<^sup>*\<^sup>* s s' \<Longrightarrow> i < length (sv_threads s) \<Longrightarrow> ct_phase (sv_threads s ! i) = Waiting \<Longrightarrow>
   i < length (sv_threads s') \<and> sv_threads s' ! i = sv_threads s ! i"
  by (induction rule: rtranclp_induct) (use sv_step_leaves_thread sv_thread_waits in \<open>force\<close>)+

lemma sv_reach_steps: "sv_reach s \<Longrightarrow> sv_step\<^sup>*\<^sup>* s u \<Longrightarrow> sv_reach u"
  by (rotate_tac, induction rule: rtranclp_induct) (auto simp: sv_reach_def intro: reach_step)

lemma sv_works_steps: "(sv_work ^^ n) s s' \<Longrightarrow> sv_step\<^sup>*\<^sup>* s s'"
proof (induction n arbitrary: s')
  case (Suc n)
  then obtain t where "(sv_work ^^ n) s t" "sv_work t s'" by auto
  with Suc.IH [of t] show ?case by (auto simp: sv_step_def intro: rtranclp.rtrancl_into_rtrancl)
qed simp

lemma sv_reach_wait_ok: "sv_reach s \<Longrightarrow> sv_wait_ok s"
  unfolding sv_reach_def by (rule svwait.always)

lemma sv_waits_not_destroyed:
  assumes "sv_reach s" and "sv_step\<^sup>*\<^sup>* s u" and "i < length (sv_threads s)" and "ct_phase (sv_threads s ! i) = Waiting"
  shows "sv_main u \<noteq> Destroyed"
proof
  assume "sv_main u = Destroyed"
  with sv_reach_inv [OF sv_reach_steps [OF assms(1,2)]] have "all_finished u" by (simp add: sv_inv_def)
  with sv_waits_for_good [OF assms(2-4)] assms(4) show False by (auto simp: all_finished_def list_all_length)
qed

text \<open>
  A broken connection, on which every \<open>recv\<close> fails, is never given up: \<open>handle_connection\<close> retries
  for as long as no stop is requested.
\<close>

lemma read_frame_failed:
  "sk_valid sk \<Longrightarrow> sk_in sk = RecvFailed # es \<Longrightarrow> read_frame sk = (Fail EC_NETWORK_ERROR ''recv failed'', sk\<lparr>sk_in := es\<rparr>)"
  by (simp add: read_frame_def recv_exact.simps [of _ 21 sk] recv_some_def)

lemma failing_peer_retried:
  "sk_valid sk \<Longrightarrow> sk_in sk = replicate n RecvFailed @ es \<Longrightarrow>
   handle_connection n sk cx s = Some (False, sk\<lparr>sk_in := es\<rparr>, s)"
proof (induction n arbitrary: sk)
  case (Suc n)
  then have "read_frame sk = (Fail EC_NETWORK_ERROR ''recv failed'', sk\<lparr>sk_in := replicate n RecvFailed @ es\<rparr>)"
    by (intro read_frame_failed) simp_all
  with Suc.IH [of "sk\<lparr>sk_in := replicate n RecvFailed @ es\<rparr>"] Suc.prems show ?case by simp
qed simp

text \<open>\<open>port()\<close> is the port that was asked for, also when that is 0 and the system chose another.\<close>

lemma sv_start_port: "sv_port (snd (sv_start port t s)) = port"
  by (auto simp: sv_start_def Let_def split: prod.splits)

end
