(* ===== verification/PF_Worker.thy ===== *)
theory PF_Worker
  imports PF_Session
begin

text \<open>
  The worker, \<open>worker.hpp\<close> and \<open>src/pciefabric/worker.cpp\<close>: its requests over a socket and the wait
  for the acknowledgement. Results are \<open>outcome\<close> values because \<open>read_ack\<close> can read beyond its
  payload. What the operating system answers to \<open>connect\<close> is the argument of \<open>wk_connect\<close>. The requests
  are modelled for a coordinator that closes the connection after what it sends; \<open>request_waits\<close> tells
  when one that stays silent instead is waited for without an end.
\<close>

record Worker =
  wk_id :: WorkerId
  wk_boot :: WorkerBootId
  wk_host_gen :: HostGeneration
  wk_epoch :: CoordinatorEpoch
  wk_connected :: bool
  wk_sock :: TcpSocket

definition Worker_new :: "WorkerId \<Rightarrow> WorkerBootId \<Rightarrow> u64 \<Rightarrow> Worker" where
  "Worker_new i boot host_gen = \<lparr>wk_id = i, wk_boot = boot, wk_host_gen = Generation host_gen,
     wk_epoch = StrongId 0, wk_connected = False,
     wk_sock = TcpSocket_new\<rparr>"

definition wk_connect :: "connect_try list option \<Rightarrow> Worker \<Rightarrow> Os \<Rightarrow> unit Result \<times> Worker \<times> Os" where
  "wk_connect addrs w os = (case tcp_connect addrs (wk_sock w) os of
      (Err c m, sk, os') \<Rightarrow> (Err c m, w\<lparr>wk_sock := sk\<rparr>, os')
    | (Success _, sk, os') \<Rightarrow> (Success (), w\<lparr>wk_sock := sk, wk_connected := True\<rparr>, os'))"

text \<open>The destructor of \<open>Worker\<close> calls it too.\<close>

definition wk_close :: "Worker \<Rightarrow> Os \<Rightarrow> unit Result \<times> Worker \<times> Os" where
  "wk_close w os = (if wk_connected w then case tcp_close (wk_sock w) os of (sk, os') \<Rightarrow>
       (Success (), w\<lparr>wk_sock := sk, wk_connected := False\<rparr>, os')
     else (Success (), w, os))"

section \<open>Request and acknowledgement\<close>

text \<open>\<open>for (i = 0; i < 64; ++i)\<close>; the first argument is the number of rounds left.\<close>

fun await_ack :: "nat \<Rightarrow> TcpSocket \<Rightarrow> Ack outcome \<times> TcpSocket" where
  "await_ack 0 sk = (Fail EC_TIMEOUT ''no ack'', sk)"
| "await_ack (Suc n) sk = (case read_frame sk of
      (Fail c m, sk') \<Rightarrow> (Fail c m, sk')
    | (Undef, sk') \<Rightarrow> (Undef, sk')
    | (Done f, sk') \<Rightarrow>
        if fm_kind f = MSG_ACK then (read_ack (fm_payload f), sk')
        else if fm_kind f = MSG_ERROR then (Fail EC_CONFLICT ''error frame'', sk')
        else await_ack n sk')"

definition send_and_await_ack :: "Frame \<Rightarrow> Worker \<Rightarrow> Ack outcome \<times> Worker" where
  "send_and_await_ack f w = (case write_frame f (wk_sock w) of
      (Err c m, sk) \<Rightarrow> (Fail c m, w\<lparr>wk_sock := sk\<rparr>)
    | (Success _, sk) \<Rightarrow> (case await_ack 64 sk of (a, sk') \<Rightarrow> (a, w\<lparr>wk_sock := sk'\<rparr>)))"

text \<open>\<open>if (!a) return err(a.code(), a.message()); return a->ok ? success() : err(code, a->message);\<close>\<close>

definition ack_result :: "ErrorCode \<Rightarrow> 'a \<Rightarrow> Ack outcome \<Rightarrow> 'a outcome" where
  "ack_result code v a = (case a of Fail c m \<Rightarrow> Fail c m | Undef \<Rightarrow> Undef
     | Done k \<Rightarrow> if ak_ok k then Done v else Fail code (ak_message k))"

definition register_frame :: "Worker \<Rightarrow> Frame" where
  "register_frame w = Frame MSG_REGISTER (write_register
     (RegisterRequest (id_value (wk_id w)) (id_value (wk_boot w)) (gen_value (wk_host_gen w))))"

definition register_self :: "Worker \<Rightarrow> unit outcome \<times> Worker" where
  "register_self w = (if \<not> wk_connected w then (Fail EC_NETWORK_ERROR ''not connected'', w)
     else case send_and_await_ack (register_frame w) w of
        (Done a, w') \<Rightarrow> (ack_result EC_CONFLICT () (Done a), w'\<lparr>wk_epoch := StrongId (ak_epoch a)\<rparr>)
      | (Fail c m, w') \<Rightarrow> (Fail c m, w')
      | (Undef, w') \<Rightarrow> (Undef, w'))"

definition send_body :: "MsgKind \<Rightarrow> bytes option \<Rightarrow> Worker \<Rightarrow> unit outcome \<times> Worker" where
  "send_body kind body w = (case body of None \<Rightarrow> (Undef, w)
     | Some b \<Rightarrow> (case send_and_await_ack (Frame kind b) w of (a, w') \<Rightarrow> (ack_result EC_CONFLICT () a, w')))"

definition send_inventory :: "Snapshot \<Rightarrow> Worker \<Rightarrow> unit outcome \<times> Worker" where
  "send_inventory s w = send_body MSG_INVENTORY (serialize s) w"

definition send_path_snapshot :: "Path list \<Rightarrow> CoordinatorEpoch \<Rightarrow> WorkerBootId \<Rightarrow> Worker \<Rightarrow> unit outcome \<times> Worker" where
  "send_path_snapshot paths epoch boot w =
     send_body MSG_PATH_SNAPSHOT (serialize (Snapshot_default\<lparr>sn_epoch := epoch, sn_paths := paths\<rparr>)) w"

definition send_measurement :: "Measurement \<Rightarrow> Worker \<Rightarrow> unit outcome \<times> Worker" where
  "send_measurement m w = send_body MSG_MEASUREMENT (Some (encode_measurement m)) w"

definition wk_reserve :: "Reservation \<Rightarrow> Worker \<Rightarrow> Reservation outcome \<times> Worker" where
  "wk_reserve r w = (case send_and_await_ack (Frame MSG_RESERVE (encode_reservation r)) w of
     (a, w') \<Rightarrow> (ack_result EC_OVERCOMMIT r a, w'))"

definition wk_release :: "ReservationId \<Rightarrow> ReservationGeneration \<Rightarrow> Worker \<Rightarrow> unit outcome \<times> Worker" where
  "wk_release i gen w = send_body MSG_RELEASE (Some (write_release
     (ReleaseRequest (id_value i) (id_value (wk_boot w)) (gen_value gen) (id_value (wk_epoch w))))) w"

text \<open>\<open>heartbeat\<close> and \<open>revalidate\<close> do not look at the acknowledgement's flag.\<close>

definition send_ping :: "MsgKind \<Rightarrow> Worker \<Rightarrow> unit outcome \<times> Worker" where
  "send_ping kind w = (case send_and_await_ack (Frame kind []) w of
      (Done a, w') \<Rightarrow> (Done (), w') | (Fail c m, w') \<Rightarrow> (Fail c m, w') | (Undef, w') \<Rightarrow> (Undef, w'))"

definition heartbeat :: "Worker \<Rightarrow> unit outcome \<times> Worker" where
  "heartbeat w = send_ping MSG_HEARTBEAT w"

definition revalidate :: "Worker \<Rightarrow> unit outcome \<times> Worker" where
  "revalidate w = send_ping MSG_REVALIDATE w"

text \<open>A worker whose socket accepts what it writes and delivers one reply of the coordinator.\<close>

definition hears :: "Worker \<Rightarrow> Frame \<Rightarrow> bool" where
  "hears w reply = (wk_connected w \<and> sk_valid (wk_sock w) \<and> sk_script (wk_sock w) = [] \<and>
     only_data (sk_in (wk_sock w)) \<and> delivered (sk_in (wk_sock w)) = frame_encode reply)"

section \<open>Waiting for the acknowledgement\<close>

text \<open>
  Whether a request comes to a \<open>recv\<close> at the end of what its peer sends. With a peer that stays
  connected the call then does not return, as nothing bounds the wait in time.
\<close>

fun await_waits :: "nat \<Rightarrow> TcpSocket \<Rightarrow> bool" where
  "await_waits 0 sk = False"
| "await_waits (Suc n) sk = (if read_waits sk then True else case read_frame sk of
      (Done f, sk') \<Rightarrow> fm_kind f \<noteq> MSG_ACK \<and> fm_kind f \<noteq> MSG_ERROR \<and> await_waits n sk'
    | (_, sk') \<Rightarrow> False)"

definition request_waits :: "Frame \<Rightarrow> Worker \<Rightarrow> bool" where
  "request_waits f w = (case write_frame f (wk_sock w) of
      (Err c m, sk) \<Rightarrow> False | (Success _, sk) \<Rightarrow> await_waits 64 sk)"

definition register_waits :: "Worker \<Rightarrow> bool" where
  "register_waits w = (wk_connected w \<and> request_waits (register_frame w) w)"

definition inventory_waits :: "Snapshot \<Rightarrow> Worker \<Rightarrow> bool" where
  "inventory_waits sn w = (case serialize sn of None \<Rightarrow> False | Some b \<Rightarrow> request_waits (Frame MSG_INVENTORY b) w)"

definition heartbeat_waits :: "Worker \<Rightarrow> bool" where
  "heartbeat_waits w = request_waits (Frame MSG_HEARTBEAT []) w"

text \<open>A peer that has sent nothing yet is waited for; a frame that is an answer ends the wait.\<close>

lemma request_waits_silent:
  assumes "sk_valid (wk_sock w)" and "sk_script (wk_sock w) = []" and "silent (sk_in (wk_sock w))"
  shows "request_waits f w"
proof -
  let ?sk = "(wk_sock w)\<lparr>sk_out := sk_out (wk_sock w) @ frame_encode f\<rparr>"
  have "read_waits ?sk" using assms(1,3) by (simp add: read_waits_def recv_waits.simps [of 21])
  moreover have "await_waits 64 ?sk = await_waits (Suc 63) ?sk" by simp
  ultimately have "await_waits 64 ?sk" by (simp only: await_waits.simps if_True)
  with write_frame_accepting [OF assms(1,2), of f] show ?thesis by (simp add: request_waits_def)
qed

lemma answered_request:
  assumes "hears w reply" and "fm_kind reply = MSG_ACK \<or> fm_kind reply = MSG_ERROR"
    and "length (fm_payload reply) \<le> kMaxPayload"
  shows "\<not> request_waits f w"
proof -
  let ?sk = "(wk_sock w)\<lparr>sk_out := sk_out (wk_sock w) @ frame_encode f\<rparr>"
  have h: "sk_valid ?sk" "only_data (sk_in ?sk)" "delivered (sk_in ?sk) = frame_encode reply @ []"
    using assms(1) by (auto simp: hears_def)
  have "\<not> read_waits ?sk" by (rule read_waits_frame [OF h assms(3)])
  moreover obtain es where "read_frame ?sk = (Done reply, ?sk\<lparr>sk_in := es\<rparr>)"
    using read_frame_data [OF h assms(3)] by blast
  moreover have "await_waits 64 ?sk = await_waits (Suc 63) ?sk" by simp
  ultimately have "\<not> await_waits 64 ?sk" using assms(2) by (auto simp only: await_waits.simps if_False prod.case outcome.case)
  moreover have "write_frame f (wk_sock w) = (Success (), ?sk)"
    using assms(1) by (intro write_frame_accepting) (auto simp: hears_def)
  ultimately show ?thesis by (simp add: request_waits_def)
qed

section \<open>The handle of a worker\<close>

text \<open>A worker holds a handle exactly while it is connected.\<close>

definition wk_owns :: "Worker \<Rightarrow> Os \<Rightarrow> bool" where
  "wk_owns w os = ((wk_connected w \<longleftrightarrow> sk_valid (wk_sock w)) \<and> fd_of (sk_fd (wk_sock w)) \<subseteq> os_open os)"

lemma wk_connect_owns:
  assumes "tries_fresh os (case addrs of None \<Rightarrow> [] | Some ts \<Rightarrow> ts)" and "wk_owns w os" and "\<not> wk_connected w"
    and "wk_connect addrs w os = (r, w', os')"
  shows "wk_owns w' os' \<and> (wk_connected w' \<longleftrightarrow> r = Success ()) \<and> os_open os' = os_open os \<union> fd_of (sk_fd (wk_sock w'))"
proof -
  obtain q sk os1 where c: "tcp_connect addrs (wk_sock w) os = (q, sk, os1)" by (metis prod_cases3)
  have "\<not> sk_valid (wk_sock w)" using assms(2,3) by (simp add: wk_owns_def)
  from connect_open [OF assms(1) this c] assms(3,4) c show ?thesis
    by (cases q) (auto simp: wk_connect_def wk_owns_def)
qed

lemma wk_close_owns:
  assumes "wk_owns w os" and "wk_close w os = (r, w', os')"
  shows "wk_owns w' os' \<and> \<not> wk_connected w' \<and> os_open os' = os_open os - fd_of (sk_fd (wk_sock w))"
proof (cases "wk_connected w")
  case True
  obtain sk os1 where c: "tcp_close (wk_sock w) os = (sk, os1)" by fastforce
  from close_open [OF c] assms c True show ?thesis
    by (auto simp: wk_close_def wk_owns_def fd_of_def sk_valid_def)
next
  case False
  with assms show ?thesis by (auto simp: wk_close_def wk_owns_def fd_of_def sk_valid_def)
qed

section \<open>An exchange\<close>

lemma await_ack_reply:
  assumes "sk_valid sk" and "only_data (sk_in sk)" and "delivered (sk_in sk) = frame_encode (reply_frame s ok msg)"
    and "length msg \<le> 65536"
  shows "\<exists>es. await_ack (Suc n) sk = (Done (Ack (id_value (co_epoch s)) (co_seq s) ok msg), sk\<lparr>sk_in := es\<rparr>)"
proof -
  have "length (fm_payload (reply_frame s ok msg)) \<le> kMaxPayload"
    using assms(4) by (simp add: reply_frame_def write_ack_def w_string_def kMaxPayload_def)
  then obtain es where "read_frame sk = (Done (reply_frame s ok msg), sk\<lparr>sk_in := es\<rparr>)"
    using read_frame_data [OF assms(1,2), of "reply_frame s ok msg" "[]"] assms(3) by auto
  then show ?thesis
    using read_ack_write [OF assms(4)] by (intro exI [of _ es]) (simp add: reply_frame_def)
qed

lemma exchange:
  assumes "hears w (reply_frame s ok msg)" and "length msg \<le> 65536"
  shows "\<exists>w'. send_and_await_ack f w = (Done (Ack (id_value (co_epoch s)) (co_seq s) ok msg), w') \<and>
    sk_out (wk_sock w') = sk_out (wk_sock w) @ frame_encode f \<and>
    wk_id w' = wk_id w \<and> wk_boot w' = wk_boot w \<and> wk_epoch w' = wk_epoch w \<and> wk_host_gen w' = wk_host_gen w"
proof -
  let ?sk = "(wk_sock w)\<lparr>sk_out := sk_out (wk_sock w) @ frame_encode f\<rparr>"
  have "write_frame f (wk_sock w) = (Success (), ?sk)"
    using assms(1) by (intro write_frame_accepting) (simp_all add: hears_def)
  moreover obtain es where "await_ack (Suc 63) ?sk = (Done (Ack (id_value (co_epoch s)) (co_seq s) ok msg), ?sk\<lparr>sk_in := es\<rparr>)"
    using await_ack_reply [of ?sk s ok msg 63] assms by (auto simp: hears_def)
  ultimately show ?thesis
    by (intro exI [of _ "w\<lparr>wk_sock := ?sk\<lparr>sk_in := es\<rparr>\<rparr>"])
       (simp add: send_and_await_ack_def numeral_eq_Suc del: await_ack.simps)
qed

text \<open>
  A registration: when the worker hears the coordinator's reply to the frame it sent, it holds
  the coordinator's epoch and the coordinator lists it under its id with its boot.
\<close>

lemma register_exchange:
  assumes "handle_frame (register_frame w) cx s = Some (Reply ok msg, cx', s')"
    and "hears w (reply_frame s' ok msg)"
  shows "\<exists>w'. register_self w = (Done (), w') \<and> wk_epoch w' = co_epoch s' \<and>
    (\<exists>i. om_lookup (co_workers s') (wk_id w) = Some i \<and> wi_boot i = wk_boot w \<and> wi_connected i) \<and>
    cx_boot cx' = Some (wk_boot w) \<and> cx_worker cx' = Some (wk_id w)"
proof -
  have f: "ok" "msg = ''registered''" "cx_boot cx' = Some (wk_boot w)" "cx_worker cx' = Some (wk_id w)"
    "om_lookup (co_workers s') (wk_id w) = Some (new_worker (RegisterRequest (id_value (wk_id w))
       (id_value (wk_boot w)) (gen_value (wk_host_gen w))))"
    using assms(1) by (auto simp: handle_frame_def register_frame_def on_register_def with_payload_def Let_def)
  obtain w' where "send_and_await_ack (register_frame w) w = (Done (Ack (id_value (co_epoch s')) (co_seq s') ok msg), w')"
    using exchange [OF assms(2)] f(2) by auto
  then have "register_self w = (Done (), w'\<lparr>wk_epoch := co_epoch s'\<rparr>)"
    using assms(2) f(1) by (simp add: register_self_def hears_def ack_result_def)
  with f show ?thesis by (auto simp: new_worker_def)
qed

text \<open>A reservation: the worker is told of success exactly when the coordinator's registry granted it.\<close>

lemma reserve_exchange:
  assumes "reservation_fits r 0" and "cx_boot cx = Some boot"
    and "handle_frame (Frame MSG_RESERVE (encode_reservation r)) cx s = Some (Reply ok msg, cx', s')"
    and "hears w (reply_frame s' ok msg)" and "length msg \<le> 65536"
  shows "(\<exists>w'. wk_reserve r w = (Done r, w')) \<longleftrightarrow> res_ok (fst (rg_reserve r (co_reservations s)))"
proof -
  have ok: "ok \<longleftrightarrow> res_ok (fst (rg_reserve r (co_reservations s)))"
    using frame_reserve [OF assms(1,2), of s] assms(3) by auto
  obtain w' where "send_and_await_ack (Frame MSG_RESERVE (encode_reservation r)) w =
      (Done (Ack (id_value (co_epoch s')) (co_seq s') ok msg), w')"
    using exchange [OF assms(4,5)] by blast
  then show ?thesis by (auto simp: wk_reserve_def ack_result_def ok [symmetric])
qed

text \<open>The wait is bounded: after 64 frames that are neither an acknowledgement nor an error it times out.\<close>

lemma await_ack_timeout:
  "sk_valid sk \<Longrightarrow> only_data (sk_in sk) \<Longrightarrow> delivered (sk_in sk) = concat (map frame_encode fs) @ rest \<Longrightarrow>
   list_all (\<lambda>f. length (fm_payload f) \<le> kMaxPayload \<and> fm_kind f \<noteq> MSG_ACK \<and> fm_kind f \<noteq> MSG_ERROR) fs \<Longrightarrow>
   \<exists>sk'. await_ack (length fs) sk = (Fail EC_TIMEOUT ''no ack'', sk') \<and> delivered (sk_in sk') = rest"
proof (induction fs arbitrary: sk)
  case (Cons f fs)
  from Cons.prems obtain e where e: "read_frame sk = (Done f, sk\<lparr>sk_in := e\<rparr>)" "only_data e"
    "delivered e = concat (map frame_encode fs) @ rest"
    using read_frame_data [of sk f "concat (map frame_encode fs) @ rest"] by auto
  from Cons.IH [of "sk\<lparr>sk_in := e\<rparr>"] Cons.prems(1,4) e obtain sk' where
    "await_ack (length fs) (sk\<lparr>sk_in := e\<rparr>) = (Fail EC_TIMEOUT ''no ack'', sk')" "delivered (sk_in sk') = rest"
    by auto
  with e(1) Cons.prems(4) show ?case by auto
qed simp

end
