(* ===== verification/PF_WinEnum.thy ===== *)
theory PF_WinEnum
  imports PF_Runtime
begin

text \<open>
  Discovery on Windows, \<open>windows_enum.hpp\<close> and \<open>src/pciefabric/windows_enum.cpp\<close>. What SetupAPI and
  the configuration manager report is an argument: a list of \<open>SetupDevice\<close> and the parent relation
  of device instances. Modelled are the parsing of the reported strings, the classification, the
  passes over the devices and the construction of the topology.

  \<open>None\<close> stands for undefined behaviour or an exception: \<open>atoi\<close> of a number outside \<open>int\<close>, \<open>stoi\<close> of
  a class code that does not start with a hexadecimal number. \<open>std::sort\<close> may order devices of equal
  BDF as it likes; \<open>sort_devices\<close> keeps their order, and the theorems on \<open>build_topology\<close> hold for
  every list.
\<close>

section \<open>Strings\<close>

definition to_lower :: "char \<Rightarrow> char" where
  "to_lower c = (let n = (of_char c :: nat) in if 65 \<le> n \<and> n \<le> 90 then char_of (n + 32) else c)"

fun starts_with :: "string \<Rightarrow> string \<Rightarrow> bool" where
  "starts_with [] s = True"
| "starts_with (p # ps) [] = False"
| "starts_with (p # ps) (c # s) = (p = c \<and> starts_with ps s)"

text \<open>\<open>std::string::find\<close>.\<close>

fun find_sub :: "string \<Rightarrow> string \<Rightarrow> nat option" where
  "find_sub p [] = (if p = [] then Some 0 else None)"
| "find_sub p (c # s) = (if starts_with p (c # s) then Some 0 else map_option Suc (find_sub p s))"

definition substr :: "string \<Rightarrow> nat \<Rightarrow> nat \<Rightarrow> string" where
  "substr s pos n = take n (drop pos s)"

definition is_space :: "char \<Rightarrow> bool" where
  "is_space c = (of_char c = (32::nat) \<or> 9 \<le> (of_char c :: nat) \<and> (of_char c :: nat) \<le> 13)"

text \<open>The value of a digit in a base of up to 16.\<close>

definition digit_value :: "nat \<Rightarrow> char \<Rightarrow> nat option" where
  "digit_value base c = (let n = (of_char c :: nat);
     v = (if 48 \<le> n \<and> n \<le> 57 then n - 48 else if 97 \<le> n \<and> n \<le> 102 then n - 87
          else if 65 \<le> n \<and> n \<le> 70 then n - 55 else 16)
     in if v < base then Some v else None)"

fun digits :: "nat \<Rightarrow> string \<Rightarrow> nat \<Rightarrow> nat" where
  "digits base [] acc = acc"
| "digits base (c # s) acc = (case digit_value base c of None \<Rightarrow> acc | Some v \<Rightarrow> digits base s (acc * base + v))"

definition split_sign :: "string \<Rightarrow> int \<times> string" where
  "split_sign s = (case s of [] \<Rightarrow> (1, [])
     | c # cs \<Rightarrow> if c = CHR ''-'' then (- 1, cs) else if c = CHR ''+'' then (1, cs) else (1, c # cs))"

definition in_int :: "int \<Rightarrow> int option" where
  "in_int n = (if - (2 ^ 31) \<le> n \<and> n < 2 ^ 31 then Some n else None)"

definition atoi :: "string \<Rightarrow> int option" where
  "atoi s = (case split_sign (dropWhile is_space s) of (sg, ds) \<Rightarrow> in_int (sg * int (digits 10 ds 0)))"

text \<open>\<open>std::stoi(s, nullptr, 16)\<close>: no number at the front is an exception.\<close>

definition hex_prefix :: "string \<Rightarrow> bool" where
  "hex_prefix s = (case s of z # x # d # _ \<Rightarrow> z = CHR ''0'' \<and> (x = CHR ''x'' \<or> x = CHR ''X'') \<and> digit_value 16 d \<noteq> None
     | _ \<Rightarrow> False)"

definition stoi16 :: "string \<Rightarrow> int option" where
  "stoi16 s = (case split_sign (dropWhile is_space s) of (sg, ds) \<Rightarrow>
     let hs = (if hex_prefix ds then drop 2 ds else ds) in
     (case hs of [] \<Rightarrow> None
      | c # _ \<Rightarrow> if digit_value 16 c = None then None else in_int (sg * int (digits 16 hs 0))))"

section \<open>Parsing and classification\<close>

text \<open>\<open>Some None\<close> where the function returns false.\<close>

definition field_after :: "string \<Rightarrow> string \<Rightarrow> u8 option option" where
  "field_after key lower = (case find_sub key lower of
      None \<Rightarrow> Some None
    | Some p \<Rightarrow> map_option (\<lambda>n. Some (of_int n)) (atoi (drop (p + length key) lower)))"

definition parse_location_info :: "string \<Rightarrow> (u8 \<times> u8 \<times> u8) option option" where
  "parse_location_info s = (let lower = map to_lower s in
     case field_after ''bus '' lower of None \<Rightarrow> None | Some None \<Rightarrow> Some None | Some (Some bus) \<Rightarrow>
     (case field_after ''device '' lower of None \<Rightarrow> None | Some None \<Rightarrow> Some None | Some (Some dev) \<Rightarrow>
     (case field_after ''function '' lower of None \<Rightarrow> None | Some None \<Rightarrow> Some None | Some (Some fn) \<Rightarrow>
      Some (Some (bus, dev, fn)))))"

record RawPciDevice =
  rw_bdf :: Bdf
  rw_enumerator :: string
  rw_vendor_id :: string
  rw_device_id :: string
  rw_subvendor :: string
  rw_subsystem :: string
  rw_revision :: string
  rw_class_code :: string
  rw_driver :: string
  rw_device_desc :: string
  rw_class_name :: string
  rw_kind :: DeviceClass
  rw_inst :: u64
  rw_parent_bdf :: "Bdf option"
  rw_is_bridge :: bool
  rw_is_root :: bool

definition RawPciDevice_default :: RawPciDevice where
  "RawPciDevice_default = \<lparr>rw_bdf = Bdf_default, rw_enumerator = [], rw_vendor_id = [], rw_device_id = [],
     rw_subvendor = [], rw_subsystem = [], rw_revision = [], rw_class_code = [], rw_driver = [],
     rw_device_desc = [], rw_class_name = [], rw_kind = Dev_UNKNOWN, rw_inst = 0, rw_parent_bdf = None,
     rw_is_bridge = False, rw_is_root = False\<rparr>"

definition hid_field :: "string \<Rightarrow> string \<Rightarrow> nat option \<Rightarrow> string \<Rightarrow> string" where
  "hid_field hid key n old = (case find_sub key hid of None \<Rightarrow> old
     | Some p \<Rightarrow> (case n of None \<Rightarrow> drop (p + length key) hid | Some k \<Rightarrow> substr hid (p + length key) k))"

definition parse_hardware_ids :: "string \<Rightarrow> RawPciDevice \<Rightarrow> RawPciDevice" where
  "parse_hardware_ids hid r = r
     \<lparr>rw_vendor_id := hid_field hid ''VEN_'' (Some 4) (rw_vendor_id r),
      rw_device_id := hid_field hid ''DEV_'' (Some 4) (rw_device_id r),
      rw_subsystem := hid_field hid ''SUBSYS_'' (Some 8) (rw_subsystem r),
      rw_revision := hid_field hid ''REV_'' None (rw_revision r),
      rw_class_code := hid_field hid ''CC_'' (Some 6) (rw_class_code r)\<rparr>"

definition class_of_codes :: "int \<Rightarrow> int \<Rightarrow> DeviceClass" where
  "class_of_codes b sub =
     (if b = 0x06 \<and> (sub = 0x04 \<or> sub = 0x09) then Dev_BRIDGE
      else if b = 0x0C \<and> sub = 0x08 then Dev_ACCELERATOR
      else if b = 0x02 then Dev_NIC
      else if b = 0x01 then Dev_STORAGE
      else if b = 0x03 then Dev_OTHER
      else if b = 0x06 then Dev_BRIDGE
      else Dev_OTHER)"

definition classify_pci_class :: "string \<Rightarrow> DeviceClass option" where
  "classify_pci_class cc =
     (if length cc < 2 then Some Dev_UNKNOWN else
      case stoi16 (substr cc 0 2) of None \<Rightarrow> None | Some b \<Rightarrow>
      (case (if 4 \<le> length cc then stoi16 (substr cc 2 2) else Some 0) of None \<Rightarrow> None | Some sub \<Rightarrow>
       Some (class_of_codes b sub)))"

definition classify_by_class_name :: "string \<Rightarrow> string \<Rightarrow> DeviceClass" where
  "classify_by_class_name name vendor =
     (if name = ''Net'' then Dev_NIC
      else if name = ''SCSIADAPTER'' \<or> name = ''DiskDrive'' \<or> name = ''HDC'' \<or> name = ''Volume'' then Dev_STORAGE
      else if name = ''Accelerator'' then Dev_ACCELERATOR
      else if name = ''Display'' \<and> vendor = ''10DE'' then Dev_ACCELERATOR
      else if name = ''Display'' then Dev_OTHER
      else if name = ''PCI'' then Dev_BRIDGE
      else if name = ''System'' then Dev_BRIDGE
      else if name = ''MEDIA'' then Dev_OTHER
      else Dev_UNKNOWN)"

section \<open>Enumeration\<close>

text \<open>What SetupAPI reports of one present device.\<close>

record SetupDevice =
  su_inst :: u32
  su_enumerator_name :: string
  su_location :: string
  su_busnumber :: "u32 option"
  su_address :: "u32 option"
  su_hardware_id :: string
  su_driver :: string
  su_desc :: string
  su_class :: string

text \<open>
  The registry properties read, and what \<open>SetupDiGetDeviceRegistryPropertyW\<close> writes for them:
  \<open>None\<close> where it fails, otherwise the \<open>wchar_t\<close>s it puts at the front of a buffer that is not
  initialised, or the number.
\<close>

datatype Spdrp = SPDRP_DEVICEDESC | SPDRP_HARDWAREID | SPDRP_CLASS | SPDRP_DRIVER | SPDRP_LOCATION_INFORMATION
  | SPDRP_ENUMERATOR_NAME | SPDRP_BUSNUMBER | SPDRP_ADDRESS

type_synonym wide = "u16 list"

record DeviceAnswers =
  an_inst :: u32
  an_text :: "Spdrp \<Rightarrow> wide option"
  an_number :: "Spdrp \<Rightarrow> u32 option"

text \<open>\<open>std::wstring(s.begin(), s.end())\<close> widens each \<open>char\<close>, which is signed.\<close>

definition to_w :: "string \<Rightarrow> wide" where
  "to_w s = map (\<lambda>c. scast (of_char c :: u8)) s"

text \<open>\<open>convert\<close> is \<open>WideCharToMultiByte\<close> to UTF-8, which yields nothing where it fails.\<close>

definition wide_to_utf8 :: "(wide \<Rightarrow> string) \<Rightarrow> wide \<Rightarrow> string" where
  "wide_to_utf8 convert w = (if w = [] then [] else convert w)"

text \<open>A buffer without a terminator is read past what was written, which is undefined.\<close>

definition c_wstring :: "wide \<Rightarrow> wide option" where
  "c_wstring buf = (if 0 \<in> set buf then Some (takeWhile (\<lambda>c. c \<noteq> 0) buf) else None)"

definition get_registry_string :: "(wide \<Rightarrow> string) \<Rightarrow> DeviceAnswers \<Rightarrow> Spdrp \<Rightarrow> string option" where
  "get_registry_string convert d prop = (case an_text d prop of
      None \<Rightarrow> Some []
    | Some buf \<Rightarrow> map_option (wide_to_utf8 convert) (c_wstring buf))"

definition get_enumerator :: "(wide \<Rightarrow> string) \<Rightarrow> DeviceAnswers \<Rightarrow> string option" where
  "get_enumerator convert d = get_registry_string convert d SPDRP_ENUMERATOR_NAME"

definition get_dword_prop :: "DeviceAnswers \<Rightarrow> Spdrp \<Rightarrow> u32 option" where
  "get_dword_prop d prop = an_number d prop"

text \<open>What the passes learn of a device: of one that is not on the PCI bus, only that.\<close>

definition read_device :: "(wide \<Rightarrow> string) \<Rightarrow> DeviceAnswers \<Rightarrow> SetupDevice option" where
  "read_device convert d = (case get_enumerator convert d of None \<Rightarrow> None | Some enumerator \<Rightarrow>
     if enumerator \<noteq> ''PCI'' then
       Some \<lparr>su_inst = an_inst d, su_enumerator_name = enumerator, su_location = [], su_busnumber = None,
         su_address = None, su_hardware_id = [], su_driver = [], su_desc = [], su_class = []\<rparr>
     else (case map (get_registry_string convert d) [SPDRP_LOCATION_INFORMATION, SPDRP_HARDWAREID, SPDRP_DRIVER,
         SPDRP_DEVICEDESC, SPDRP_CLASS] of
       [Some loc, Some hid, Some driver, Some desc, Some cls] \<Rightarrow>
         Some \<lparr>su_inst = an_inst d, su_enumerator_name = enumerator, su_location = loc,
           su_busnumber = get_dword_prop d SPDRP_BUSNUMBER, su_address = get_dword_prop d SPDRP_ADDRESS,
           su_hardware_id = hid, su_driver = driver, su_desc = desc, su_class = cls\<rparr>
     | _ \<Rightarrow> None))"

fun read_devices :: "(wide \<Rightarrow> string) \<Rightarrow> DeviceAnswers list \<Rightarrow> SetupDevice list option" where
  "read_devices convert [] = Some []"
| "read_devices convert (d # ds) = (case read_device convert d of None \<Rightarrow> None
     | Some s \<Rightarrow> map_option (\<lambda>ss. s # ss) (read_devices convert ds))"

definition device_bdf :: "SetupDevice \<Rightarrow> Bdf option" where
  "device_bdf d = (case parse_location_info (su_location d) of
      None \<Rightarrow> None
    | Some (Some (bus, dev, fn)) \<Rightarrow> Some (Bdf 0 bus dev fn)
    | Some None \<Rightarrow> (case su_busnumber d of
        Some bn \<Rightarrow> Some (Bdf 0 (ucast (bn AND 0xff))
          (case su_address d of None \<Rightarrow> 0 | Some a \<Rightarrow> ucast (drop_bit 8 a AND 0x1f))
          (case su_address d of None \<Rightarrow> 0 | Some a \<Rightarrow> ucast (a AND 0x7)))
      | None \<Rightarrow> Some (Bdf 0 0 0 0)))"

definition device_kind :: "RawPciDevice \<Rightarrow> DeviceClass option" where
  "device_kind r = (if 2 \<le> length (rw_class_code r) then classify_pci_class (rw_class_code r)
     else Some (classify_by_class_name (rw_class_name r) (rw_vendor_id r)))"

definition raw_device :: "SetupDevice \<Rightarrow> RawPciDevice option" where
  "raw_device d = (case device_bdf d of None \<Rightarrow> None | Some bdf \<Rightarrow>
     let r = parse_hardware_ids (su_hardware_id d)
           (RawPciDevice_default\<lparr>rw_inst := ucast (su_inst d), rw_bdf := bdf, rw_enumerator := su_enumerator_name d\<rparr>);
         r = r\<lparr>rw_driver := su_driver d, rw_device_desc := su_desc d, rw_class_name := su_class d\<rparr>
     in map_option (\<lambda>k. r\<lparr>rw_kind := k, rw_is_bridge := (k = Dev_BRIDGE)\<rparr>) (device_kind r))"

fun raw_devices :: "SetupDevice list \<Rightarrow> RawPciDevice list option" where
  "raw_devices [] = Some []"
| "raw_devices (d # ds) = (if su_enumerator_name d \<noteq> ''PCI'' then raw_devices ds
     else case raw_device d of None \<Rightarrow> None | Some r \<Rightarrow> map_option (\<lambda>rs. r # rs) (raw_devices ds))"

definition inst_info :: "RawPciDevice list \<Rightarrow> (u64, Bdf) omap" where
  "inst_info rs = fold (\<lambda>r m. om_insert (rw_inst r) (rw_bdf r) m) rs []"

text \<open>\<open>get_parent\<close> is \<open>CM_Get_Parent\<close>, \<open>None\<close> where it does not succeed.\<close>

definition resolve_parent :: "(u32 \<Rightarrow> u32 option) \<Rightarrow> (u64, Bdf) omap \<Rightarrow> RawPciDevice \<Rightarrow> RawPciDevice" where
  "resolve_parent get_parent info r = (case get_parent (ucast (rw_inst r)) of
      None \<Rightarrow> r
    | Some p \<Rightarrow> if p = 0 then r else (case om_lookup info (ucast p) of
        None \<Rightarrow> r | Some b \<Rightarrow> r\<lparr>rw_parent_bdf := Some b\<rparr>))"

definition sort_devices :: "RawPciDevice list \<Rightarrow> RawPciDevice list" where
  "sort_devices rs = sort_key rw_bdf rs"

definition enumerate_pci_devices :: "SetupDevice list option \<Rightarrow> (u32 \<Rightarrow> u32 option) \<Rightarrow>
    RawPciDevice list Result option" where
  "enumerate_pci_devices devs get_parent = (case devs of
      None \<Rightarrow> Some (Err EC_WINDOWS_ERROR ''SetupDiGetClassDevs failed'')
    | Some ds \<Rightarrow> map_option (\<lambda>rs. Success (sort_devices (map (resolve_parent get_parent (inst_info rs)) rs)))
        (raw_devices ds))"

text \<open>The whole enumeration over what Windows answers; \<open>None\<close> for \<open>INVALID_HANDLE_VALUE\<close>.\<close>

definition enumerate_answers :: "(wide \<Rightarrow> string) \<Rightarrow> DeviceAnswers list option \<Rightarrow> (u32 \<Rightarrow> u32 option) \<Rightarrow>
    RawPciDevice list Result option" where
  "enumerate_answers convert devs get_parent = (case devs of
      None \<Rightarrow> enumerate_pci_devices None get_parent
    | Some ds \<Rightarrow> (case read_devices convert ds of None \<Rightarrow> None
      | Some ss \<Rightarrow> enumerate_pci_devices (Some ss) get_parent))"

section \<open>What is read of a property\<close>

text \<open>
  Only the characters before the first terminator are read: of the hardware ids of a device, which
  Windows reports as several strings one after the other, the first.
\<close>

lemma c_wstring_terminated: "0 \<notin> set w \<Longrightarrow> c_wstring (w @ 0 # rest) = Some w"
  by (induction w) (auto simp: c_wstring_def)

lemma registry_string_first:
  assumes "an_text d prop = Some (w @ 0 # rest)" and "0 \<notin> set w"
  shows "get_registry_string convert d prop = Some (wide_to_utf8 convert w)"
  using assms by (simp add: get_registry_string_def c_wstring_terminated)

lemma registry_string_rest_ignored:
  assumes "an_text d prop = Some (w @ 0 # rest)" and "0 \<notin> set w"
  shows "get_registry_string convert (d\<lparr>an_text := (an_text d)(prop := Some (w @ 0 # rest'))\<rparr>) prop =
    get_registry_string convert d prop"
proof -
  let ?d = "d\<lparr>an_text := (an_text d)(prop := Some (w @ 0 # rest'))\<rparr>"
  have "an_text ?d prop = Some (w @ 0 # rest')" by simp
  from registry_string_first [OF this assms(2)] registry_string_first [OF assms] show ?thesis by simp
qed

lemma widened_char: "ucast (scast x :: u16) = (x :: u8)"
  by (rule bit_word_eqI) (auto simp: bit_simps)

lemma to_w_text:
  assumes "CHR 0x00 \<notin> set s"
  shows "c_wstring (to_w s @ [0]) = Some (to_w s)"
proof -
  have "scast (of_char c :: u8) \<noteq> (0 :: u16)" if "c \<in> set s" for c
  proof
    assume "scast (of_char c :: u8) = (0 :: u16)"
    then have "(of_char c :: u8) = 0" using widened_char [of "of_char c"] by simp
    then have "c = CHR 0x00"
      by (cases c) (simp add: of_char_Char horner_sum_simps of_bool_def split: if_splits)
    with assms that show False by simp
  qed
  then have "0 \<notin> set (to_w s)" by (auto simp: to_w_def)
  then show ?thesis by (simp add: c_wstring_terminated)
qed

text \<open>A device whose place Windows does not tell gets the address \<open>0000:00:00.0\<close>.\<close>

lemma device_bdf_unlocated:
  "parse_location_info (su_location d) = Some None \<Longrightarrow> su_busnumber d = None \<Longrightarrow> device_bdf d = Some (Bdf 0 0 0 0)"
  by (simp add: device_bdf_def)

section \<open>The topology\<close>

record win_build =
  wb_topology :: Topology
  wb_by_bdf :: "(Bdf, PciNodeId) omap"
  wb_next :: u64

definition win_parent :: "RawPciDevice \<Rightarrow> win_build \<Rightarrow> PciNodeId" where
  "win_parent d s = (case rw_parent_bdf d of None \<Rightarrow> StrongId 0
     | Some b \<Rightarrow> (case om_lookup (wb_by_bdf s) b of None \<Rightarrow> StrongId 0 | Some i \<Rightarrow> i))"

definition win_step :: "RawPciDevice \<Rightarrow> win_build \<Rightarrow> win_build" where
  "win_step d s = (if \<not> Bdf_valid (rw_bdf d) then s else
     let i = StrongId (wb_next s) in
     case add_endpoint i (rw_bdf d) (if rw_is_bridge d then Dev_BRIDGE else rw_kind d) (Generation 1)
            Prov_REPORTED (win_parent d s) (wb_topology s) of
       (r, t) \<Rightarrow> \<lparr>wb_topology = t,
         wb_by_bdf = (if res_ok r then om_insert (rw_bdf d) i (wb_by_bdf s) else wb_by_bdf s),
         wb_next = wb_next s + 1\<rparr>)"

definition win_start :: win_build where
  "win_start = \<lparr>wb_topology = Topology_new, wb_by_bdf = [], wb_next = 1\<rparr>"

definition build_topology :: "RawPciDevice list \<Rightarrow> Topology" where
  "build_topology ds = wb_topology (fold win_step ds win_start)"

definition build_topology_from_windows :: "SetupDevice list option \<Rightarrow> (u32 \<Rightarrow> u32 option) \<Rightarrow> Topology Result option" where
  "build_topology_from_windows devs get_parent =
     map_option (res_map build_topology) (enumerate_pci_devices devs get_parent)"

section \<open>The topology is one the builder can produce\<close>

lemma win_step_reach: "tp_reach (wb_topology s) \<Longrightarrow> tp_reach (wb_topology (win_step d s))"
proof -
  assume "tp_reach (wb_topology s)"
  then have "tp_reach (snd (add_endpoint i b k g p q (wb_topology s)))" for i b k g p q
    unfolding tp_reach_def by (rule reach_step) (rule tp_step_endpoint)
  with \<open>tp_reach (wb_topology s)\<close> show ?thesis
    by (simp add: win_step_def Let_def split_beta)
qed

lemma win_fold_reach: "tp_reach (wb_topology s) \<Longrightarrow> tp_reach (wb_topology (fold win_step ds s))"
  by (induction ds arbitrary: s) (simp_all add: win_step_reach)

lemma tp_reach_new: "tp_reach Topology_new"
  by (simp add: tp_reach_def reach_init tp_start_def)

lemma build_topology_reach: "tp_reach (build_topology ds)"
  unfolding build_topology_def by (rule win_fold_reach) (simp add: win_start_def tp_reach_new)

section \<open>The nodes of a discovered topology\<close>

lemma attach_nodes:
  "om_lookup (tp_nodes (snd (tp_attach c q l t))) j = Some n \<Longrightarrow>
   \<exists>n'. om_lookup (tp_nodes t) j = Some n' \<and> nd_kind n' = nd_kind n \<and> nd_bdf n' = nd_bdf n \<and>
     nd_removed n' = nd_removed n"
  by (cases rule: tp_attach_cases [of c q l t]) (auto simp: attach_state_def split: if_splits)

lemma add_endpoint_nodes:
  assumes inv: "tp_inv t" and j: "om_lookup (tp_nodes (snd (add_endpoint i b k g pr q t))) j = Some n"
  shows "(\<exists>n'. om_lookup (tp_nodes t) j = Some n' \<and> nd_kind n' = nd_kind n \<and> nd_bdf n' = nd_bdf n \<and>
      nd_removed n' = nd_removed n) \<or>
    j = i \<and> nd_kind n = k \<and> nd_bdf n = b \<and> \<not> nd_removed n"
proof -
  have "\<exists>n'. om_lookup (tp_nodes (snd (add_node i b k g pr t))) j = Some n' \<and> nd_kind n' = nd_kind n \<and>
      nd_bdf n' = nd_bdf n \<and> nd_removed n' = nd_removed n"
    using j by (auto simp: add_endpoint_def add_and_attach_def split: prod.splits Result.splits dest: attach_nodes)
  then obtain n' where n': "om_lookup (tp_nodes (snd (add_node i b k g pr t))) j = Some n'"
    "nd_kind n' = nd_kind n" "nd_bdf n' = nd_bdf n" "nd_removed n' = nd_removed n" by blast
  show ?thesis
  proof (cases "bdf_entry t b")
    case None
    with n' show ?thesis by (auto simp: add_node_def Node_default_def split: if_splits)
  next
    case (Some kn)
    obtain k2 n2 where kn: "kn = (k2, n2)" by (cases kn)
    have "om_lookup (tp_nodes t) k2 = Some n2" using bdf_entry_Some [OF inv] Some kn by blast
    with n' Some kn show ?thesis by (auto simp: add_node_def split: if_splits)
  qed
qed

text \<open>The classes discovery can report.\<close>

definition reported_kind :: "DeviceClass \<Rightarrow> bool" where
  "reported_kind k = (k \<in> {Dev_UNKNOWN, Dev_BRIDGE, Dev_ACCELERATOR, Dev_NIC, Dev_STORAGE, Dev_OTHER})"

lemma device_kind_reported: "device_kind r = Some k \<Longrightarrow> reported_kind k"
  by (auto simp: device_kind_def classify_pci_class_def classify_by_class_name_def class_of_codes_def
      reported_kind_def split: if_splits option.splits)

lemma raw_devices_reported: "raw_devices ds = Some rs \<Longrightarrow> r \<in> set rs \<Longrightarrow> reported_kind (rw_kind r)"
proof (induction ds arbitrary: rs)
  case (Cons d ds)
  show ?case
  proof (cases "su_enumerator_name d = ''PCI''")
    case True
    with Cons.prems(1) obtain r0 rs0 where r0: "raw_device d = Some r0" "raw_devices ds = Some rs0" "rs = r0 # rs0"
      by (auto split: option.splits)
    have "reported_kind (rw_kind r0)"
      using r0(1) by (auto simp: raw_device_def Let_def device_kind_reported split: option.splits)
    with Cons r0 show ?thesis by auto
  qed (use Cons in auto)
qed simp

lemma enumerate_reported:
  assumes "enumerate_pci_devices devs par = Some (Success rs)" and "r \<in> set rs"
  shows "reported_kind (rw_kind r)"
proof -
  obtain ds rs0 where "devs = Some ds" "raw_devices ds = Some rs0"
    "rs = sort_devices (map (resolve_parent par (inst_info rs0)) rs0)"
    using assms(1) by (auto simp: enumerate_pci_devices_def split: option.splits)
  with assms(2) raw_devices_reported show ?thesis
    by (auto simp: sort_devices_def resolve_parent_def split: option.splits)
qed

definition win_ok :: "Topology \<Rightarrow> bool" where
  "win_ok t = (\<forall>j n. om_lookup (tp_nodes t) j = Some n \<longrightarrow>
     \<not> nd_removed n \<and> Bdf_valid (nd_bdf n) \<and> reported_kind (nd_kind n))"

lemma win_step_ok:
  assumes "tp_inv (wb_topology s)" and "win_ok (wb_topology s)" and "reported_kind (rw_kind d)"
  shows "win_ok (wb_topology (win_step d s))"
proof (cases "Bdf_valid (rw_bdf d)")
  case False
  with assms show ?thesis by (simp add: win_step_def)
next
  case True
  have k: "reported_kind (if rw_is_bridge d then Dev_BRIDGE else rw_kind d)"
    using assms(3) by (simp add: reported_kind_def)
  show ?thesis unfolding win_ok_def
  proof (intro allI impI)
    fix j n assume j: "om_lookup (tp_nodes (wb_topology (win_step d s))) j = Some n"
    from j True have "om_lookup (tp_nodes (snd (add_endpoint (StrongId (wb_next s)) (rw_bdf d)
        (if rw_is_bridge d then Dev_BRIDGE else rw_kind d) (Generation 1) Prov_REPORTED (win_parent d s)
        (wb_topology s)))) j = Some n"
      by (simp add: win_step_def Let_def split_beta)
    from add_endpoint_nodes [OF assms(1) this]
    show "\<not> nd_removed n \<and> Bdf_valid (nd_bdf n) \<and> reported_kind (nd_kind n)"
    proof (elim disjE exE conjE)
      fix n' assume n': "om_lookup (tp_nodes (wb_topology s)) j = Some n'" "nd_kind n' = nd_kind n"
        "nd_bdf n' = nd_bdf n" "nd_removed n' = nd_removed n"
      have "\<not> nd_removed n' \<and> Bdf_valid (nd_bdf n') \<and> reported_kind (nd_kind n')"
        using assms(2) n'(1) unfolding win_ok_def by blast
      with n' show ?thesis by simp
    qed (use k True in simp)
  qed
qed

lemma win_fold_ok:
  "tp_reach (wb_topology s) \<Longrightarrow> win_ok (wb_topology s) \<Longrightarrow> \<forall>d \<in> set ds. reported_kind (rw_kind d) \<Longrightarrow>
   win_ok (wb_topology (fold win_step ds s))"
  by (induction ds arbitrary: s) (simp_all add: win_step_reach win_step_ok tp_reach_inv)

lemma win_ok_new: "win_ok Topology_new"
  by (simp add: win_ok_def Topology_new_def)

lemma build_topology_ok: "\<forall>d \<in> set ds. reported_kind (rw_kind d) \<Longrightarrow> win_ok (build_topology ds)"
  unfolding build_topology_def
  by (rule win_fold_ok) (simp_all add: win_start_def tp_reach_new win_ok_new)

text \<open>A discovered topology validates, and has no root complex at all.\<close>

lemma win_ok_validate:
  assumes "tp_inv t" and "win_ok t"
  shows "tp_validate t = Success ()"
proof (rule tp_validate_ok [OF assms(1)])
  have "DeviceClass_valid (DeviceClass_code k)" if "reported_kind k" for k
    using that by (auto simp: reported_kind_def DeviceClass_valid_def enum_in_range_def kDeviceClassNames_def DeviceClass_code_def)
  then show "current_ok t"
    using assms by (auto simp: current_ok_def list_all_iff win_ok_def dest: om_in_set_lookup [OF tp_inv_wf])
qed

lemma win_ok_no_root:
  assumes "win_ok t"
  shows "root_complex_of t i = None"
proof (rule ccontr)
  assume "root_complex_of t i \<noteq> None"
  then obtain rc n where "om_lookup (tp_nodes t) rc = Some n" "is_root_kind (nd_kind n)"
    using root_complex_not_endpoint by blast
  then have "reported_kind (nd_kind n)" "is_root_kind (nd_kind n)" using assms unfolding win_ok_def by blast+
  then show False by (auto simp: reported_kind_def is_root_kind_def)
qed

lemma win_ok_no_host_jobs: "win_ok t \<Longrightarrow> host_jobs t eps = []"
  by (simp add: host_jobs_def List.map_filter_def win_ok_no_root)

section \<open>The parents of a discovered topology\<close>

lemma add_endpoint_new:
  assumes inv: "tp_inv t" and i: "om_lookup (tp_nodes t) i = None" and b: "bdf_entry t b = None"
  shows "fst (add_endpoint i b k g pr q t) = Success i"
    and "tp_parent (snd (add_endpoint i b k g pr q t)) =
      (tp_parent t)(i := if tp_contains t q then Some q else None)"
    and "\<exists>n. om_lookup (tp_nodes (snd (add_endpoint i b k g pr q t))) i = Some n \<and> nd_bdf n = b \<and>
      nd_kind n = k \<and> \<not> nd_removed n"
proof -
  let ?n = "Node_default\<lparr>nd_id := i, nd_bdf := b, nd_kind := k, nd_generation := g, nd_provenance := pr\<rparr>"
  let ?t = "t\<lparr>tp_nodes := om_insert i ?n (tp_nodes t)\<rparr>"
  have add: "add_endpoint i b k g pr q t = (Success i, snd (tp_attach i q None ?t))"
    using i b by (simp add: add_endpoint_def add_and_attach_def add_node_def om_contains_def)
  have np: "nd_parent ?n = None" by (simp add: Node_default_def)
  have par: "tp_parent ?t = (tp_parent t)(i := None)"
    unfolding tp_parent_insert np ..
  show "fst (add_endpoint i b k g pr q t) = Success i" by (simp add: add)
  show "tp_parent (snd (add_endpoint i b k g pr q t)) =
      (tp_parent t)(i := if tp_contains t q then Some q else None)"
  proof (cases rule: tp_attach_cases [of i q None ?t])
    case (unchanged r)
    have "\<not> tp_contains t q"
    proof
      assume q: "tp_contains t q"
      then have "i \<noteq> q" "tp_contains ?t q" using i by (auto simp: tp_contains_def om_contains_def)
      with unchanged(2) [of ?n] np show False by simp
    qed
    with unchanged(1) add par show ?thesis by simp
  next
    case (changed c p)
    then have c: "c = ?n" "tp_contains t q" by (auto simp: tp_contains_def om_contains_def)
    have "tp_parent (attach_state i q None c p ?t) = (tp_parent ?t)(i := Some q)"
      using changed(1-3) by (auto simp: attach_state_def tp_parent_def fun_eq_iff)
    with changed(5) add par c(2) show ?thesis by simp
  qed
  show "\<exists>n. om_lookup (tp_nodes (snd (add_endpoint i b k g pr q t))) i = Some n \<and> nd_bdf n = b \<and>
      nd_kind n = k \<and> \<not> nd_removed n"
    by (cases rule: tp_attach_cases [of i q None ?t])
       (auto simp: add attach_state_def Node_default_def)
qed

text \<open>
  For devices with distinct valid BDFs: every device has one node, with the class it was given, and
  its parent is the node of its parent's BDF where that device came before it in the order.
\<close>

definition node_kind :: "RawPciDevice \<Rightarrow> DeviceClass" where
  "node_kind d = (if rw_is_bridge d then Dev_BRIDGE else rw_kind d)"

definition win_inv :: "RawPciDevice list \<Rightarrow> win_build \<Rightarrow> bool" where
  "win_inv ds s = (tp_inv (wb_topology s) \<and> tp_acyclic (wb_topology s) \<and>
     unat (wb_next s) = Suc (length ds) \<and>
     (\<forall>j n. om_lookup (tp_nodes (wb_topology s)) j = Some n \<longrightarrow> id_value j < wb_next s \<and>
        \<not> nd_removed n \<and> (\<exists>d \<in> set ds. nd_bdf n = rw_bdf d)) \<and>
     (\<forall>d \<in> set ds. \<exists>i n. om_lookup (wb_by_bdf s) (rw_bdf d) = Some i \<and>
        om_lookup (tp_nodes (wb_topology s)) i = Some n \<and> nd_bdf n = rw_bdf d \<and> nd_kind n = node_kind d))"

lemma win_inv_fresh:
  assumes "win_inv ds s" and "rw_bdf d \<notin> rw_bdf ` set ds"
  shows "om_lookup (tp_nodes (wb_topology s)) (StrongId (wb_next s)) = None"
    and "bdf_entry (wb_topology s) (rw_bdf d) = None"
proof -
  show "om_lookup (tp_nodes (wb_topology s)) (StrongId (wb_next s)) = None"
  proof (rule ccontr)
    assume "\<not> ?thesis"
    then obtain n where "om_lookup (tp_nodes (wb_topology s)) (StrongId (wb_next s)) = Some n" by blast
    then have "id_value (StrongId (wb_next s) :: PciNodeId) < wb_next s" using assms(1) unfolding win_inv_def by blast
    then show False by simp
  qed
  show "bdf_entry (wb_topology s) (rw_bdf d) = None"
  proof (rule ccontr)
    assume "\<not> ?thesis"
    then obtain k n where "bdf_entry (wb_topology s) (rw_bdf d) = Some (k, n)" by auto
    then have "om_lookup (tp_nodes (wb_topology s)) k = Some n" "nd_bdf n = rw_bdf d"
      using bdf_entry_Some assms(1) unfolding win_inv_def by blast+
    with assms show False unfolding win_inv_def by (metis imageI)
  qed
qed

lemma add_endpoint_keeps:
  assumes "tp_inv t" and "om_lookup (tp_nodes t) i = None" and "bdf_entry t b = None"
    and "om_lookup (tp_nodes t) j = Some n"
  shows "\<exists>n'. om_lookup (tp_nodes (snd (add_endpoint i b k g pr q t))) j = Some n' \<and>
    nd_bdf n' = nd_bdf n \<and> nd_kind n' = nd_kind n"
proof -
  let ?n = "Node_default\<lparr>nd_id := i, nd_bdf := b, nd_kind := k, nd_generation := g, nd_provenance := pr\<rparr>"
  let ?t = "t\<lparr>tp_nodes := om_insert i ?n (tp_nodes t)\<rparr>"
  have add: "add_endpoint i b k g pr q t = (Success i, snd (tp_attach i q None ?t))"
    using assms by (simp add: add_endpoint_def add_and_attach_def add_node_def om_contains_def)
  have "j \<noteq> i" using assms by auto
  with assms(4) show ?thesis
    by (cases rule: tp_attach_cases [of i q None ?t]) (auto simp: add attach_state_def)
qed

lemma win_step_inv:
  assumes inv: "win_inv ds s" and new: "rw_bdf d \<notin> rw_bdf ` set ds" and valid: "Bdf_valid (rw_bdf d)"
    and small: "length ds + 2 < 2 ^ 64"
  shows "win_inv (ds @ [d]) (win_step d s)"
    and "tp_parent (wb_topology (win_step d s)) = (tp_parent (wb_topology s))(StrongId (wb_next s) :=
      if tp_contains (wb_topology s) (win_parent d s) then Some (win_parent d s) else None)"
    and "om_lookup (wb_by_bdf (win_step d s)) = (om_lookup (wb_by_bdf s))(rw_bdf d \<mapsto> StrongId (wb_next s))"
proof -
  let ?t = "wb_topology s" and ?i = "StrongId (wb_next s)"
  let ?add = "add_endpoint ?i (rw_bdf d) (node_kind d) (Generation 1) Prov_REPORTED (win_parent d s) ?t"
  have t: "tp_inv ?t" "tp_acyclic ?t" and nxt: "unat (wb_next s) = Suc (length ds)"
    using inv by (simp_all add: win_inv_def)
  note fresh = win_inv_fresh [OF inv new]
  note add = add_endpoint_new [OF t(1) fresh, of "node_kind d" "Generation 1" Prov_REPORTED "win_parent d s"]
  have step: "win_step d s = \<lparr>wb_topology = snd ?add, wb_by_bdf = om_insert (rw_bdf d) ?i (wb_by_bdf s),
      wb_next = wb_next s + 1\<rparr>"
    using valid add(1) by (simp add: win_step_def Let_def node_kind_def split_beta)
  show "tp_parent (wb_topology (win_step d s)) = (tp_parent ?t)(?i :=
      if tp_contains ?t (win_parent d s) then Some (win_parent d s) else None)"
    using add(2) by (simp add: step)
  show "om_lookup (wb_by_bdf (win_step d s)) = (om_lookup (wb_by_bdf s))(rw_bdf d \<mapsto> ?i)"
    by (auto simp: step)
  have nxt': "unat (wb_next s + 1) = Suc (length (ds @ [d]))"
    using nxt small by (simp add: unat_word_ariths)
  have lt: "x < wb_next s + 1" if "x \<le> wb_next s" for x
    using that nxt' nxt by (simp add: word_less_nat_alt word_le_nat_alt)
  have nodes: "id_value j < wb_next s + 1 \<and> \<not> nd_removed n \<and> (\<exists>d' \<in> set (ds @ [d]). nd_bdf n = rw_bdf d')"
    if j: "om_lookup (tp_nodes (snd ?add)) j = Some n" for j n
    using add_endpoint_nodes [OF t(1) j]
  proof (elim disjE exE conjE)
    fix n' assume n': "om_lookup (tp_nodes ?t) j = Some n'" "nd_bdf n' = nd_bdf n" "nd_removed n' = nd_removed n"
    then have "id_value j < wb_next s \<and> \<not> nd_removed n' \<and> (\<exists>d \<in> set ds. nd_bdf n' = rw_bdf d)"
      using inv unfolding win_inv_def by blast
    with n' lt show ?thesis by (auto intro: less_imp_le)
  qed (simp add: lt)
  have devs: "\<exists>i n. om_lookup (om_insert (rw_bdf d) ?i (wb_by_bdf s)) (rw_bdf d') = Some i \<and>
      om_lookup (tp_nodes (snd ?add)) i = Some n \<and> nd_bdf n = rw_bdf d' \<and> nd_kind n = node_kind d'"
    if "d' \<in> set (ds @ [d])" for d'
  proof (cases "d' = d")
    case True
    with add(3) show ?thesis by auto
  next
    case False
    with that have d': "d' \<in> set ds" by simp
    then obtain i n where i: "om_lookup (wb_by_bdf s) (rw_bdf d') = Some i" "om_lookup (tp_nodes ?t) i = Some n"
      "nd_bdf n = rw_bdf d'" "nd_kind n = node_kind d'"
      using inv unfolding win_inv_def by blast
    moreover have "rw_bdf d' \<noteq> rw_bdf d" using new d' by (metis imageI)
    ultimately show ?thesis using add_endpoint_keeps [OF t(1) fresh i(2)] by auto
  qed
  show "win_inv (ds @ [d]) (win_step d s)"
    unfolding win_inv_def step win_build.simps
    using nodes devs nxt' attach_new [OF t fresh(2)] tp_inv_add_and_attach [OF t(1)]
    unfolding add_endpoint_def by blast
qed

lemma win_fold_inv:
  "win_inv ds s \<Longrightarrow> distinct (map rw_bdf (ds @ es)) \<Longrightarrow> list_all (\<lambda>d. Bdf_valid (rw_bdf d)) es \<Longrightarrow>
   length (ds @ es) + 2 < 2 ^ 64 \<Longrightarrow> win_inv (ds @ es) (fold win_step es s) \<and>
   (\<forall>i. id_value i < wb_next s \<longrightarrow> tp_parent (wb_topology (fold win_step es s)) i = tp_parent (wb_topology s) i)"
proof (induction es arbitrary: ds s)
  case (Cons e es)
  have new: "rw_bdf e \<notin> rw_bdf ` set ds" using Cons.prems(2) by auto
  note step = win_step_inv [OF Cons.prems(1) new]
  have ok: "Bdf_valid (rw_bdf e)" "length ds + 2 < 2 ^ 64" using Cons.prems(3,4) by auto
  have n: "wb_next (win_step e s) = wb_next s + 1"
    using ok(1) by (simp add: win_step_def Let_def split_beta)
  have u: "unat (wb_next s) = Suc (length ds)" using Cons.prems(1) by (simp add: win_inv_def)
  have "unat (wb_next s + 1) = Suc (unat (wb_next s))" using u ok(2) by (simp add: unat_word_ariths)
  then have lt: "x < wb_next s + 1" if "x < wb_next s" for x
    using that by (simp add: word_less_nat_alt)
  have IH: "win_inv ((ds @ [e]) @ es) (fold win_step es (win_step e s)) \<and>
    (\<forall>i. id_value i < wb_next (win_step e s) \<longrightarrow>
       tp_parent (wb_topology (fold win_step es (win_step e s))) i = tp_parent (wb_topology (win_step e s)) i)"
    by (rule Cons.IH [OF step(1)]) (use Cons.prems ok in auto)
  then show ?case using step(2) [OF ok] lt n by auto
qed simp

lemma win_fold_keeps:
  "win_inv ds s \<Longrightarrow> distinct (map rw_bdf (ds @ es)) \<Longrightarrow> list_all (\<lambda>d. Bdf_valid (rw_bdf d)) es \<Longrightarrow>
   length (ds @ es) + 2 < 2 ^ 64 \<Longrightarrow> om_lookup (tp_nodes (wb_topology s)) j = Some n \<Longrightarrow>
   \<exists>n'. om_lookup (tp_nodes (wb_topology (fold win_step es s))) j = Some n' \<and> nd_bdf n' = nd_bdf n"
proof (induction es arbitrary: ds s n)
  case (Cons e es)
  have new: "rw_bdf e \<notin> rw_bdf ` set ds" using Cons.prems(2) by auto
  have ok: "Bdf_valid (rw_bdf e)" "length ds + 2 < 2 ^ 64" using Cons.prems(3,4) by auto
  have t: "tp_inv (wb_topology s)" using Cons.prems(1) by (simp add: win_inv_def)
  obtain n1 where n1: "om_lookup (tp_nodes (wb_topology (win_step e s))) j = Some n1" "nd_bdf n1 = nd_bdf n"
    using add_endpoint_keeps [OF t win_inv_fresh [OF Cons.prems(1) new] Cons.prems(5)] ok(1)
    by (fastforce simp: win_step_def Let_def split_beta)
  have "\<exists>n'. om_lookup (tp_nodes (wb_topology (fold win_step es (win_step e s)))) j = Some n' \<and> nd_bdf n' = nd_bdf n1"
    by (rule Cons.IH [OF win_step_inv(1) [OF Cons.prems(1) new ok] _ _ _ n1(1)]) (use Cons.prems in auto)
  with n1(2) show ?case by simp
qed auto

lemma win_inv_start: "win_inv [] win_start"
  by (simp add: win_inv_def win_start_def tp_inv_new tp_acyclic_new) (simp add: Topology_new_def)

definition node_of :: "Topology \<Rightarrow> Bdf \<Rightarrow> PciNodeId \<Rightarrow> bool" where
  "node_of t b i = (\<exists>n. om_lookup (tp_nodes t) i = Some n \<and> nd_bdf n = b \<and> \<not> nd_removed n)"

lemma node_of_unique: "tp_inv t \<Longrightarrow> node_of t b i \<Longrightarrow> node_of t b j \<Longrightarrow> i = j"
  unfolding node_of_def by (metis tp_inv_bdf)

lemma discovery_nodes:
  assumes "distinct (map rw_bdf ds)" and "list_all (\<lambda>d. Bdf_valid (rw_bdf d)) ds" and "length ds + 2 < 2 ^ 64"
  shows "win_inv ds (fold win_step ds win_start)"
  using win_fold_inv [OF win_inv_start, of ds] assms by simp

lemma discovery_parent:
  assumes ds: "ds = xs @ d # ys" and dist: "distinct (map rw_bdf ds)"
    and valid: "list_all (\<lambda>d. Bdf_valid (rw_bdf d)) ds" and small: "length ds + 2 < 2 ^ 64"
    and par: "rw_parent_bdf d = Some b" "b \<in> rw_bdf ` set xs"
  shows "\<exists>i p. node_of (build_topology ds) (rw_bdf d) i \<and> node_of (build_topology ds) b p \<and>
    tp_parent (build_topology ds) i = Some p"
proof -
  let ?s = "fold win_step xs win_start"
  have xs: "win_inv xs ?s" by (rule discovery_nodes) (use ds dist valid small in auto)
  have new: "rw_bdf d \<notin> rw_bdf ` set xs" using ds dist by auto
  have ok: "Bdf_valid (rw_bdf d)" "length xs + 2 < 2 ^ 64" using ds valid small by auto
  note step = win_step_inv [OF xs new ok]
  obtain p n where p: "om_lookup (wb_by_bdf ?s) b = Some p" "om_lookup (tp_nodes (wb_topology ?s)) p = Some n"
    "nd_bdf n = b"
    using par(2) xs unfolding win_inv_def by (metis image_iff)
  have parent: "win_parent d ?s = p" using par(1) p(1) by (simp add: win_parent_def)
  let ?i = "StrongId (wb_next ?s) :: PciNodeId"
  have u: "unat (wb_next ?s) = Suc (length xs)" using xs by (simp add: win_inv_def)
  have n1: "wb_next (win_step d ?s) = wb_next ?s + 1"
    using ok(1) by (simp add: win_step_def Let_def split_beta)
  have lt: "wb_next ?s < wb_next ?s + 1"
    using u ok(2) by (simp add: word_less_nat_alt unat_word_ariths)
  have rest: "win_inv ((xs @ [d]) @ ys) (fold win_step ys (win_step d ?s)) \<and>
    (\<forall>i. id_value i < wb_next (win_step d ?s) \<longrightarrow>
       tp_parent (wb_topology (fold win_step ys (win_step d ?s))) i = tp_parent (wb_topology (win_step d ?s)) i)"
    by (rule win_fold_inv [OF step(1)]) (use ds dist valid small in auto)
  have bt: "build_topology ds = wb_topology (fold win_step ys (win_step d ?s))"
    by (simp add: build_topology_def ds)
  have "tp_parent (build_topology ds) ?i = Some p"
    using rest step(2) parent p(2) n1 lt by (simp add: bt tp_contains_def om_contains_def)
  moreover have keep: "node_of (build_topology ds) (nd_bdf m) j"
    if m: "om_lookup (tp_nodes (wb_topology (win_step d ?s))) j = Some m" for j m
  proof -
    have "\<exists>m'. om_lookup (tp_nodes (wb_topology (fold win_step ys (win_step d ?s)))) j = Some m' \<and> nd_bdf m' = nd_bdf m"
      by (rule win_fold_keeps [OF step(1) _ _ _ m]) (use ds dist valid small in auto)
    then obtain m' where m': "om_lookup (tp_nodes (build_topology ds)) j = Some m'" "nd_bdf m' = nd_bdf m"
      unfolding bt by blast
    then have "\<not> nd_removed m'" using rest bt unfolding win_inv_def by metis
    with m' show ?thesis by (auto simp: node_of_def)
  qed
  moreover have "\<exists>m. om_lookup (tp_nodes (wb_topology (win_step d ?s))) ?i = Some m \<and> nd_bdf m = rw_bdf d"
    using step(1,3) unfolding win_inv_def by fastforce
  moreover have "\<exists>m. om_lookup (tp_nodes (wb_topology (win_step d ?s))) p = Some m \<and> nd_bdf m = b"
  proof -
    have "tp_inv (wb_topology ?s)" using xs by (simp add: win_inv_def)
    from add_endpoint_keeps [OF this win_inv_fresh [OF xs new] p(2)] p(3) ok(1)
    show ?thesis by (fastforce simp: win_step_def Let_def split_beta)
  qed
  ultimately show ?thesis by metis
qed

text \<open>
  A second device of a known BDF gets no node, but \<open>by_bdf\<close> then names the id it would have had:
  its children are looked up under a parent that does not exist.
\<close>

lemma attach_keys: "tp_contains (snd (tp_attach c q l t)) j = tp_contains t j"
  by (cases rule: tp_attach_cases [of c q l t])
     (auto simp: attach_state_def tp_contains_def om_contains_def)

lemma win_step_duplicate:
  assumes inv: "tp_inv (wb_topology s)" and valid: "Bdf_valid (rw_bdf d)"
    and dup: "bdf_entry (wb_topology s) (rw_bdf d) = Some (k, n)"
    and free: "\<not> tp_contains (wb_topology s) (StrongId (wb_next s))"
  shows "om_lookup (wb_by_bdf (win_step d s)) (rw_bdf d) = Some (StrongId (wb_next s)) \<and>
    \<not> tp_contains (wb_topology (win_step d s)) (StrongId (wb_next s))"
proof -
  have k: "om_lookup (tp_nodes (wb_topology s)) k = Some n" using bdf_entry_Some [OF inv dup] by blast
  then have "StrongId (wb_next s) \<noteq> k" using free by (auto simp: tp_contains_def om_contains_def)
  with free dup valid show ?thesis
    by (simp add: win_step_def Let_def split_beta add_endpoint_def add_and_attach_def add_node_def attach_keys)
       (simp add: tp_contains_def om_contains_def)
qed

section \<open>Location strings\<close>

lemma dec_string_simp: "dec_string n = (if n < 10 then [char_of (48 + n)] else dec_string (n div 10) @ [char_of (48 + n mod 10)])"
  by (rule dec_string.simps)

lemma digit_char: "n < 10 \<Longrightarrow> of_char (char_of (48 + n) :: char) = (48 + n :: nat)"
  by simp

lemma dec_string_chars: "c \<in> set (dec_string n) \<Longrightarrow> \<exists>k < 10. c = char_of (48 + k :: nat)"
proof (induction n rule: dec_string.induct)
  case (1 n)
  show ?case
  proof (cases "n < 10")
    case True
    with "1.prems" show ?thesis by (subst (asm) dec_string_simp) auto
  next
    case False
    then have "c \<in> set (dec_string (n div 10)) \<or> c = char_of (48 + n mod 10)"
      using "1.prems" by (subst (asm) dec_string_simp) auto
    with "1.IH" [OF False] show ?thesis by (metis mod_less_divisor zero_less_numeral)
  qed
qed

lemma dec_string_nonempty [simp]: "dec_string n \<noteq> []"
  by (subst dec_string_simp) simp

lemma digit_value_dec: "n < 10 \<Longrightarrow> digit_value 10 (char_of (48 + n :: nat)) = Some n"
  by (simp add: digit_value_def Let_def digit_char)

lemma digits_dec: "digits 10 (dec_string n @ s) 0 = digits 10 s n"
proof (induction n arbitrary: s rule: dec_string.induct)
  case (1 n)
  show ?case
  proof (cases "n < 10")
    case True
    then show ?thesis by (subst dec_string_simp) (simp add: digit_value_dec)
  next
    case False
    have "digits 10 (dec_string n @ s) 0 = digits 10 (dec_string (n div 10) @ char_of (48 + n mod 10) # s) 0"
      using False by (subst dec_string_simp) simp
    also have "\<dots> = digits 10 s (n div 10 * 10 + n mod 10)"
      by (simp add: "1.IH" [OF False] digit_value_dec)
    finally show ?thesis by simp
  qed
qed

lemma atoi_dec:
  assumes "n < 2 ^ 31" and "s = [] \<or> digit_value 10 (hd s) = None"
  shows "atoi (dec_string n @ s) = Some (int n)"
proof -
  obtain c cs where c: "dec_string n = c # cs" by (cases "dec_string n") simp_all
  then obtain k where k: "k < 10" "c = char_of (48 + k :: nat)" using dec_string_chars [of c n] by auto
  have oc: "of_char c = 48 + k" unfolding k(2) using k(1) by (rule digit_char)
  have "\<not> is_space c" "c \<noteq> CHR ''-''" "c \<noteq> CHR ''+''"
    using oc by (auto simp: is_space_def)
  then have "split_sign (dropWhile is_space (dec_string n @ s)) = (1, dec_string n @ s)"
    by (simp add: c split_sign_def)
  moreover have "digits 10 (dec_string n @ s) 0 = n"
    using assms(2) digits_dec [of n s] by (cases s) simp_all
  ultimately show ?thesis using assms(1) by (simp add: atoi_def in_int_def)
qed

lemma find_sub_skip: "p \<notin> set xs \<Longrightarrow> find_sub (p # ps) (xs @ s) = map_option (\<lambda>n. length xs + n) (find_sub (p # ps) s)"
  by (induction xs) (cases "find_sub (p # ps) s"; simp)+

lemma starts_with_append: "starts_with p (p @ s)"
  by (induction p) simp_all

lemma field_after_dec:
  assumes "p \<notin> set xs" and "n < 2 ^ 31" and "s = [] \<or> digit_value 10 (hd s) = None"
  shows "field_after (p # ps) (xs @ (p # ps) @ dec_string n @ s) = Some (Some (of_nat n))"
proof -
  have "find_sub (p # ps) ((p # ps) @ dec_string n @ s) = Some 0"
    using starts_with_append [of "p # ps" "dec_string n @ s"] by simp
  then have "find_sub (p # ps) (xs @ (p # ps) @ dec_string n @ s) = Some (length xs)"
    by (simp only: find_sub_skip [OF assms(1)]) simp
  then show ?thesis using atoi_dec [OF assms(2,3)] by (simp add: field_after_def)
qed

lemma not_in_dec: "k < 48 \<or> 57 < k \<Longrightarrow> of_char c = (k::nat) \<Longrightarrow> c \<notin> set (dec_string n)"
  using dec_string_chars [of c n] digit_char by auto

lemma lower_dec: "map to_lower (dec_string n) = dec_string n"
  by (rule map_idI) (use dec_string_chars digit_char in \<open>fastforce simp: to_lower_def Let_def\<close>)

lemma lower_words:
  "map to_lower ''PCI bus '' = ''pci bus ''" "map to_lower '', device '' = '', device ''"
  "map to_lower '', function '' = '', function ''"
  by code_simp+

definition location_string :: "nat \<Rightarrow> nat \<Rightarrow> nat \<Rightarrow> string" where
  "location_string b d f = ''PCI bus '' @ dec_string b @ '', device '' @ dec_string d @ '', function '' @ dec_string f"

lemma parse_location_string:
  assumes "b < 2 ^ 31" and "d < 2 ^ 31" and "f < 2 ^ 31"
  shows "parse_location_info (location_string b d f) = Some (Some (of_nat b, of_nat d, of_nat f))"
proof -
  let ?B = "dec_string b" and ?D = "dec_string d" and ?F = "dec_string f"
  have lower: "map to_lower (location_string b d f) =
      ''pci bus '' @ ?B @ '', device '' @ ?D @ '', function '' @ ?F"
    unfolding location_string_def map_append lower_words lower_dec ..
  let ?s = "''pci bus '' @ ?B @ '', device '' @ ?D @ '', function '' @ ?F"
  have "field_after ''bus '' ?s = Some (Some (of_nat b))"
    using field_after_dec [of "CHR ''b''" "''pci ''" b "'', device '' @ ?D @ '', function '' @ ?F" "''us ''"]
      assms(1) by (simp add: digit_value_def)
  moreover have "field_after ''device '' ?s = Some (Some (of_nat d))"
    using field_after_dec [of "CHR ''d''" "''pci bus '' @ ?B @ '', ''" d "'', function '' @ ?F" "''evice ''"]
      assms(2) not_in_dec [of 100 "CHR ''d''" b] by (simp add: digit_value_def)
  moreover have "field_after ''function '' ?s = Some (Some (of_nat f))"
    using field_after_dec [of "CHR ''f''" "''pci bus '' @ ?B @ '', device '' @ ?D @ '', ''" f "[]" "''unction ''"]
      assms(3) not_in_dec [of 102 "CHR ''f''" b] not_in_dec [of 102 "CHR ''f''" d] by simp
  ultimately show ?thesis by (simp add: parse_location_info_def Let_def lower)
qed

end
