(* ===== verification/PF_Cuda.thy ===== *)
theory PF_Cuda
  imports PF_Link PF_Bdf PF_Measurement
begin

text \<open>
  The transfer engine, \<open>cuda_engine.hpp\<close> and \<open>src/pciefabric/cuda_engine.cu\<close>: \<open>detect_device\<close>,
  \<open>timed_transfer\<close> and \<open>run_proof\<close>. What the calls of the CUDA runtime answer is an argument,
  \<open>CudaCalls\<close>; \<open>CudaHeld\<close> counts what is allocated and not yet released. The host buffers hold the
  integers \<open>i % 251\<close> and three times that, which \<open>float\<close> represents exactly, so the expected
  contents are numbers here; what comes back from the device is binary32 patterns. What
  the kernel leaves in the buffer is among the answers; \<open>PF_Kernel\<close> models the kernel itself.
\<close>

section \<open>Data\<close>

record CudaDeviceInfo =
  cd_ordinal :: int
  cd_bdf :: Bdf
  cd_name :: string
  cd_cc_major :: int
  cd_cc_minor :: int
  cd_total_mem :: u64
  cd_free_mem :: u64
  cd_present :: bool

definition CudaDeviceInfo_default :: CudaDeviceInfo where
  "CudaDeviceInfo_default = \<lparr>cd_ordinal = - 1, cd_bdf = Bdf_default, cd_name = [], cd_cc_major = 0,
     cd_cc_minor = 0, cd_total_mem = 0, cd_free_mem = 0, cd_present = False\<rparr>"

record CudaTransferSample =
  ts_cls :: TransferClass
  ts_bytes :: u64
  ts_iters :: u64
  ts_duration_ms :: f64
  ts_bytes_per_sec :: f64
  ts_ok :: bool
  ts_detail :: string

definition CudaTransferSample_default :: CudaTransferSample where
  "CudaTransferSample_default = \<lparr>ts_cls = TC_UNKNOWN, ts_bytes = 0, ts_iters = 0, ts_duration_ms = 0,
     ts_bytes_per_sec = 0, ts_ok = False, ts_detail = []\<rparr>"

record CudaProofResult =
  cp_ok :: bool
  cp_error :: string
  cp_device :: CudaDeviceInfo
  cp_pci_correlated :: bool
  cp_pageable_h2d :: CudaTransferSample
  cp_pageable_d2h :: CudaTransferSample
  cp_pinned_h2d :: CudaTransferSample
  cp_pinned_d2h :: CudaTransferSample
  cp_kernel_verified :: bool
  cp_kernel_reference :: string
  cp_mem_free_before :: u64
  cp_mem_free_after :: u64
  cp_mem_clean :: bool
  cp_cuda_clean :: bool

definition CudaProofResult_default :: CudaProofResult where
  "CudaProofResult_default = \<lparr>cp_ok = False, cp_error = [], cp_device = CudaDeviceInfo_default,
     cp_pci_correlated = False, cp_pageable_h2d = CudaTransferSample_default,
     cp_pageable_d2h = CudaTransferSample_default, cp_pinned_h2d = CudaTransferSample_default,
     cp_pinned_d2h = CudaTransferSample_default, cp_kernel_verified = False, cp_kernel_reference = [],
     cp_mem_free_before = 0, cp_mem_free_after = 0, cp_mem_clean = False, cp_cuda_clean = False\<rparr>"

section \<open>Answers of the CUDA runtime\<close>

text \<open>\<open>None\<close> is a call that does not return \<open>cudaSuccess\<close>.\<close>

record DeviceCalls =
  dc_count :: "int option"
  dc_pci_bus_id :: "string option"
  dc_properties :: "(string \<times> int \<times> int) option"
  dc_mem_info :: "(u64 \<times> u64) option"

text \<open>
  The calls of one \<open>timed_transfer\<close>; \<open>tt_copies\<close> counts the copies that succeed before one fails. An
  event is destroyed by one call at most, whose failure the code ignores: the event then stays.
\<close>

record TransferCalls =
  tt_create0 :: bool
  tt_create1 :: bool
  tt_copies :: "nat option"
  tt_synchronize :: bool
  tt_elapsed :: "f64 option"
  tt_destroy0 :: bool
  tt_destroy1 :: bool

record CudaCalls =
  cc_device :: DeviceCalls
  cc_mem_before :: "(u64 \<times> u64) option"
  cc_host_alloc :: bool
  cc_malloc :: bool
  cc_error_text :: string
  cc_vectors :: "nat option"  \<comment> \<open>how many \<open>std::vector\<close>s are allocated before one throws\<close>
  cc_pageable_h2d :: TransferCalls
  cc_pageable_d2h :: TransferCalls
  cc_pinned_h2d :: TransferCalls
  cc_pinned_d2h :: TransferCalls
  cc_copy_in :: bool
  cc_synchronize :: bool
  cc_copy_out :: bool
  cc_got :: "nat \<Rightarrow> u32"
  cc_free :: bool
  cc_free_host :: bool
  cc_last_ok :: bool
  cc_mem_after :: "(u64 \<times> u64) option"

text \<open>What was created and not given back: a release that fails leaves its resource in the count.\<close>

record CudaHeld =
  ch_events :: nat
  ch_pinned :: nat
  ch_device :: nat

section \<open>\<open>detect_device\<close>\<close>

definition detect_device :: "DeviceCalls \<Rightarrow> CudaDeviceInfo Result" where
  "detect_device c = (case dc_count c of
      None \<Rightarrow> Err EC_CUDA_ERROR ''no CUDA device''
    | Some count \<Rightarrow>
      if count < 1 then Err EC_CUDA_ERROR ''no CUDA device'' else
      let info = CudaDeviceInfo_default\<lparr>cd_ordinal := 0\<rparr>;
          info = (case dc_pci_bus_id c of None \<Rightarrow> info
            | Some pci \<Rightarrow> if length pci = 0 then info
                else (case Bdf_parse pci of Err _ _ \<Rightarrow> info | Success b \<Rightarrow> info\<lparr>cd_bdf := b\<rparr>));
          info = (case dc_properties c of None \<Rightarrow> info
            | Some (name, major, minor) \<Rightarrow> info\<lparr>cd_name := name, cd_cc_major := major, cd_cc_minor := minor\<rparr>);
          info = (case dc_mem_info c of None \<Rightarrow> info
            | Some (free_b, total_b) \<Rightarrow> info\<lparr>cd_free_mem := free_b, cd_total_mem := total_b\<rparr>)
      in Success (info\<lparr>cd_present := True\<rparr>))"

section \<open>\<open>timed_transfer\<close>\<close>

definition event_create :: "CudaHeld \<Rightarrow> CudaHeld" where
  "event_create h = h\<lparr>ch_events := ch_events h + 1\<rparr>"

text \<open>\<open>cudaEventDestroy\<close>, \<open>cudaFree\<close> and \<open>cudaFreeHost\<close>, with the answer of the call.\<close>

definition event_destroy :: "bool \<Rightarrow> CudaHeld \<Rightarrow> CudaHeld" where
  "event_destroy ok h = (if ok then h\<lparr>ch_events := ch_events h - 1\<rparr> else h)"

definition cuda_free :: "bool \<Rightarrow> CudaHeld \<Rightarrow> CudaHeld" where
  "cuda_free ok h = (if ok then h\<lparr>ch_device := ch_device h - 1\<rparr> else h)"

definition cuda_free_host :: "bool \<Rightarrow> CudaHeld \<Rightarrow> CudaHeld" where
  "cuda_free_host ok h = (if ok then h\<lparr>ch_pinned := ch_pinned h - 1\<rparr> else h)"

text \<open>\<open>for (int i = 0; i < iters; ++i)\<close>: whether the loop meets a copy that fails.\<close>

definition copies_fail :: "nat option \<Rightarrow> int \<Rightarrow> bool" where
  "copies_fail copies iters = (case copies of None \<Rightarrow> False | Some k \<Rightarrow> int k < iters)"

definition copies_made :: "nat option \<Rightarrow> int \<Rightarrow> nat" where
  "copies_made copies iters = (case copies of None \<Rightarrow> nat iters | Some k \<Rightarrow> min k (nat iters))"

text \<open>The milliseconds, \<open>ok\<close>, and what is held afterwards.\<close>

definition timed_transfer :: "TransferCalls \<Rightarrow> int \<Rightarrow> CudaHeld \<Rightarrow> f64 \<times> bool \<times> CudaHeld" where
  "timed_transfer c iters h =
     (if \<not> tt_create0 c then (0, False, h) else
      let h1 = event_create h in
      if \<not> tt_create1 c then (0, False, event_destroy (tt_destroy0 c) h1) else
      let h2 = event_create h1 in
      if copies_fail (tt_copies c) iters then (0, False, event_destroy (tt_destroy1 c) (event_destroy (tt_destroy0 c) h2))
      else if \<not> tt_synchronize c then (0, False, event_destroy (tt_destroy1 c) (event_destroy (tt_destroy0 c) h2))
      else (case tt_elapsed c of None \<Rightarrow> 0 | Some ms \<Rightarrow> ms, True, event_destroy (tt_destroy1 c) (event_destroy (tt_destroy0 c) h2)))"

section \<open>The comparison with the reference\<close>

text \<open>
  \<open>std::fabsf(got - expect) > 1e-3f\<close> for a pattern \<open>got\<close> and an integer \<open>expect\<close>. \<open>1e-3f\<close> is
  \<open>8589935 / 2 powi 33\<close>, an odd significand, and a tie is rounded to even, so the rounded
  difference is greater exactly when the difference is at least \<open>17179871 / 2 powi 34\<close>.
  On NaN the comparison is false.
\<close>

definition f32_expo :: "u32 \<Rightarrow> nat" where
  "f32_expo x = unat (take_bit 31 x) div 2 ^ 23"

definition f32_frac :: "u32 \<Rightarrow> nat" where
  "f32_frac x = unat (take_bit 31 x) mod 2 ^ 23"

definition f32_is_nan :: "u32 \<Rightarrow> bool" where
  "f32_is_nan x = (f32_expo x = 255 \<and> f32_frac x \<noteq> 0)"

text \<open>The value of a finite pattern times \<open>2 ^ 149\<close>.\<close>

definition f32_scaled :: "u32 \<Rightarrow> int" where
  "f32_scaled x = (if bit x 31 then - 1 else 1) *
     (if f32_expo x = 0 then int (f32_frac x) else int (2 ^ 23 + f32_frac x) * 2 ^ (f32_expo x - 1))"

definition f32_far :: "u32 \<Rightarrow> nat \<Rightarrow> bool" where
  "f32_far got expect = (
     if f32_is_nan got then False
     else if f32_expo got = 255 then True
     else 17179871 * 2 ^ 115 \<le> \<bar>f32_scaled got - int expect * 2 ^ 149\<bar>)"

definition reference_value :: "nat \<Rightarrow> nat" where
  "reference_value i = 2 * (i mod 251) + i mod 251"

definition kernel_matches :: "nat \<Rightarrow> (nat \<Rightarrow> u32) \<Rightarrow> bool" where
  "kernel_matches n got = list_all (\<lambda>i. \<not> f32_far (got i) (reference_value i)) [0..<n]"

section \<open>\<open>run_proof\<close>\<close>

text \<open>How a run ends; \<open>Undefined\<close> is an access beyond a vector or a signed overflow.\<close>

datatype proof_end =
    Returns "CudaProofResult Result" CudaHeld
  | Throws CudaHeld
  | Undefined

definition vector_throws :: "CudaCalls \<Rightarrow> nat \<Rightarrow> bool" where
  "vector_throws c k = (case cc_vectors c of None \<Rightarrow> False | Some n \<Rightarrow> n \<le> k)"

text \<open>The floats of a vector of \<open>bytes / sizeof(float)\<close>, and whether \<open>bytes\<close> bytes of it may be accessed.\<close>

definition float_count :: "u64 \<Rightarrow> nat" where
  "float_count bytes = unat bytes div 4"

definition within_vector :: "u64 \<Rightarrow> bool" where
  "within_vector bytes = (unat bytes \<le> 4 * float_count bytes)"

text \<open>\<open>static_cast<int>\<close> of a \<open>uint64_t\<close> keeps the low 32 bits.\<close>

definition int_of_u64 :: "u64 \<Rightarrow> int" where
  "int_of_u64 x = sint (ucast x :: 32 word)"

definition transfer_sample :: "TransferClass \<Rightarrow> u64 \<Rightarrow> u64 \<Rightarrow> f64 \<Rightarrow> CudaTransferSample" where
  "transfer_sample cls bytes iters ms = CudaTransferSample_default\<lparr>ts_ok := True, ts_cls := cls,
     ts_bytes := bytes, ts_iters := iters, ts_duration_ms := ms,
     ts_bytes_per_sec := f64_div (f64_of_nat (unat (bytes * iters))) (f64_div ms (f64_lit 1000 1))\<rparr>"

text \<open>A transfer and its sample, which stays the default where the transfer fails.\<close>

definition run_transfer :: "TransferClass \<Rightarrow> TransferCalls \<Rightarrow> u64 \<Rightarrow> u64 \<Rightarrow> CudaHeld \<Rightarrow> CudaTransferSample \<times> CudaHeld" where
  "run_transfer cls c bytes iters h = (case timed_transfer c (int_of_u64 iters) h of
     (ms, ok, h') \<Rightarrow> (if ok then transfer_sample cls bytes iters ms else CudaTransferSample_default, h'))"

text \<open>
  The kernel and its verification: \<open>None\<close> for undefined, \<open>Some None\<close> for a vector that throws. The
  number of blocks is computed in \<open>int\<close>.
\<close>

definition verify_kernel :: "CudaCalls \<Rightarrow> u64 \<Rightarrow> (bool \<times> string) option option" where
  "verify_kernel c bytes =
     (if unat bytes < 4 then Some (Some (False, []))
      else if vector_throws c 3 then Some None
      else if \<not> cc_copy_in c then Some (Some (False, []))
      else if int_of_u64 (of_nat (float_count bytes)) + 255 \<ge> 2 ^ 31 then None
      else if \<not> cc_synchronize c then Some (Some (False, []))
      else if vector_throws c 4 then Some None
      else if \<not> cc_copy_out c then Some (Some (False, []))
      else let ok = kernel_matches (float_count bytes) (cc_got c)
           in Some (Some (ok, if ok then ''CPU reference matched'' else ''CPU reference MISMATCH'')))"

definition mem_or :: "u64 \<Rightarrow> (u64 \<times> u64) option \<Rightarrow> u64" where
  "mem_or x m = (case m of None \<Rightarrow> x | Some (free_b, _) \<Rightarrow> free_b)"

text \<open>The part of \<open>run_proof\<close> between the allocations and the release: the four transfers and the kernel.\<close>

definition proof_work :: "CudaCalls \<Rightarrow> u64 \<Rightarrow> u64 \<Rightarrow> CudaProofResult \<Rightarrow> CudaHeld \<Rightarrow>
    (CudaProofResult option \<times> CudaHeld) option" where
  "proof_work c bytes iters out h =
     (if \<not> within_vector bytes then None else
      case run_transfer TC_PAGEABLE_H2D (cc_pageable_h2d c) bytes iters h of (s1, h1) \<Rightarrow>
      if vector_throws c 1 then Some (None, h1) else
      case run_transfer TC_PAGEABLE_D2H (cc_pageable_d2h c) bytes iters h1 of (s2, h2) \<Rightarrow>
      case run_transfer TC_PINNED_H2D (cc_pinned_h2d c) bytes iters h2 of (s3, h3) \<Rightarrow>
      if vector_throws c 2 then Some (None, h3) else
      case run_transfer TC_PINNED_D2H (cc_pinned_d2h c) bytes iters h3 of (s4, h4) \<Rightarrow>
      case verify_kernel c bytes of
        None \<Rightarrow> None
      | Some None \<Rightarrow> Some (None, h4)
      | Some (Some (ok, text)) \<Rightarrow> Some (Some (out\<lparr>cp_pageable_h2d := s1, cp_pageable_d2h := s2,
          cp_pinned_h2d := s3, cp_pinned_d2h := s4, cp_kernel_verified := ok, cp_kernel_reference := text\<rparr>), h4))"

definition or_default :: "u64 \<Rightarrow> u64 \<Rightarrow> u64" where
  "or_default d x = (if x = 0 then d else x)"

definition run_proof :: "CudaCalls \<Rightarrow> u64 \<Rightarrow> u64 \<Rightarrow> CudaHeld \<Rightarrow> proof_end" where
  "run_proof c bytes0 iters0 h = (case detect_device (cc_device c) of
      Err code m \<Rightarrow> Returns (Err code m) h
    | Success dev \<Rightarrow>
      let before = mem_or 0 (cc_mem_before c);
          out = CudaProofResult_default\<lparr>cp_device := dev, cp_mem_free_before := before\<rparr>;
          bytes = or_default (256 * 1024 * 1024) bytes0;
          iters = or_default 8 iters0
      in if vector_throws c 0 then Throws h
      else if \<not> cc_host_alloc c
        then Returns (Success (out\<lparr>cp_error := ''cudaHostAlloc failed: '' @ cc_error_text c\<rparr>)) h
      else if \<not> cc_malloc c
        then Returns (Success (out\<lparr>cp_error := ''cudaMalloc failed: '' @ cc_error_text c\<rparr>))
          (cuda_free_host (cc_free_host c) (h\<lparr>ch_pinned := ch_pinned h + 1\<rparr>))
      else case proof_work c bytes iters out (h\<lparr>ch_pinned := ch_pinned h + 1, ch_device := ch_device h + 1\<rparr>) of
        None \<Rightarrow> Undefined
      | Some (None, h') \<Rightarrow> Throws h'
      | Some (Some out', h') \<Rightarrow>
          let after = mem_or before (cc_mem_after c)
          in Returns (Success (out'\<lparr>cp_cuda_clean := cc_last_ok c, cp_mem_free_after := after,
               cp_mem_clean := (before \<le> after), cp_pci_correlated := Bdf_valid (cd_bdf dev), cp_ok := True\<rparr>))
             (cuda_free_host (cc_free_host c) (cuda_free (cc_free c) h')))"

section \<open>Release\<close>

text \<open>The events a transfer leaves behind: those it created and whose destruction fails.\<close>

definition transfer_left :: "TransferCalls \<Rightarrow> nat" where
  "transfer_left c = (if \<not> tt_create0 c then 0 else
     of_bool (\<not> tt_destroy0 c) + (if \<not> tt_create1 c then 0 else of_bool (\<not> tt_destroy1 c)))"

definition events_left :: "CudaCalls \<Rightarrow> nat \<Rightarrow> nat" where
  "events_left c n = sum_list (take n (map transfer_left
     [cc_pageable_h2d c, cc_pageable_d2h c, cc_pinned_h2d c, cc_pinned_d2h c]))"

text \<open>The transfers made before a vector throws.\<close>

definition transfers_made :: "CudaCalls \<Rightarrow> nat" where
  "transfers_made c = (if vector_throws c 1 then 1 else if vector_throws c 2 then 3 else 4)"

definition events_more :: "nat \<Rightarrow> CudaHeld \<Rightarrow> CudaHeld" where
  "events_more n h = h\<lparr>ch_events := ch_events h + n\<rparr>"

lemma events_more_simps [simp]:
  "events_more n (events_more k h) = events_more (k + n) h" "events_more 0 h = h"
  by (simp_all add: events_more_def)

lemma timed_transfer_held: "timed_transfer c iters h = (ms, ok, h') \<Longrightarrow> h' = events_more (transfer_left c) h"
  by (cases h) (auto simp: timed_transfer_def event_create_def event_destroy_def transfer_left_def events_more_def
      Let_def split: if_splits)

lemma run_transfer_held: "run_transfer cls c bytes iters h = (s, h') \<Longrightarrow> h' = events_more (transfer_left c) h"
  by (auto simp: run_transfer_def split: prod.splits dest: timed_transfer_held)

lemma proof_work_held:
  "proof_work c bytes iters out h = Some (Some out', h') \<Longrightarrow> h' = events_more (events_left c 4) h"
  "proof_work c bytes iters out h = Some (None, h') \<Longrightarrow> h' = events_more (events_left c (transfers_made c)) h"
  by (auto simp: proof_work_def events_left_def transfers_made_def add.assoc numeral_eq_Suc vector_throws_def
      split: prod.splits if_splits option.splits dest!: run_transfer_held)

text \<open>What a run of \<open>run_proof\<close> got: pinned memory, and device memory after it.\<close>

definition got_pinned :: "CudaCalls \<Rightarrow> bool" where
  "got_pinned c = (case detect_device (cc_device c) of Err code m \<Rightarrow> False | Success dev \<Rightarrow> cc_host_alloc c)"

definition got_device :: "CudaCalls \<Rightarrow> bool" where
  "got_device c = (got_pinned c \<and> cc_malloc c)"

text \<open>Every call that gives something back succeeds.\<close>

definition releases_succeed :: "CudaCalls \<Rightarrow> bool" where
  "releases_succeed c = (cc_free c \<and> cc_free_host c \<and> list_all (\<lambda>t. tt_destroy0 t \<and> tt_destroy1 t)
     [cc_pageable_h2d c, cc_pageable_d2h c, cc_pinned_h2d c, cc_pinned_d2h c])"

lemma releases_leave_nothing: "releases_succeed c \<Longrightarrow> events_left c n = 0"
proof -
  assume "releases_succeed c"
  then have "\<forall>t \<in> set [cc_pageable_h2d c, cc_pageable_d2h c, cc_pinned_h2d c, cc_pinned_d2h c]. transfer_left t = 0"
    by (simp add: releases_succeed_def transfer_left_def)
  then show ?thesis unfolding events_left_def take_map sum_list_eq_0_iff by (auto dest!: in_set_takeD)
qed

text \<open>
  Whatever fails on the way, a run that returns has handed all it got to the calls that release it:
  what stays is what those calls refuse.
\<close>

lemma run_proof_releases:
  assumes "run_proof c bytes iters h = Returns r h'"
  shows "ch_pinned h' = ch_pinned h + of_bool (got_pinned c \<and> \<not> cc_free_host c)"
    and "ch_device h' = ch_device h + of_bool (got_device c \<and> \<not> cc_free c)"
    and "ch_events h' = ch_events h + (if got_device c then events_left c 4 else 0)"
  using assms by (auto simp: run_proof_def got_pinned_def got_device_def cuda_free_def cuda_free_host_def events_more_def
      Let_def split: Result.splits if_splits option.splits prod.splits dest!: proof_work_held)

text \<open>A vector that cannot be allocated once the device memory is held leaves that and the pinned memory behind.\<close>

lemma run_proof_throws:
  assumes "run_proof c bytes iters h = Throws h'"
  shows "h' = (if vector_throws c 0 then h else events_more (events_left c (transfers_made c))
    (h\<lparr>ch_pinned := ch_pinned h + 1, ch_device := ch_device h + 1\<rparr>))"
  using assms by (auto simp: run_proof_def Let_def split: Result.splits if_splits option.splits prod.splits
      dest!: proof_work_held)

text \<open>Where a run is undefined: beyond its vectors, or in the number of blocks of the launch.\<close>

lemma run_proof_undefined:
  assumes "run_proof c bytes iters h = Undefined"
  shows "\<not> within_vector (or_default (256 * 1024 * 1024) bytes) \<or>
    2 ^ 31 \<le> int_of_u64 (of_nat (float_count (or_default (256 * 1024 * 1024) bytes))) + 255"
  using assms by (auto simp: run_proof_def proof_work_def verify_kernel_def Let_def
      split: Result.splits if_splits option.splits prod.splits)

section \<open>What a run reports\<close>

text \<open>\<open>bytes\<close> that are not whole floats are copied from beyond the end of the vectors.\<close>

lemma within_vector_iff: "within_vector bytes \<longleftrightarrow> 4 dvd unat bytes"
  by (auto simp: within_vector_def float_count_def dvd_eq_mod_eq_0 minus_mod_eq_mult_div [symmetric])

lemma run_proof_out_of_bounds:
  assumes "detect_device (cc_device c) = Success dev" and "cc_host_alloc c" and "cc_malloc c"
    and "\<not> vector_throws c 0" and "\<not> 4 dvd unat bytes"
  shows "run_proof c bytes iters h = Undefined"
proof -
  have "bytes \<noteq> 0" using assms(5) by auto
  with assms show ?thesis by (simp add: run_proof_def Let_def or_default_def proof_work_def within_vector_iff)
qed

text \<open>
  A count of repetitions whose low 32 bits are not positive as an \<open>int\<close> copies nothing, and its
  sample is reported as done nevertheless.
\<close>

lemma transfer_without_copies:
  assumes "int_of_u64 iters \<le> 0" and "tt_create0 c" and "tt_create1 c" and "tt_synchronize c"
  shows "ts_ok (fst (run_transfer cls c bytes iters h))" and "copies_made (tt_copies c) (int_of_u64 iters) = 0"
    and "ts_iters (fst (run_transfer cls c bytes iters h)) = iters"
  using assms by (auto simp: run_transfer_def timed_transfer_def copies_fail_def copies_made_def
      transfer_sample_def split: option.splits)

lemma int_of_u64_small:
  assumes "unat x < 2 ^ 31"
  shows "int_of_u64 x = int (unat x)"
proof -
  have "int (unat x) < int (2 ^ 31)" using assms by (rule of_nat_less_iff [THEN iffD2])
  then have u: "uint x < 2 ^ 31" by simp
  have "uint (ucast x :: 32 word) = take_bit 32 (uint x)" by (simp add: unsigned_ucast_eq)
  also have "\<dots> = uint x" using u by (intro take_bit_int_eq_self) auto
  finally show ?thesis using u
    by (simp add: int_of_u64_def sint_uint signed_take_bit_int_eq_self order_trans [of _ 0])
qed

text \<open>What the verification of the kernel establishes: every float is close to its reference, or is no number.\<close>

lemma f32_far_range:
  "\<not> f32_far got expect \<longleftrightarrow> f32_is_nan got \<or>
     (f32_expo got < 255 \<and> \<bar>f32_scaled got - int expect * 2 ^ 149\<bar> < 17179871 * 2 ^ 115)"
proof -
  have "take_bit 31 got \<le> mask 31" by (simp add: take_bit_eq_mask word_and_le1)
  then have "unat (take_bit 31 got) \<le> unat (mask 31 :: u32)" by (simp add: word_le_nat_alt)
  then have "unat (take_bit 31 got) < 2 ^ 31" by (simp add: mask_eq_exp_minus_1)
  then have "f32_expo got < 256" unfolding f32_expo_def by (simp add: less_mult_imp_div_less)
  then show ?thesis by (auto simp: f32_far_def f32_is_nan_def)
qed

lemma verified_floats:
  assumes "verify_kernel c bytes = Some (Some (True, text))" and "i < float_count bytes"
  shows "f32_is_nan (cc_got c i) \<or> (f32_expo (cc_got c i) < 255 \<and>
    \<bar>f32_scaled (cc_got c i) - int (reference_value i) * 2 ^ 149\<bar> < 17179871 * 2 ^ 115)"
proof -
  have "kernel_matches (float_count bytes) (cc_got c)"
    using assms(1) by (auto simp: verify_kernel_def Let_def split: if_splits)
  with assms(2) have "\<not> f32_far (cc_got c i) (reference_value i)"
    by (simp add: kernel_matches_def list_all_iff)
  then show ?thesis by (simp add: f32_far_range)
qed

lemma nan_verified:
  assumes "\<And>i. f32_is_nan (cc_got c i)" and "cc_copy_in c" and "cc_synchronize c" and "cc_copy_out c"
    and "cc_vectors c = None" and "4 \<le> unat bytes" and "float_count bytes < 2 ^ 30"
  shows "verify_kernel c bytes = Some (Some (True, ''CPU reference matched''))"
proof -
  have "int_of_u64 (of_nat (float_count bytes)) = int (float_count bytes)"
    using assms(7) int_of_u64_small [of "of_nat (float_count bytes)"] by (simp add: unat_of_nat)
  then show ?thesis using assms
    by (simp add: verify_kernel_def vector_throws_def kernel_matches_def f32_far_def list_all_iff)
qed

end
