(* ===== verification/PF_Kernel.thy ===== *)
theory PF_Kernel
  imports PF_Cuda
begin

text \<open>
  The kernel of the transfer engine, \<open>saxpy_kernel\<close>, and its launch by \<open>run_proof\<close>
  (\<open>src/pciefabric/cuda_engine.cu\<close>). The device runs the threads of the grid in any order and
  interleaves their accesses to memory; both pointers of the launch name the same buffer. The
  arithmetic of the device is an argument: \<open>muladd a x y\<close> is \<open>a * x + y\<close> on binary32 patterns, which
  the compiler may fuse or not. Shown: no interleaving leaves the buffer, all end, and all leave the
  same contents, so that the verification succeeds where the arithmetic is exact on small integers.
\<close>

section \<open>The kernel\<close>

text \<open>Global memory, by the index of a \<open>float\<close>; \<open>None\<close> is not allocated.\<close>

type_synonym device_memory = "int \<Rightarrow> u32 option"

record Launch =
  la_y :: int
  la_x :: int
  la_a :: u32
  la_n :: int
  la_blocks :: nat
  la_threads :: nat

text \<open>\<open>int i = blockIdx.x * blockDim.x + threadIdx.x;\<close> is unsigned arithmetic, then a conversion.\<close>

definition kernel_index :: "Launch \<Rightarrow> u32 \<Rightarrow> u32 \<Rightarrow> int" where
  "kernel_index l block thread = sint (block * of_nat (la_threads l) + thread :: 32 word)"

text \<open>How far a thread has come: the values it has read of \<open>x[i]\<close> and \<open>y[i]\<close>.\<close>

datatype kt_phase = KT_start | KT_x u32 | KT_xy u32 u32 | KT_done

text \<open>One access of a thread; \<open>None\<close> is one to memory that is not allocated.\<close>

definition saxpy_kernel :: "(u32 \<Rightarrow> u32 \<Rightarrow> u32 \<Rightarrow> u32) \<Rightarrow> Launch \<Rightarrow> u32 \<Rightarrow> u32 \<Rightarrow> kt_phase \<Rightarrow> device_memory \<Rightarrow>
    (kt_phase \<times> device_memory) option" where
  "saxpy_kernel muladd l block thread ph m = (let i = kernel_index l block thread in case ph of
      KT_start \<Rightarrow> if i < la_n l then map_option (\<lambda>x. (KT_x x, m)) (m (la_x l + i)) else Some (KT_done, m)
    | KT_x x \<Rightarrow> map_option (\<lambda>y. (KT_xy x y, m)) (m (la_y l + i))
    | KT_xy x y \<Rightarrow> map_option (\<lambda>_. (KT_done, m(la_y l + i \<mapsto> muladd (la_a l) x y))) (m (la_y l + i))
    | KT_done \<Rightarrow> Some (KT_done, m))"

section \<open>The grid\<close>

record KernelRun =
  kr_memory :: device_memory
  kr_phases :: "kt_phase list"

text \<open>The threads of the grid in a row: number \<open>k\<close> is thread \<open>k mod threads\<close> of block \<open>k div threads\<close>.\<close>

definition grid_thread :: "Launch \<Rightarrow> nat \<Rightarrow> u32 \<times> u32" where
  "grid_thread l k = (of_nat (k div la_threads l), of_nat (k mod la_threads l))"

definition thread_step :: "(u32 \<Rightarrow> u32 \<Rightarrow> u32 \<Rightarrow> u32) \<Rightarrow> Launch \<Rightarrow> nat \<Rightarrow> KernelRun \<Rightarrow> KernelRun option" where
  "thread_step muladd l k s = (case grid_thread l k of (block, thread) \<Rightarrow>
     map_option (\<lambda>(ph, m). \<lparr>kr_memory = m, kr_phases = (kr_phases s)[k := ph]\<rparr>)
       (saxpy_kernel muladd l block thread (kr_phases s ! k) (kr_memory s)))"

text \<open>Any thread that has not ended may move; \<open>None\<close> is undefined behaviour.\<close>

inductive kr_step :: "(u32 \<Rightarrow> u32 \<Rightarrow> u32 \<Rightarrow> u32) \<Rightarrow> Launch \<Rightarrow> KernelRun option \<Rightarrow> KernelRun option \<Rightarrow> bool"
  for muladd l where
  kr_move: "k < length (kr_phases s) \<Longrightarrow> kr_phases s ! k \<noteq> KT_done \<Longrightarrow>
    kr_step muladd l (Some s) (thread_step muladd l k s)"

inductive_cases kr_stepE [elim]: "kr_step muladd l S S'"

definition launched :: "Launch \<Rightarrow> device_memory \<Rightarrow> KernelRun" where
  "launched l m = \<lparr>kr_memory = m, kr_phases = replicate (la_blocks l * la_threads l) KT_start\<rparr>"

text \<open>
  The launches considered: one buffer behind both pointers, \<open>n\<close> elements of it allocated, and a grid
  whose indices are not negative as \<open>int\<close>.
\<close>

definition launch_ok :: "Launch \<Rightarrow> device_memory \<Rightarrow> bool" where
  "launch_ok l m = (la_x l = la_y l \<and> 0 < la_threads l \<and> la_blocks l * la_threads l < 2 ^ 31 \<and>
     (\<forall>i. 0 \<le> i \<longrightarrow> i < la_n l \<longrightarrow> m (la_y l + i) \<noteq> None))"

definition kr_start :: "Launch \<Rightarrow> device_memory \<Rightarrow> KernelRun option \<Rightarrow> bool" where
  "kr_start l m S = (launch_ok l m \<and> S = Some (launched l m))"

definition kr_finished :: "KernelRun \<Rightarrow> bool" where
  "kr_finished s = list_all (\<lambda>ph. ph = KT_done) (kr_phases s)"

section \<open>The launch by \<open>run_proof\<close>\<close>

text \<open>The pattern of a natural number below \<open>2 powi 24\<close>, which binary32 represents exactly.\<close>

definition f32_of_nat :: "nat \<Rightarrow> u32" where
  "f32_of_nat v = (if v = 0 then 0 else let e = bitlen v - 1 in of_nat ((127 + e) * 2 ^ 23 + (v - 2 ^ e) * 2 ^ (23 - e)))"

definition proof_launch :: "int \<Rightarrow> u64 \<Rightarrow> Launch" where
  "proof_launch d_buf bytes = (let n = int_of_u64 (of_nat (float_count bytes)) in
     \<lparr>la_y = d_buf, la_x = d_buf, la_a = f32_of_nat 2, la_n = n, la_blocks = nat ((n + 256 - 1) div 256), la_threads = 256\<rparr>)"

text \<open>The buffer after the copy of the reference pattern, over whatever else the device's memory holds.\<close>

definition filled_buffer :: "int \<Rightarrow> u64 \<Rightarrow> device_memory \<Rightarrow> device_memory" where
  "filled_buffer d_buf bytes m = (\<lambda>i. if d_buf \<le> i \<and> i < d_buf + int (float_count bytes)
     then Some (f32_of_nat (nat (i - d_buf) mod 251)) else m i)"

section \<open>Every thread has its own element\<close>

lemma kernel_index_grid:
  assumes "launch_ok l m" and "k < la_blocks l * la_threads l"
  shows "kernel_index l (fst (grid_thread l k)) (snd (grid_thread l k)) = int k"
proof -
  have "of_nat (k div la_threads l) * of_nat (la_threads l) + of_nat (k mod la_threads l) = (of_nat k :: 32 word)"
    unfolding of_nat_mult [symmetric] of_nat_add [symmetric] by simp
  moreover have "k < 2 ^ 31" using assms by (simp add: launch_ok_def)
  then have "sint (of_nat k :: 32 word) = int k" by (simp add: signed_of_nat signed_take_bit_int_eq_self)
  ultimately show ?thesis by (simp add: kernel_index_def grid_thread_def)
qed

lemma saxpy_kernel_grid:
  assumes "launch_ok l m0" and "k < la_blocks l * la_threads l"
  shows "thread_step muladd l k s = (let m = kr_memory s; adr = la_y l + int k in
    map_option (\<lambda>(ph, m). \<lparr>kr_memory = m, kr_phases = (kr_phases s)[k := ph]\<rparr>) (case kr_phases s ! k of
      KT_start \<Rightarrow> if int k < la_n l then map_option (\<lambda>x. (KT_x x, m)) (m adr) else Some (KT_done, m)
    | KT_x x \<Rightarrow> map_option (\<lambda>y. (KT_xy x y, m)) (m adr)
    | KT_xy x y \<Rightarrow> map_option (\<lambda>_. (KT_done, m(adr \<mapsto> muladd (la_a l) x y))) (m adr)
    | KT_done \<Rightarrow> Some (KT_done, m)))"
proof -
  obtain b t where bt: "grid_thread l k = (b, t)" by (cases "grid_thread l k")
  with kernel_index_grid [OF assms] have i: "kernel_index l b t = int k" by simp
  have x: "la_x l = la_y l" using assms(1) by (simp add: launch_ok_def)
  show ?thesis unfolding thread_step_def saxpy_kernel_def bt Let_def prod.case i x by (rule refl)
qed

section \<open>The invariant\<close>

text \<open>What holds of the element of thread \<open>k\<close>, in terms of its contents \<open>v\<close> before the launch.\<close>

definition element_ok :: "(u32 \<Rightarrow> u32 \<Rightarrow> u32 \<Rightarrow> u32) \<Rightarrow> Launch \<Rightarrow> u32 \<Rightarrow> kt_phase \<Rightarrow> u32 option \<Rightarrow> bool" where
  "element_ok muladd l v ph now = (case ph of
      KT_start \<Rightarrow> now = Some v | KT_x x \<Rightarrow> now = Some v \<and> x = v | KT_xy x y \<Rightarrow> now = Some v \<and> x = v \<and> y = v
    | KT_done \<Rightarrow> now = Some (muladd (la_a l) v v))"

definition thread_ok :: "(u32 \<Rightarrow> u32 \<Rightarrow> u32 \<Rightarrow> u32) \<Rightarrow> Launch \<Rightarrow> device_memory \<Rightarrow> KernelRun \<Rightarrow> nat \<Rightarrow> bool" where
  "thread_ok muladd l m0 s k = (if int k < la_n l
     then element_ok muladd l (the (m0 (la_y l + int k))) (kr_phases s ! k) (kr_memory s (la_y l + int k))
     else kr_phases s ! k \<in> {KT_start, KT_done})"

text \<open>The addresses the grid may write.\<close>

definition grid_elements :: "Launch \<Rightarrow> int set" where
  "grid_elements l = (\<lambda>k. la_y l + int k) ` {k. k < la_blocks l * la_threads l \<and> int k < la_n l}"

definition run_ok :: "(u32 \<Rightarrow> u32 \<Rightarrow> u32 \<Rightarrow> u32) \<Rightarrow> Launch \<Rightarrow> device_memory \<Rightarrow> KernelRun \<Rightarrow> bool" where
  "run_ok muladd l m0 s = (length (kr_phases s) = la_blocks l * la_threads l \<and>
     (\<forall>k < la_blocks l * la_threads l. thread_ok muladd l m0 s k) \<and>
     (\<forall>adr. adr \<notin> grid_elements l \<longrightarrow> kr_memory s adr = m0 adr))"

definition kr_inv :: "(u32 \<Rightarrow> u32 \<Rightarrow> u32 \<Rightarrow> u32) \<Rightarrow> Launch \<Rightarrow> device_memory \<Rightarrow> KernelRun option \<Rightarrow> bool" where
  "kr_inv muladd l m0 S = (launch_ok l m0 \<and> (\<exists>s. S = Some s \<and> run_ok muladd l m0 s))"

lemma kr_inv_start: "kr_start l m S \<Longrightarrow> kr_inv muladd l m S"
  by (auto simp: kr_start_def kr_inv_def run_ok_def thread_ok_def launched_def element_ok_def launch_ok_def)

text \<open>A move of thread \<open>k\<close> keeps what holds of its element and touches no other.\<close>

lemma thread_step_ok:
  assumes "launch_ok l m0" and "run_ok muladd l m0 s" and "k < length (kr_phases s)" and "kr_phases s ! k \<noteq> KT_done"
  shows "\<exists>ph m. thread_step muladd l k s = Some \<lparr>kr_memory = m, kr_phases = (kr_phases s)[k := ph]\<rparr> \<and>
    thread_ok muladd l m0 \<lparr>kr_memory = m, kr_phases = (kr_phases s)[k := ph]\<rparr> k \<and>
    (\<forall>adr. adr \<noteq> la_y l + int k \<or> \<not> int k < la_n l \<longrightarrow> m adr = kr_memory s adr)"
proof -
  have k: "k < la_blocks l * la_threads l" "thread_ok muladd l m0 s k" using assms(2,3) by (auto simp: run_ok_def)
  show ?thesis
    using k(2) assms(3,4) unfolding saxpy_kernel_grid [OF assms(1) k(1)]
    by (cases "kr_phases s ! k") (auto simp: thread_ok_def element_ok_def Let_def split: if_splits)
qed

lemma kr_inv_step:
  assumes "kr_inv muladd l m0 S" and "kr_step muladd l S S'"
  shows "kr_inv muladd l m0 S'"
proof -
  obtain s k where s: "S = Some s" "k < length (kr_phases s)" "kr_phases s ! k \<noteq> KT_done" "S' = thread_step muladd l k s"
    using assms(2) by blast
  have ok: "launch_ok l m0" "run_ok muladd l m0 s" using assms(1) s(1) by (auto simp: kr_inv_def)
  from thread_step_ok [OF ok s(2,3)] obtain ph m where
    S': "S' = Some \<lparr>kr_memory = m, kr_phases = (kr_phases s)[k := ph]\<rparr>"
    and own: "thread_ok muladd l m0 \<lparr>kr_memory = m, kr_phases = (kr_phases s)[k := ph]\<rparr> k"
    and rest: "\<And>adr. adr \<noteq> la_y l + int k \<or> \<not> int k < la_n l \<Longrightarrow> m adr = kr_memory s adr"
    using s(4) by auto
  have "thread_ok muladd l m0 \<lparr>kr_memory = m, kr_phases = (kr_phases s)[k := ph]\<rparr> j" if "j < la_blocks l * la_threads l" for j
    using own ok(2) that rest [of "la_y l + int j"] by (cases "j = k") (auto simp: run_ok_def thread_ok_def)
  moreover have "m adr = m0 adr" if "adr \<notin> grid_elements l" for adr
  proof -
    have "adr \<noteq> la_y l + int k \<or> \<not> int k < la_n l" using that s(2) ok(2) by (auto simp: grid_elements_def run_ok_def)
    then show ?thesis using rest that ok(2) by (simp add: run_ok_def)
  qed
  ultimately show ?thesis using ok by (simp add: kr_inv_def run_ok_def S')
qed

interpretation kri: invariant "kr_start l m" "kr_step muladd l" "kr_inv muladd l m" for muladd l m
  by unfold_locales (rule kr_inv_start, assumption, rule kr_inv_step)

section \<open>Every run ends, and in the same memory\<close>

definition kt_rank :: "kt_phase \<Rightarrow> nat" where
  "kt_rank ph = (case ph of KT_start \<Rightarrow> 3 | KT_x _ \<Rightarrow> 2 | KT_xy _ _ \<Rightarrow> 1 | KT_done \<Rightarrow> 0)"

definition kr_rank :: "KernelRun option \<Rightarrow> nat" where
  "kr_rank S = (case S of None \<Rightarrow> 0 | Some s \<Rightarrow> sum_list (map kt_rank (kr_phases s)))"

lemma sum_list_rank: "k < length xs \<Longrightarrow> sum_list (map f (xs[k := x])) + f (xs ! k) = sum_list (map f xs) + (f x :: nat)"
  by (induction xs arbitrary: k) (auto split: nat.split simp: nth_Cons')

lemma kr_step_rank:
  assumes "kr_step muladd l S S'"
  shows "kr_rank S' < kr_rank S"
proof -
  obtain s k where s: "S = Some s" "k < length (kr_phases s)" "kr_phases s ! k \<noteq> KT_done" "S' = thread_step muladd l k s"
    using assms by blast
  show ?thesis
  proof (cases S')
    case None
    have "kt_rank (kr_phases s ! k) \<le> sum_list (map kt_rank (kr_phases s))"
      using s(2) by (intro member_le_sum_list) auto
    moreover have "0 < kt_rank (kr_phases s ! k)" using s(3) by (simp add: kt_rank_def split: kt_phase.split)
    ultimately show ?thesis using s(1) None by (simp add: kr_rank_def)
  next
    case (Some s')
    then obtain ph where ph: "kr_phases s' = (kr_phases s)[k := ph]" "kt_rank ph < kt_rank (kr_phases s ! k)"
      using s(3,4) by (auto simp: thread_step_def saxpy_kernel_def kt_rank_def Let_def split: prod.splits kt_phase.splits if_splits)
    then show ?thesis using s(1) Some sum_list_rank [OF s(2), of kt_rank ph] by (simp add: kr_rank_def)
  qed
qed

interpretation krw: ranked_work "kr_step muladd l" "\<lambda>_. True" kr_rank for muladd l
  by unfold_locales (simp add: kr_step_rank)

text \<open>A launch takes at most three accesses for each thread.\<close>

lemma kernel_run_bounded:
  "(kr_step muladd l ^^ n) (Some (launched l m)) S \<Longrightarrow> n \<le> 3 * (la_blocks l * la_threads l)"
  using krw.run_bounded [of n muladd l "Some (launched l m)" S]
  by (simp add: kr_rank_def launched_def kt_rank_def sum_list_replicate)

text \<open>A run with the numbers of the threads that move, in order.\<close>

inductive kr_trace :: "(u32 \<Rightarrow> u32 \<Rightarrow> u32 \<Rightarrow> u32) \<Rightarrow> Launch \<Rightarrow> KernelRun option \<Rightarrow> nat list \<Rightarrow> KernelRun option \<Rightarrow> bool"
  for muladd l where
  trace_none: "kr_trace muladd l S [] S"
| trace_move: "k < length (kr_phases s) \<Longrightarrow> kr_phases s ! k \<noteq> KT_done \<Longrightarrow>
    kr_trace muladd l (thread_step muladd l k s) ks S \<Longrightarrow> kr_trace muladd l (Some s) (k # ks) S"

lemma kr_trace_run: "kr_trace muladd l S ks S' \<Longrightarrow> (kr_step muladd l ^^ length ks) S S'"
proof (induction rule: kr_trace.induct)
  case (trace_move k s ks S)
  from relpowp_Suc_I2 [OF kr_move [OF trace_move.hyps(1,2), of muladd l] trace_move.IH] show ?case by simp
qed simp

lemma kr_run_traced: "(kr_step muladd l)\<^sup>*\<^sup>* S S' \<Longrightarrow> \<exists>ks. kr_trace muladd l S ks S'"
  by (induction rule: converse_rtranclp_induct) (auto intro: trace_none trace_move)

text \<open>The accesses a thread has left; only its own move takes one from them.\<close>

definition accesses_left :: "nat \<Rightarrow> KernelRun option \<Rightarrow> nat" where
  "accesses_left k S = (case S of None \<Rightarrow> 0 | Some s \<Rightarrow> if k < length (kr_phases s) then kt_rank (kr_phases s ! k) else 0)"

lemma thread_step_accesses:
  assumes "k < length (kr_phases s)" and "kr_phases s ! k \<noteq> KT_done"
  shows "accesses_left j (thread_step muladd l k s) + of_bool (j = k) \<le> accesses_left j (Some s)"
proof (cases "thread_step muladd l k s")
  case None
  have "0 < kt_rank (kr_phases s ! k)" using assms(2) by (simp add: kt_rank_def split: kt_phase.split)
  with None assms(1) show ?thesis by (auto simp: accesses_left_def)
next
  case (Some s')
  then obtain ph where "kr_phases s' = (kr_phases s)[k := ph]" "kt_rank ph < kt_rank (kr_phases s ! k)"
    using assms(2) by (auto simp: thread_step_def saxpy_kernel_def kt_rank_def Let_def split: prod.splits kt_phase.splits if_splits)
  with Some assms(1) show ?thesis by (auto simp: accesses_left_def nth_list_update)
qed

lemma kr_trace_accesses: "kr_trace muladd l S ks S' \<Longrightarrow> count_list ks k \<le> accesses_left k S"
proof (induction rule: kr_trace.induct)
  case (trace_move j s ks S)
  with thread_step_accesses [OF trace_move.hyps(1,2), of k muladd l] show ?case by (auto simp: of_bool_def split: if_splits)
qed simp

lemma launched_accesses: "accesses_left k (Some (launched l m)) \<le> 3"
  by (simp add: accesses_left_def launched_def kt_rank_def)

lemma kernel_run_reaches:
  "(kr_step muladd l ^^ n) (Some (launched l m)) S \<Longrightarrow> launch_ok l m \<Longrightarrow> reachable (kr_start l m) (kr_step muladd l) S"
  by (induction n arbitrary: S) (auto simp: kr_start_def intro: reachable.intros)

lemma kernel_at_rest:
  assumes "\<And>S'. \<not> kr_step muladd l (Some s) S'"
  shows "kr_finished s"
proof (rule ccontr)
  assume "\<not> kr_finished s"
  then obtain k where "k < length (kr_phases s)" "kr_phases s ! k \<noteq> KT_done" by (auto simp: kr_finished_def list_all_length)
  from kr_move [OF this] assms show False by blast
qed

text \<open>However the threads interleave, each element is replaced once by what the device computes from it.\<close>

definition kernel_image :: "(u32 \<Rightarrow> u32 \<Rightarrow> u32 \<Rightarrow> u32) \<Rightarrow> Launch \<Rightarrow> device_memory \<Rightarrow> device_memory" where
  "kernel_image muladd l m = (\<lambda>adr. if la_y l \<le> adr \<and> adr < la_y l + la_n l
     then map_option (\<lambda>v. muladd (la_a l) v v) (m adr) else m adr)"

lemma kernel_never_undefined: "reachable (kr_start l m) (kr_step muladd l) S \<Longrightarrow> S \<noteq> None"
  by (drule kri.always) (auto simp: kr_inv_def)

lemma kernel_result:
  assumes "reachable (kr_start l m0) (kr_step muladd l) (Some s)" and "kr_finished s"
    and "la_n l \<le> int (la_blocks l * la_threads l)"
  shows "kr_memory s = kernel_image muladd l m0"
proof
  fix adr
  have ok: "launch_ok l m0" "run_ok muladd l m0 s" using kri.always [OF assms(1)] by (auto simp: kr_inv_def)
  show "kr_memory s adr = kernel_image muladd l m0 adr"
  proof (cases "la_y l \<le> adr \<and> adr < la_y l + la_n l")
    case True
    obtain k where k: "adr = la_y l + int k" using True by (intro that [of "nat (adr - la_y l)"]) simp
    have "int k < int (la_blocks l * la_threads l)" using True k assms(3) by linarith
    then have "k < la_blocks l * la_threads l" "int k < la_n l" using True k by (simp_all only: of_nat_less_iff add_less_cancel_left)
    moreover from this(1) have "kr_phases s ! k = KT_done"
      using assms(2) ok(2) by (simp add: kr_finished_def list_all_length run_ok_def)
    moreover obtain v where "m0 adr = Some v" using ok(1) True k by (force simp: launch_ok_def)
    ultimately show ?thesis using ok(2) True k by (auto simp: run_ok_def thread_ok_def element_ok_def kernel_image_def)
  next
    case False
    then have "adr \<notin> grid_elements l" by (auto simp: grid_elements_def)
    with False ok(2) show ?thesis by (auto simp: run_ok_def kernel_image_def)
  qed
qed

section \<open>The verification\<close>

lemma f32_of_nat_value:
  assumes "v < 2 ^ 24"
  shows "f32_scaled (f32_of_nat v) = int v * 2 ^ 149 \<and> f32_expo (f32_of_nat v) < 255"
proof (cases "v = 0")
  case False
  obtain e where e: "e = bitlen v - 1" by blast
  have b: "2 ^ e \<le> v" "v < 2 ^ Suc e" "e \<le> 23"
    using bitlen_bounds [of v] bitlen_le [OF assms] False e by auto
  let ?f = "(v - 2 ^ e) * 2 ^ (23 - e)" and ?p = "(127 + e) * 2 ^ 23 + (v - 2 ^ e) * 2 ^ (23 - e)"
  have two: "(2 :: nat) ^ 23 = 2 ^ e * 2 ^ (23 - e)" using b(3) by (simp flip: power_add)
  have "(v - 2 ^ e) * 2 ^ (23 - e) < 2 ^ e * 2 ^ (23 - e)" using b(1,2) by (intro mult_strict_right_mono) auto
  then have f: "?f < 2 ^ 23" unfolding two .
  have p: "?p < 2 ^ 31" using f b(3) by simp
  have u: "unat (take_bit 31 (f32_of_nat v)) = ?p"
    using p False by (simp add: f32_of_nat_def Let_def e unsigned_take_bit_eq unat_of_nat take_bit_nat_eq_self del: of_nat_add of_nat_mult)
  have expo: "f32_expo (f32_of_nat v) = 127 + e" and frac: "f32_frac (f32_of_nat v) = ?f"
    unfolding f32_expo_def f32_frac_def u using f by (simp_all only: mod_mult_self3 mod_less div_mult_self3 div_less)
  have "unat (f32_of_nat v) = ?p"
    using p False by (simp add: f32_of_nat_def Let_def e unat_of_nat take_bit_nat_eq_self del: of_nat_add of_nat_mult)
  then have "bit (f32_of_nat v) 31 = bit ?p 31" using bit_unsigned_iff [of "f32_of_nat v" 31, where ?'a = nat] by simp
  then have sign: "\<not> bit (f32_of_nat v) 31" using p by (simp add: bit_iff_odd del: add_mult_distrib)
  have "f32_scaled (f32_of_nat v) = int (2 ^ 23 + ?f) * 2 ^ (126 + e)"
    using sign by (simp add: f32_scaled_def expo frac)
  also have "2 ^ 23 + ?f = v * 2 ^ (23 - e)"
    using b(1) unfolding two by (simp flip: add_mult_distrib)
  also have "int (v * 2 ^ (23 - e)) * 2 ^ (126 + e) = int v * 2 ^ 149"
    using b(3) by (simp add: mult.assoc flip: power_add)
  finally show ?thesis using expo b(3) by simp
qed (simp add: f32_of_nat_def f32_scaled_def f32_expo_def f32_frac_def)

lemma f32_of_nat_near: "v < 2 ^ 24 \<Longrightarrow> \<not> f32_far (f32_of_nat v) v"
  using f32_of_nat_value [of v] by (simp add: f32_far_def)

lemma int_of_u64_count: "float_count bytes < 2 ^ 31 \<Longrightarrow> int_of_u64 (of_nat (float_count bytes)) = int (float_count bytes)"
  by (rule int_of_u64_small [THEN trans]) (simp_all add: unat_of_nat take_bit_nat_eq_self)

text \<open>The grid of \<open>run_proof\<close> covers the buffer.\<close>

lemma proof_launch_fields:
  assumes "float_count bytes + 255 < 2 ^ 31"
  shows "la_n (proof_launch d_buf bytes) = int (float_count bytes)"
    and "la_n (proof_launch d_buf bytes) \<le> int (la_blocks (proof_launch d_buf bytes) * la_threads (proof_launch d_buf bytes))"
    and "launch_ok (proof_launch d_buf bytes) (filled_buffer d_buf bytes m)"
proof -
  obtain n where n: "n = float_count bytes" by blast
  have i: "int_of_u64 (of_nat n) = int n"
    using assms n int_of_u64_count [of bytes] by simp
  have "(int n + 256 - 1) div 256 = int ((n + 255) div 256)" by (simp add: zdiv_int)
  then have b: "nat ((int n + 256 - 1) div 256) = (n + 255) div 256" by (simp only: nat_int)
  have l: "la_n (proof_launch d_buf bytes) = int n" "la_threads (proof_launch d_buf bytes) = 256"
    "la_blocks (proof_launch d_buf bytes) = (n + 255) div 256" "la_x (proof_launch d_buf bytes) = d_buf" "la_y (proof_launch d_buf bytes) = d_buf"
    unfolding proof_launch_def Let_def n [symmetric] i b by simp_all
  have g: "n \<le> (n + 255) div 256 * 256" "(n + 255) div 256 * 256 \<le> n + 255"
    using div_mult_mod_eq [of "n + 255" 256] mod_less_divisor [of 256 "n + 255"] by linarith+
  from l(1) n show "la_n (proof_launch d_buf bytes) = int (float_count bytes)" by simp
  show "la_n (proof_launch d_buf bytes) \<le> int (la_blocks (proof_launch d_buf bytes) * la_threads (proof_launch d_buf bytes))"
    unfolding l(1-3) of_nat_le_iff by (rule g(1))
  have "(n + 255) div 256 * 256 < 2 ^ 31" using g(2) assms n by linarith
  then show "launch_ok (proof_launch d_buf bytes) (filled_buffer d_buf bytes m)"
    unfolding launch_ok_def l by (simp add: filled_buffer_def flip: n)
qed

text \<open>
  Where the device computes sums of small integers exactly, as binary32 arithmetic does whether or
  not it is fused, every run of the launch leaves what the program compares with.
\<close>

definition exact_on_pattern :: "(u32 \<Rightarrow> u32 \<Rightarrow> u32 \<Rightarrow> u32) \<Rightarrow> bool" where
  "exact_on_pattern muladd = (\<forall>v < 251. muladd (f32_of_nat 2) (f32_of_nat v) (f32_of_nat v) = f32_of_nat (2 * v + v))"

lemma kernel_end_matches:
  assumes "exact_on_pattern muladd" and "float_count bytes + 255 < 2 ^ 31"
    and "reachable (kr_start (proof_launch d_buf bytes) (filled_buffer d_buf bytes m)) (kr_step muladd (proof_launch d_buf bytes)) (Some s)"
    and "kr_finished s"
  shows "kr_memory s = kernel_image muladd (proof_launch d_buf bytes) (filled_buffer d_buf bytes m)"
    and "kernel_matches (float_count bytes) (\<lambda>i. the (kr_memory s (d_buf + int i)))"
proof -
  show mem: "kr_memory s = kernel_image muladd (proof_launch d_buf bytes) (filled_buffer d_buf bytes m)"
    by (rule kernel_result [OF assms(3,4) proof_launch_fields(2) [OF assms(2)]])
  have "the (kr_memory s (d_buf + int i)) = f32_of_nat (reference_value i)" if "i < float_count bytes" for i
  proof -
    have "la_y (proof_launch d_buf bytes) = d_buf" "la_a (proof_launch d_buf bytes) = f32_of_nat 2"
      by (simp_all add: proof_launch_def Let_def)
    then have "kr_memory s (d_buf + int i) = Some (muladd (f32_of_nat 2) (f32_of_nat (i mod 251)) (f32_of_nat (i mod 251)))"
      using mem proof_launch_fields(1) [OF assms(2), of d_buf] that by (simp add: kernel_image_def filled_buffer_def)
    also have "muladd (f32_of_nat 2) (f32_of_nat (i mod 251)) (f32_of_nat (i mod 251)) = f32_of_nat (reference_value i)"
      using assms(1) by (simp add: exact_on_pattern_def reference_value_def)
    finally show ?thesis by simp
  qed
  moreover have "\<not> f32_far (f32_of_nat (reference_value i)) (reference_value i)" for i
  proof -
    have "i mod 251 < 251" by simp
    then have "reference_value i < 2 ^ 24" unfolding reference_value_def by simp
    then show ?thesis by (rule f32_of_nat_near)
  qed
  ultimately show "kernel_matches (float_count bytes) (\<lambda>i. the (kr_memory s (d_buf + int i)))"
    by (simp add: kernel_matches_def list_all_iff)
qed

text \<open>There is such a run from every launch.\<close>

lemma kernel_trace_to_rest:
  "\<exists>ks S. kr_trace muladd l (Some (launched l m)) ks S \<and> (\<forall>S'. \<not> kr_step muladd l S S')"
  using krw.run_to_rest [of muladd l "Some (launched l m)"] kr_run_traced [of muladd l] by blast

text \<open>So the proof reports a match wherever its calls succeed.\<close>

lemma run_verifies_kernel:
  assumes "exact_on_pattern muladd" and "float_count bytes + 255 < 2 ^ 31" and "4 \<le> unat bytes"
    and "reachable (kr_start (proof_launch d_buf bytes) (filled_buffer d_buf bytes m)) (kr_step muladd (proof_launch d_buf bytes)) (Some s)"
    and "kr_finished s" and "\<forall>i < float_count bytes. cc_got c i = the (kr_memory s (d_buf + int i))"
    and "cc_vectors c = None" and "cc_copy_in c" and "cc_synchronize c" and "cc_copy_out c"
  shows "verify_kernel c bytes = Some (Some (True, ''CPU reference matched''))"
proof -
  have "int_of_u64 (of_nat (float_count bytes)) = int (float_count bytes)"
    using assms(2) by (intro int_of_u64_count) simp
  then show ?thesis
    using assms(2,3,6-) kernel_end_matches(2) [OF assms(1,2,4,5)]
    by (simp add: verify_kernel_def vector_throws_def kernel_matches_def list_all_iff)
qed

text \<open>Arithmetic that is exact on the pattern exists: that on the values the patterns stand for.\<close>

definition integer_muladd :: "u32 \<Rightarrow> u32 \<Rightarrow> u32 \<Rightarrow> u32" where
  "integer_muladd a x y = (let n = \<lambda>p. nat (f32_scaled p div 2 ^ 149) in f32_of_nat (n a * n x + n y))"

lemma integer_muladd_exact: "exact_on_pattern integer_muladd"
proof -
  have "nat (f32_scaled (f32_of_nat v) div 2 ^ 149) = v" if "v < 251" for v
    using f32_of_nat_value [of v] that by simp
  then show ?thesis by (simp add: exact_on_pattern_def integer_muladd_def Let_def)
qed

end
