(* ===== verification/PF_Cli.thy ===== *)
theory PF_Cli
  imports PF_Server PF_Worker PF_WinEnum PF_Cuda
begin

text \<open>
  The command line tool, \<open>cli/main.cpp\<close>: one definition per command, \<open>main\<close> for the choice of the
  command. A command yields what it prints, how the process ends and the machine it leaves behind.
  A line printed is its format, without the newline at its end, and the arguments of \<open>printf\<close>;
  the machine holds the files and what the operating system answers to the library's calls.
  A command is \<open>None\<close> where its behaviour is undefined.
\<close>

section \<open>The machine and the output\<close>

datatype print_arg = PStr string | PNat nat | PInt int | PReal f64

type_synonym line = "string \<times> print_arg list"

record Machine =
  mc_disk :: disk
  mc_faults :: save_faults
  mc_devices :: "SetupDevice list option"
  mc_parent :: "u32 \<Rightarrow> u32 option"
  mc_listen :: listen_try
  mc_connect :: "connect_try list option"
  mc_idle :: bool  \<comment> \<open>the peer \<open>connect\<close> finds stays connected, in silence, after its script\<close>
  mc_os :: Os
  mc_cuda :: "CudaCalls option"  \<comment> \<open>\<open>None\<close> without \<open>PCIEFABRIC_HAVE_CUDA\<close>\<close>
  mc_held :: CudaHeld

text \<open>
  The end of a command: an exit code, an exception nobody catches, the coordinator's \<open>run\<close>, or none: a
  \<open>recv\<close> that does not return.
\<close>

datatype command_end = Exit int | Uncaught | Serves Server | Waits

type_synonym command = "(line list \<times> command_end \<times> Machine) option"

definition exits :: "line list \<Rightarrow> int \<Rightarrow> Machine \<Rightarrow> command" where
  "exits ls code m = Some (ls, Exit code, m)"

definition argc :: "string list \<Rightarrow> nat" where
  "argc argv = length argv"

section \<open>Numbers on the command line\<close>

text \<open>
  \<open>strtoull(s, nullptr, 10)\<close>: white space, a sign, digits; a number that does not fit is the
  largest one, and a minus sign negates modulo \<open>2 ^ 64\<close>.
\<close>

definition strtoull :: "string \<Rightarrow> u64" where
  "strtoull s = (case split_sign (dropWhile is_space s) of (sg, ds) \<Rightarrow>
     let n = digits 10 ds 0
     in if 2 ^ 64 \<le> n then - 1 else if sg < 0 then - of_nat n else of_nat n)"

text \<open>\<open>static_cast<std::uint16_t>(std::atoi(s))\<close>; \<open>atoi\<close> is undefined for a number beyond \<open>int\<close>.\<close>

definition atoi_u16 :: "string \<Rightarrow> u16 option" where
  "atoi_u16 s = map_option word_of_int (atoi s)"

section \<open>\<open>validate-bdf\<close> and \<open>bandwidth\<close>\<close>

definition cmd_validate_bdf :: "string list \<Rightarrow> Machine \<Rightarrow> command" where
  "cmd_validate_bdf argv m =
     (if argc argv < 3 then exits [(''usage: pf validate-bdf <bdf>'', [])] 1 m
      else case Bdf_parse (argv ! 2) of
        Err c msg \<Rightarrow> exits [(''invalid BDF: %s'', [PStr msg])] 1 m
      | Success b \<Rightarrow> exits [(''%s'', [PStr (canonical b)])] 0 m)"

definition pick_gen :: "string \<Rightarrow> PcieGen" where
  "pick_gen g = (if g = ''gen1'' then Gen_GEN1 else if g = ''gen2'' then Gen_GEN2
     else if g = ''gen3'' then Gen_GEN3 else if g = ''gen4'' then Gen_GEN4
     else if g = ''gen5'' then Gen_GEN5 else if g = ''gen6'' then Gen_GEN6 else Gen_UNKNOWN)"

definition cmd_bandwidth :: "string list \<Rightarrow> Machine \<Rightarrow> command" where
  "cmd_bandwidth argv m =
     (if argc argv < 4 then exits [(''usage: pf bandwidth <gen> <lanes>'', [])] 1 m
      else case atoi_u16 (argv ! 3) of
        None \<Rightarrow> None
      | Some lanes \<Rightarrow>
          let gen = pick_gen (argv ! 2) in
          if gen = Gen_UNKNOWN then exits [(''unknown generation'', [])] 1 m
          else let env = LinkEnvelope_new gen lanes
            in exits [(''%s x%u (DERIVED): raw=%.1f GB/s effective=%.1f GB/s = %.3f GiB/s'',
                 [PStr (PcieGen_to_string gen), PNat (unat lanes), PReal (f64_div (le_raw_bytes env) f64_1e9),
                  PReal (f64_div (le_effective_bps env) f64_1e9), PReal (le_effective_gib env)])] 0 m)"

section \<open>\<open>discover\<close>\<close>

definition device_line :: "RawPciDevice \<Rightarrow> line" where
  "device_line d = (''  %-14s kind=%-12s vendor=%s dev=%s bridge=%d parent=%s'',
     [PStr (canonical (rw_bdf d)), PStr (DeviceClass_to_string (rw_kind d)), PStr (rw_vendor_id d),
      PStr (rw_device_id d), PInt (if rw_is_bridge d then 1 else 0),
      PStr (case rw_parent_bdf d of None \<Rightarrow> ''-'' | Some b \<Rightarrow> canonical b)])"

text \<open>\<open>std::stoi\<close> on a class code that is no number throws; the model of the enumeration is then \<open>None\<close>.\<close>

definition cmd_discover :: "string list \<Rightarrow> Machine \<Rightarrow> command" where
  "cmd_discover argv m = (case enumerate_pci_devices (mc_devices m) (mc_parent m) of
      None \<Rightarrow> None
    | Some (Err c msg) \<Rightarrow> exits [(''discovery failed: %s'', [PStr msg])] 1 m
    | Some (Success ds) \<Rightarrow> exits ((''%zu PCI devices:'', [PNat (length ds)]) # map device_line ds) 0 m)"

section \<open>\<open>cuda-proof\<close>\<close>

definition gib_rate :: "CudaTransferSample \<Rightarrow> print_arg" where
  "gib_rate s = PReal (f64_div (ts_bytes_per_sec s) f64_two30)"

definition flag_arg :: "bool \<Rightarrow> print_arg" where
  "flag_arg b = PInt (if b then 1 else 0)"

definition proof_lines :: "CudaProofResult \<Rightarrow> line list" where
  "proof_lines r =
     [(''pageable H2D %.2f GiB/s  pageable D2H %.2f GiB/s'', [gib_rate (cp_pageable_h2d r), gib_rate (cp_pageable_d2h r)]),
      (''pinned   H2D %.2f GiB/s  pinned   D2H %.2f GiB/s'', [gib_rate (cp_pinned_h2d r), gib_rate (cp_pinned_d2h r)]),
      (''kernel_verified=%d mem_clean=%d cuda_clean=%d pci_correlated=%d'',
        [flag_arg (cp_kernel_verified r), flag_arg (cp_mem_clean r), flag_arg (cp_cuda_clean r),
         flag_arg (cp_pci_correlated r)])]"

definition device_found :: "CudaDeviceInfo \<Rightarrow> line" where
  "device_found d = (''CUDA device: %s  bdf=%-14s cc=%d.%d'',
     [PStr (cd_name d), PStr (canonical (cd_bdf d)), PInt (cd_cc_major d), PInt (cd_cc_minor d)])"

definition cmd_cuda_proof :: "string list \<Rightarrow> Machine \<Rightarrow> command" where
  "cmd_cuda_proof argv m =
     (let bytes = (if argc argv > 2 then strtoull (argv ! 2) else push_bit 20 256);
          iters = (if argc argv > 3 then strtoull (argv ! 3) else 8)
      in case mc_cuda m of
        None \<Rightarrow> exits [(''CUDA engine not built (PCIeFabric built without CUDA).'', [])] 1 m
      | Some c \<Rightarrow> (case detect_device (cc_device c) of
          Err code msg \<Rightarrow> exits [(''no CUDA device: %s'', [PStr msg])] 1 m
        | Success d \<Rightarrow> (case run_proof c bytes iters (mc_held m) of
            Undefined \<Rightarrow> None
          | Throws h \<Rightarrow> Some ([device_found d], Uncaught, m\<lparr>mc_held := h\<rparr>)
          | Returns (Err code msg) h \<Rightarrow>
              exits [device_found d, (''proof failed: %s'', [PStr msg])] 1 (m\<lparr>mc_held := h\<rparr>)
          | Returns (Success r) h \<Rightarrow>
              exits (device_found d # proof_lines r) (if cp_ok r \<and> cp_kernel_verified r then 0 else 2)
                (m\<lparr>mc_held := h\<rparr>))))"

section \<open>\<open>topology\<close>\<close>

definition cli_runtime :: Runtime where
  "cli_runtime = rt_set_authority (StrongId 1) (StrongId 1) (Generation 1) 1 Runtime_new"

text \<open>\<open>add_endpoint\<close> with a synthetic device, and \<open>value()\<close> of its result, which throws on an error.\<close>

definition cli_add :: "u64 \<Rightarrow> Bdf \<Rightarrow> DeviceClass \<Rightarrow> PciNodeId \<Rightarrow> Runtime \<Rightarrow> PciNodeId Result \<times> Runtime" where
  "cli_add i bdf kind parent rt = rt_add_endpoint (StrongId i) bdf kind (Generation 1) Prov_SYNTHETIC parent rt"

definition with_node :: "PciNodeId Result \<times> Runtime \<Rightarrow> (PciNodeId \<Rightarrow> Runtime \<Rightarrow> 'a option) \<Rightarrow> 'a option" where
  "with_node x k = (case x of (Success i, rt) \<Rightarrow> k i rt | (Err c m, rt) \<Rightarrow> None)"

definition topology_fabric :: "((PciNodeId \<times> PciNodeId) \<times> Runtime) option" where
  "topology_fabric =
     with_node (cli_add 1 (Bdf 0 0 0 0) Dev_ROOT_COMPLEX (StrongId 0) cli_runtime) (\<lambda>rc rt1.
     with_node (cli_add 2 (Bdf 0 1 0 0) Dev_BRIDGE rc rt1) (\<lambda>sw rt2.
     with_node (cli_add 3 (Bdf 0 2 0 0) Dev_ACCELERATOR sw rt2) (\<lambda>g0 rt3.
     case cli_add 4 (Bdf 0 2 0 1) Dev_ACCELERATOR sw rt3 of (g1, rt4) \<Rightarrow>
     with_node (cli_add 5 (Bdf 0 2 0 2) Dev_NIC sw rt4) (\<lambda>nic rt5. Some ((g0, nic), rt5)))))"

definition topology_request :: "PciNodeId \<Rightarrow> PciNodeId \<Rightarrow> SelectionRequest" where
  "topology_request src dst = \<lparr>rq_source = src, rq_destination = dst, rq_payload_size = 0, rq_priority = 0,
     rq_required_capabilities = [], rq_epoch = StrongId 1, rq_boot = StrongId 1, rq_policy_generation = Generation 0,
     rq_want_reservation = False, rq_prefer_local = True\<rparr>"

definition cmd_topology :: "string list \<Rightarrow> Machine \<Rightarrow> command" where
  "cmd_topology argv m = (case topology_fabric of
      None \<Rightarrow> Some ([], Uncaught, m)
    | Some ((g0, nic), rt) \<Rightarrow> (case rt_build_paths rt of
        None \<Rightarrow> None
      | Some rt' \<Rightarrow> (case rt_select rt' (topology_request g0 nic) of
          None \<Rightarrow> None
        | Some d \<Rightarrow> exits
            [(''synthetic topology: endpoints=%zu paths=%zu'', [PNat (rt_endpoint_count rt'), PNat (rt_path_count rt')]),
             (''preferred path for gpu->nic: decision=%s selected=%s'', [PStr (Decision_to_string (de_decision d)),
               case de_selected d of None \<Rightarrow> PStr ''-'' | Some p \<Rightarrow> PNat (unat (id_value p))])] 0 m)))"

section \<open>\<open>save\<close> and \<open>load\<close>\<close>

definition save_fabric :: "Runtime option" where
  "save_fabric =
     with_node (cli_add 1 (Bdf 0 0 0 0) Dev_ROOT_COMPLEX (StrongId 0) cli_runtime) (\<lambda>rc rt1.
     with_node (cli_add 2 (Bdf 0 1 0 0) Dev_BRIDGE rc rt1) (\<lambda>sw rt2.
     case cli_add 3 (Bdf 0 2 0 0) Dev_ACCELERATOR sw rt2 of (_, rt3) \<Rightarrow> Some rt3))"

definition cmd_save :: "string \<Rightarrow> Runtime \<Rightarrow> Machine \<Rightarrow> command" where
  "cmd_save path rt m = (case rt_save (mc_faults m) path rt (mc_disk m) of
      None \<Rightarrow> None
    | Some (Err c msg, d) \<Rightarrow> exits [(''save failed: %s'', [PStr msg])] 1 (m\<lparr>mc_disk := d\<rparr>)
    | Some (Success _, d) \<Rightarrow>
        exits [(''saved snapshot to %s (paths=%zu)'', [PStr path, PNat (rt_path_count rt)])] 0 (m\<lparr>mc_disk := d\<rparr>))"

definition cmd_load :: "string \<Rightarrow> Runtime \<Rightarrow> Machine \<Rightarrow> command" where
  "cmd_load path rt m = (case fst (rt_load path (mc_disk m) rt) of
      Undef \<Rightarrow> None
    | Fail c msg \<Rightarrow> exits [(''load failed: %s code=%d'', [PStr msg, PInt (ErrorCode_value c)])] 1 m
    | Done sn \<Rightarrow> exits [(''loaded snapshot sequence=%llu digest=%llu; recovered physical observations -> REVALIDATION_REQUIRED'',
        [PNat (unat (sn_sequence sn)), PNat (unat (sn_digest sn))])] 0 m)"

definition cmd_save_load :: "string list \<Rightarrow> Machine \<Rightarrow> command" where
  "cmd_save_load argv m =
     (if argc argv < 4 then exits [(''usage: pf save|load <path>'', [])] 1 m
      else case save_fabric of
        None \<Rightarrow> Some ([], Uncaught, m)
      | Some rt \<Rightarrow> (case rt_build_paths rt of
          None \<Rightarrow> None
        | Some rt' \<Rightarrow> if argv ! 2 = ''save'' then cmd_save (argv ! 3) rt' m else cmd_load (argv ! 3) rt' m))"

section \<open>\<open>coordinator\<close> and \<open>worker\<close>\<close>

text \<open>When the listener fails, the coordinator is destroyed with nothing open.\<close>

definition cmd_coordinator :: "string list \<Rightarrow> Machine \<Rightarrow> command" where
  "cmd_coordinator argv m =
     (case (if argc argv \<ge> 3 then atoi_u16 (argv ! 2) else Some 0) of
        None \<Rightarrow> None
      | Some port \<Rightarrow> (case sv_start port (mc_listen m) (Server_new\<lparr>sv_os := mc_os m\<rparr>) of
          (Err c msg, s) \<Rightarrow> exits [(''coordinator start failed: %s'', [PStr msg])] 1 (m\<lparr>mc_os := sv_os (sv_destroy s)\<rparr>)
        | (Success _, s) \<Rightarrow> Some ([(''coordinator started on port %u'', [PNat (unat (sv_port s))])],
            Serves (snd (sv_run s)), m)))"

text \<open>\<open>for (int i = 2; i + 1 < argc; ++i)\<close>: every argument may be a name, also one that was a value.\<close>

record worker_args =
  wa_id :: u64
  wa_boot :: u64
  wa_port :: u64

fun parse_worker_args :: "string list \<Rightarrow> worker_args \<Rightarrow> worker_args" where
  "parse_worker_args (k # v # rest) a = parse_worker_args (v # rest)
     (if k = ''--id'' then a\<lparr>wa_id := strtoull v\<rparr>
      else if k = ''--boot'' then a\<lparr>wa_boot := strtoull v\<rparr>
      else if k = ''--port'' then a\<lparr>wa_port := strtoull v\<rparr>
      else if k = ''--save'' then a\<lparr>wa_boot := strtoull v\<rparr>
      else a)"
| "parse_worker_args _ a = a"

fun heartbeats :: "nat \<Rightarrow> Worker \<Rightarrow> Worker option" where
  "heartbeats 0 w = Some w"
| "heartbeats (Suc n) w = (case heartbeat w of (Undef, w') \<Rightarrow> None | (_, w') \<Rightarrow> heartbeats n w')"

fun heartbeats_wait :: "nat \<Rightarrow> Worker \<Rightarrow> bool" where
  "heartbeats_wait 0 w = False"
| "heartbeats_wait (Suc n) w = (if heartbeat_waits w then True else case heartbeat w of
      (Undef, w') \<Rightarrow> False | (_, w') \<Rightarrow> heartbeats_wait n w')"

definition worker_waits :: "line list \<Rightarrow> Os \<Rightarrow> Machine \<Rightarrow> command" where
  "worker_waits ls os m = Some (ls, Waits, m\<lparr>mc_os := os\<rparr>)"

definition worker_exits :: "line list \<Rightarrow> int \<Rightarrow> Worker \<Rightarrow> Os \<Rightarrow> Machine \<Rightarrow> command" where
  "worker_exits ls code w os m = (case wk_close w os of (_, _, os') \<Rightarrow> exits ls code (m\<lparr>mc_os := os'\<rparr>))"

definition worker_session :: "worker_args \<Rightarrow> Worker \<Rightarrow> Os \<Rightarrow> Machine \<Rightarrow> command" where
  "worker_session a w os m =
     (if mc_idle m \<and> register_waits w then worker_waits [] os m else case register_self w of
      (Undef, _) \<Rightarrow> None
    | (Fail c msg, w1) \<Rightarrow> worker_exits [(''worker register failed: %s'', [PStr msg])] 1 w1 os m
    | (Done _, w1) \<Rightarrow>
      let s = Snapshot_default\<lparr>sn_epoch := wk_epoch w1\<rparr> in
      if mc_idle m \<and> inventory_waits s w1 then worker_waits [] os m else case send_inventory s w1 of
        (Undef, _) \<Rightarrow> None
      | (_, w2) \<Rightarrow>
        let ls = [(''worker id=%llu boot=%llu registered epoch=%llu'',
            [PNat (unat (wa_id a)), PNat (unat (wa_boot a)), PNat (unat (id_value (wk_epoch w2)))])] in
        if mc_idle m \<and> heartbeats_wait 120 w2 then worker_waits ls os m else case heartbeats 120 w2 of
          None \<Rightarrow> None
        | Some w3 \<Rightarrow> worker_exits ls 0 w3 os m)"

text \<open>The port goes to \<open>getaddrinfo\<close>, whose answer is the machine's.\<close>

definition cmd_worker :: "string list \<Rightarrow> Machine \<Rightarrow> command" where
  "cmd_worker argv m =
     (let a = parse_worker_args (drop 2 argv) \<lparr>wa_id = 1, wa_boot = 1, wa_port = 0\<rparr>
      in case wk_connect (mc_connect m) (Worker_new (StrongId (wa_id a)) (StrongId (wa_boot a)) 1) (mc_os m) of
          (Err c msg, w, os) \<Rightarrow> worker_exits [(''worker connect failed: %s'', [PStr msg])] 1 w os m
        | (Success _, w, os) \<Rightarrow> worker_session a w os m)"

section \<open>\<open>main\<close>\<close>

definition cli_main :: "string list \<Rightarrow> Machine \<Rightarrow> command" where
  "cli_main argv m =
     (if argc argv < 2 then exits [(''PCIe Fabric 1.0.0'', []), (''usage: pf <command> [args]'', [])] 0 m
      else let cmd = argv ! 1 in
      if cmd = ''validate-bdf'' then cmd_validate_bdf argv m
      else if cmd = ''bandwidth'' then cmd_bandwidth argv m
      else if cmd = ''discover'' then cmd_discover argv m
      else if cmd = ''cuda-proof'' then cmd_cuda_proof argv m
      else if cmd = ''topology'' \<or> cmd = ''paths'' then cmd_topology argv m
      else if cmd = ''save'' \<or> cmd = ''load'' then cmd_save_load argv m
      else if cmd = ''coordinator'' then cmd_coordinator argv m
      else if cmd = ''worker'' then cmd_worker argv m
      else exits [(''unknown command: %s'', [PStr cmd])] 1 m)"

end
