(* ===== verification/PF_Examples.thy ===== *)
theory PF_Examples
  imports PF_WinEnum PF_Worker PF_Link PF_Bdf
begin

text \<open>
  Small concrete states, messages and scripts, with the facts about them that the witnesses of the
  properties in \<open>Spec2Isabelle\<close> use. They model no code.
\<close>

definition demo_limits :: ReservationLimits where
  "demo_limits = \<lparr>per_path_bytes = 100, max_duration = 1000\<rparr>"

definition demo_request :: "u64 \<Rightarrow> u64 \<Rightarrow> Reservation" where
  "demo_request i b = (Reservation_new (StrongId i) (Generation 1))\<lparr>rs_path := StrongId 7, rs_bytes := b\<rparr>"

definition demo_registry :: ReservationRegistry where
  "demo_registry = snd (rg_reserve (demo_request 1 60) (ReservationRegistry_new demo_limits))"

lemma demo_registry_reach: "reachable rg_initial (rg_step P) demo_registry"
  if "P (ReservationRegistry_new demo_limits) (demo_request 1 60)"
  unfolding demo_registry_def
  by (rule reach_step [of _ _ "ReservationRegistry_new demo_limits"], rule reach_init)
     (simp add: rg_initial_def ReservationRegistry_new_def, rule step_reserve, rule that)

lemma demo_registry_fits: "rg_reach_fits demo_registry"
  unfolding rg_reach_fits_def
  by (rule demo_registry_reach)
     (simp add: reserve_fits_def rg_reserved_bytes_def ReservationRegistry_new_def demo_request_def
       Reservation_new_def)

lemma demo_registry_reached: "rg_reach demo_registry"
  by (simp add: rg_reach_def demo_registry_reach)

lemmas demo_registry_eval = demo_registry_def demo_request_def demo_limits_def Reservation_new_def
  ReservationRegistry_new_def rg_reserve_def om_contains_def rs_mark_active_def

definition demo_socket :: "recv_event list \<Rightarrow> TcpSocket" where
  "demo_socket es = \<lparr>sk_fd = 3, sk_in = es, sk_script = [], sk_out = []\<rparr>"

definition demo_hello :: Frame where
  "demo_hello = Frame MSG_HELLO []"

lemma demo_hello_length: "length (frame_encode demo_hello) = 21"
  by (simp add: demo_hello_def frame_encode_length kHeaderSize_def)

definition demo_chunks :: "recv_event list" where
  "demo_chunks = [RecvData (take 5 (frame_encode demo_hello)), RecvData (drop 5 (frame_encode demo_hello))]"

lemma demo_chunks_props:
  "only_data demo_chunks" "delivered demo_chunks = concat (map frame_encode [demo_hello])"
  "script_size demo_chunks = 23"
  by (simp_all add: demo_chunks_def demo_hello_length)

definition demo_register :: Frame where
  "demo_register = Frame MSG_REGISTER (write_register (RegisterRequest 3 5 1))"

definition demo_connection :: Connection where
  "demo_connection = \<lparr>cx_boot = Some (StrongId 5), cx_worker = Some (StrongId 3)\<rparr>"

definition demo_coordinator :: Coordinator where
  "demo_coordinator = Coordinator_new\<lparr>co_seq := 1,
     co_workers := [(StrongId 3, new_worker (RegisterRequest 3 5 1))]\<rparr>"

lemma demo_register_frame:
  "handle_frame demo_register Connection_new Coordinator_new =
     Some (Reply True ''registered'', demo_connection, demo_coordinator)"
  by (simp add: demo_register_def handle_frame_def on_register_def with_payload_def Let_def demo_connection_def
      demo_coordinator_def Connection_new_def Coordinator_new_def)

lemma demo_coordinator_reach: "co_reach demo_coordinator"
  unfolding co_reach_def
  by (rule reach_step [where s = Coordinator_new, OF reach_init])
     (simp add: co_start_def, rule co_step_frame [OF demo_register_frame])

definition demo_path :: Path where
  "demo_path = (Path_new (StrongId 11) (Generation 1))
     \<lparr>pa_boot := StrongId 5, pa_host_gen := Generation 1, pa_path_gen := Generation 1,
      pa_device_gen := Generation 1, pa_class := PC_ENDPOINT_TO_HOST, pa_locality := Loc_SAME_SWITCH,
      pa_freshness := FreshnessRecord_new Fresh_CURRENT 0\<rparr>"

definition demo_snapshot :: Snapshot where
  "demo_snapshot = Snapshot_default\<lparr>sn_paths := [demo_path]\<rparr>"

lemma demo_confidence: "confidence_byte 0 = Some 0"
  by (simp add: confidence_byte_def f64_255_def f64_eval)

lemma demo_snapshot_short: "snapshot_short demo_snapshot"
  by (simp add: snapshot_short_def demo_snapshot_def Snapshot_default_def demo_path_def Path_new_def
      path_short_def demo_confidence)

lemma demo_snapshot_length: "length (stream_bytes demo_snapshot) \<le> 262144"
  by (simp add: stream_bytes_def demo_snapshot_def Snapshot_default_def path_bytes_def encode_path_def
      demo_path_def Path_new_def demo_confidence encode_path_length stream_magic_length)

lemma demo_snapshot_read:
  "\<exists>sn. deserialize (stream_bytes demo_snapshot) = Done sn \<and> sn_nodes sn = [] \<and> sn_paths sn = [norm_path demo_path]"
proof -
  obtain r where "stream_body (Rd 0 (stream_bytes demo_snapshot)) = Done (norm_snapshot demo_snapshot, r)"
    using stream_body_read [OF demo_snapshot_short demo_snapshot_length]
    by (auto simp: unique_ids_def demo_snapshot_def Snapshot_default_def)
  moreover have "\<exists>d. semantic_digest (norm_snapshot demo_snapshot) = Some d"
    by (rule digest_total) (simp_all add: norm_snapshot_def demo_snapshot_def Snapshot_default_def norm_path_def
        demo_path_def Path_new_def demo_confidence norm_path_with_def pa_set_authority_def pa_set_endpoints_def)
  ultimately show ?thesis
    by (auto simp: deserialize_def rd_run_def rd_open_def norm_snapshot_def demo_snapshot_def Snapshot_default_def)
qed

lemma demo_norm_path:
  "authority_matches (norm_path demo_path) (StrongId 0) (StrongId 5)" "pa_id (norm_path demo_path) = StrongId 11"
  by (simp_all add: norm_path_def demo_path_def Path_new_def demo_confidence norm_path_with_def
      pa_set_authority_def pa_set_endpoints_def authority_matches_def)

definition demo_measurement :: Measurement where
  "demo_measurement = Measurement_new (StrongId 1) (Generation 2) (StrongId 3) (StrongId 4) TC_PINNED_H2D
     (EngineKind_all ! 0) 1000 1 10 Prov_MEASURED"

definition demo_worker :: "Frame \<Rightarrow> Worker" where
  "demo_worker reply = (Worker_new (StrongId 3) (StrongId 5) 1)
     \<lparr>wk_connected := True, wk_sock := demo_socket [RecvData (frame_encode reply)]\<rparr>"

lemma demo_worker_hears: "hears (demo_worker f) f"
  by (simp add: hears_def demo_worker_def demo_socket_def sk_valid_def invalid_fd_def)

definition demo_bdf :: "u8 \<Rightarrow> u8 \<Rightarrow> Bdf" where
  "demo_bdf b d = Bdf 0 b d 0"

definition demo_root :: Topology where
  "demo_root = snd (add_root_complex (StrongId 1) (demo_bdf 0 0) (Generation 1) Prov_REPORTED Topology_new)"

definition demo_bridge :: Topology where
  "demo_bridge = snd (add_bridge (StrongId 1) (demo_bdf 0 1) (Generation 1) Prov_REPORTED (StrongId 1) demo_root)"

definition demo_gpu :: Topology where
  "demo_gpu = snd (add_endpoint (StrongId 10) (demo_bdf 1 0) Dev_ACCELERATOR (Generation 1) Prov_REPORTED
     (StrongId 2) demo_bridge)"

definition demo_topology :: Topology where
  "demo_topology = snd (add_endpoint (StrongId 11) (demo_bdf 1 1) Dev_NIC (Generation 1) Prov_REPORTED
     (StrongId 2) demo_gpu)"

lemmas topology_eval = add_root_complex_def add_bridge_def add_endpoint_def add_and_attach_def add_node_def
  bdf_entry_def fresh_node_id_def tp_attach_def attach_child_def attach_parent_def would_cycle_def
  ancestors_def om_contains_def

definition demo_node :: "u64 \<Rightarrow> Bdf \<Rightarrow> DeviceClass \<Rightarrow> PciNodeId option \<Rightarrow> PciNodeId list \<Rightarrow> Node" where
  "demo_node i b k p cs = Node_default\<lparr>nd_id := StrongId i, nd_bdf := b, nd_kind := k,
     nd_generation := Generation 1, nd_provenance := Prov_REPORTED, nd_parent := p, nd_children := cs\<rparr>"

lemma demo_root_eval: "demo_root = \<lparr>tp_next_id = 2, tp_gen = Generation 0,
    tp_nodes = [(StrongId 1, demo_node 1 (demo_bdf 0 0) Dev_ROOT_COMPLEX None [])]\<rparr>"
  by (simp add: demo_root_def topology_eval Topology_new_def demo_node_def Node_default_def)

lemma demo_bridge_eval: "demo_bridge = \<lparr>tp_next_id = 3, tp_gen = Generation 0,
    tp_nodes = [(StrongId 1, demo_node 1 (demo_bdf 0 0) Dev_ROOT_COMPLEX None [StrongId 2]),
      (StrongId 2, demo_node 2 (demo_bdf 0 1) Dev_BRIDGE (Some (StrongId 1)) [])]\<rparr>"
  by (simp add: demo_bridge_def demo_root_eval topology_eval demo_node_def Node_default_def demo_bdf_def)

lemma demo_gpu_eval: "demo_gpu = \<lparr>tp_next_id = 3, tp_gen = Generation 0,
    tp_nodes = [(StrongId 1, demo_node 1 (demo_bdf 0 0) Dev_ROOT_COMPLEX None [StrongId 2]),
      (StrongId 2, demo_node 2 (demo_bdf 0 1) Dev_BRIDGE (Some (StrongId 1)) [StrongId 10]),
      (StrongId 10, demo_node 10 (demo_bdf 1 0) Dev_ACCELERATOR (Some (StrongId 2)) [])]\<rparr>"
  by (simp add: demo_gpu_def demo_bridge_eval topology_eval demo_node_def Node_default_def demo_bdf_def)

lemma demo_topology_eval: "demo_topology = \<lparr>tp_next_id = 3, tp_gen = Generation 0,
    tp_nodes = [(StrongId 1, demo_node 1 (demo_bdf 0 0) Dev_ROOT_COMPLEX None [StrongId 2]),
      (StrongId 2, demo_node 2 (demo_bdf 0 1) Dev_BRIDGE (Some (StrongId 1)) [StrongId 10, StrongId 11]),
      (StrongId 10, demo_node 10 (demo_bdf 1 0) Dev_ACCELERATOR (Some (StrongId 2)) []),
      (StrongId 11, demo_node 11 (demo_bdf 1 1) Dev_NIC (Some (StrongId 2)) [])]\<rparr>"
  by (simp add: demo_topology_def demo_gpu_eval topology_eval demo_node_def Node_default_def demo_bdf_def)

lemma demo_built_step: "tp_build t t' \<Longrightarrow> tp_built t \<Longrightarrow> tp_built t'"
  unfolding tp_built_def by (rule reach_step)

lemmas demo_fresh_address = bdf_entry_def demo_node_def Node_default_def demo_bdf_def

lemma demo_bridge_built: "tp_built demo_bridge"
proof -
  have "tp_built Topology_new" unfolding tp_built_def by (rule reach_init) (simp add: tp_start_def)
  then have "tp_built demo_root" unfolding demo_root_def by (rule demo_built_step [OF tp_build_root])
  then show ?thesis unfolding demo_bridge_def
    by (rule demo_built_step [rotated]) (rule tp_build_bridge, simp add: demo_root_eval demo_fresh_address)
qed

lemma demo_topology_built: "tp_built demo_topology"
proof -
  have "tp_built demo_gpu" unfolding demo_gpu_def
    by (rule demo_built_step [OF _ demo_bridge_built])
       (rule tp_build_endpoint, simp add: demo_bridge_eval demo_fresh_address)
  then show ?thesis unfolding demo_topology_def
    by (rule demo_built_step [rotated]) (rule tp_build_endpoint, simp add: demo_gpu_eval demo_fresh_address)
qed

lemma demo_topology_reach: "tp_reach demo_topology"
  by (rule tp_built_reach [OF demo_topology_built])

lemma demo_endpoints: "endpoints demo_topology = [StrongId 10, StrongId 11]"
  by (simp add: demo_topology_eval endpoints_def demo_node_def Node_default_def is_endpoint_kind_def demo_bdf_def less_eq_Bdf_def bdf_cmp_less_def)

lemma demo_chain: "path_nodes demo_topology (StrongId 10) (StrongId 11) = [StrongId 10, StrongId 2, StrongId 11]"
  by (simp add: demo_topology_eval path_nodes_def common_ancestor_def ancestors_def demo_node_def Node_default_def)

definition demo_cycle :: Topology where
  "demo_cycle = snd (add_endpoint (StrongId 20) (demo_bdf 0 0) Dev_OTHER (Generation 1) Prov_REPORTED
     (StrongId 2) demo_bridge)"

lemma demo_cycle_eval: "demo_cycle = \<lparr>tp_next_id = 3, tp_gen = Generation 0,
    tp_nodes = [(StrongId 1, (demo_node 1 (demo_bdf 0 0) Dev_ROOT_COMPLEX (Some (StrongId 2)) [StrongId 2])
         \<lparr>nd_generation := Generation 2\<rparr>),
      (StrongId 2, demo_node 2 (demo_bdf 0 1) Dev_BRIDGE (Some (StrongId 1)) [StrongId 1])]\<rparr>"
  by (simp add: demo_cycle_def demo_bridge_eval topology_eval demo_node_def Node_default_def demo_bdf_def gen_inc_def)

definition demo_select :: SelectionRequest where
  "demo_select = \<lparr>rq_source = StrongId 10, rq_destination = StrongId 11, rq_payload_size = 4096, rq_priority = 0,
     rq_required_capabilities = [], rq_epoch = StrongId 0, rq_boot = StrongId 5, rq_policy_generation = Generation 0,
     rq_want_reservation = False, rq_prefer_local = True\<rparr>"

definition demo_far_path :: Path where
  "demo_far_path = demo_path\<lparr>pa_id := StrongId 9, pa_locality := Loc_SAME_HOST_REMOTE_ROOT\<rparr>"

definition demo_old_path :: Path where
  "demo_old_path = demo_path\<lparr>pa_id := StrongId 8, pa_boot := StrongId 4\<rparr>"

lemmas select_eval = demo_select_def demo_far_path_def demo_old_path_def demo_path_def Path_new_def path_auth_def path_cap_def path_fresh_def
  freshness_rank_def is_admissible_def is_deferred_def is_refused_def is_stale_def FreshnessRecord_new_def

lemma demo_rankable: "list_all rankable [demo_far_path, demo_path, demo_old_path]"
  by (simp add: rankable_def measured_u64_def theoretical_bps_def demo_far_path_def demo_old_path_def demo_path_def Path_new_def
      f64_eval)

lemma demo_rank_key: "sort_key (rank_key demo_select) [demo_far_path, demo_path] = [demo_path, demo_far_path]"
  by (simp add: rank_key_def path_adm_def select_eval measured_u64_def locality_rank_def less_eq_prod_def)

lemma demo_selection: "select [demo_far_path, demo_path, demo_old_path] demo_select =
    Some (sel_from_pool (fold (sel_step demo_select) [demo_far_path, demo_path, demo_old_path] sel_acc_empty)
      demo_path [demo_far_path])"
proof -
  have f: "filter (is_admissible demo_select) [demo_far_path, demo_path, demo_old_path] = [demo_far_path, demo_path]"
    by (simp add: select_eval)
  have "list_all rankable [demo_far_path, demo_path]" using demo_rankable by simp
  from stable_sort_key [OF this] demo_rank_key show ?thesis
    unfolding select_def Let_def sel_collects f by simp
qed

definition demo_runtime :: Runtime where
  "demo_runtime = snd (rt_discover (Success demo_topology) Runtime_new)"

lemma demo_runtime_topology: "rt_topology demo_runtime = demo_topology" "rt_paths demo_runtime = []"
    "rt_epoch demo_runtime = StrongId 0" "rt_boot demo_runtime = StrongId 0"
  by (simp_all add: demo_runtime_def rt_discover_def Runtime_new_def)

lemma demo_runtime_reach: "rt_reach demo_runtime"
  unfolding rt_reach_def demo_runtime_def
  by (rule reach_step [OF reach_init]) (simp add: rt_start_def, rule rt_step_discover [OF demo_topology_reach])

lemma demo_jobs_fit: "jobs_fit demo_topology"
  by (simp add: jobs_fit_def demo_endpoints)

definition demo_ready :: Runtime where
  "demo_ready = the (rt_build_paths demo_runtime)"

lemma demo_ready_build: "rt_build_paths demo_runtime = Some demo_ready"
  using rt_build_total [OF rt_reach_inv [OF demo_runtime_reach]] by (auto simp: demo_ready_def)

lemma demo_ready_reach: "rt_reach demo_ready"
  using demo_runtime_reach unfolding rt_reach_def by (rule reach_step) (rule rt_step_build [OF demo_ready_build])

definition demo_pair_path :: Path where
  "demo_pair_path = (Path_new (StrongId 2) (Generation 1))\<lparr>pa_source := StrongId 10, pa_destination := StrongId 11,
     pa_class := PC_ACCELERATOR_TO_NIC, pa_bridge_chain := [StrongId 10, StrongId 2, StrongId 11],
     pa_locality := Loc_SAME_SWITCH, pa_shared := [StrongId 2], pa_confidence := f64_lit 1 2,
     pa_freshness := FreshnessRecord_new Fresh_CURRENT 0, pa_host_gen := Generation 1, pa_path_gen := Generation 1,
     pa_device_gen := Generation 1\<rparr>"

lemma demo_pair_built: "build_job demo_topology (StrongId 0) (StrongId 0) (StrongId 2, StrongId 10, StrongId 11) = Some demo_pair_path"
proof -
  have c: "common_ancestor demo_topology (StrongId 10) (StrongId 11) = Some (StrongId 2)"
    by (simp add: demo_topology_eval common_ancestor_def ancestors_def demo_node_def Node_default_def)
  have l: "locality demo_topology (StrongId 10) (StrongId 11) = Some Loc_SAME_SWITCH"
    unfolding locality_def c by (simp add: demo_topology_eval demo_node_def Node_default_def)
  have k: "compute_path_class demo_topology (StrongId 10) (StrongId 11) = PC_ACCELERATOR_TO_NIC"
    by (simp add: demo_topology_eval compute_path_class_def tp_node_def class_of_kinds_def demo_node_def Node_default_def
        is_endpoint_kind_def is_root_kind_def)
  show ?thesis
    by (simp add: build_job_def build_path_def l k c demo_chain shared_contention_node_def demo_pair_path_def
        pa_set_authority_def pa_set_endpoints_def Path_new_def)
qed

lemma demo_path_jobs: "path_jobs demo_topology = [(StrongId 2, StrongId 10, StrongId 11),
    (StrongId 0xF000000A, StrongId 10, StrongId 1), (StrongId 0xF000000B, StrongId 11, StrongId 1)]"
proof -
  have r: "root_complex_of demo_topology (StrongId 10) = Some (StrongId 1)"
    "root_complex_of demo_topology (StrongId 11) = Some (StrongId 1)"
    by (simp_all add: demo_topology_eval root_complex_of_def ancestors_def demo_node_def Node_default_def is_root_kind_def)
  have "pair_jobs [StrongId 10, StrongId 11] = [(StrongId 2, StrongId 10, StrongId 11)]"
    by (simp add: pair_jobs_def upt_rec)
  then show ?thesis
    by (simp add: path_jobs_def demo_endpoints host_jobs_def List.map_filter_def r host_path_id_def)
qed

lemma demo_candidates: "rt_candidates demo_ready (StrongId 10) (StrongId 11) = [demo_pair_path]"
proof -
  obtain p q where pq: "build_job demo_topology (StrongId 0) (StrongId 0) (StrongId 0xF000000A, StrongId 10, StrongId 1) = Some p"
    "build_job demo_topology (StrongId 0) (StrongId 0) (StrongId 0xF000000B, StrongId 11, StrongId 1) = Some q"
    using build_job_total [OF tp_reach_inv [OF demo_topology_reach]] by blast
  note b = build_job_built [OF pq(1)] build_job_built [OF pq(2)]
  then have f: "pa_id p = StrongId 0xF000000A" "pa_destination p = StrongId 1" "pa_id q = StrongId 0xF000000B"
    "pa_source q = StrongId 11" by (simp_all add: built_by_def)
  have "rt_build_paths demo_runtime = Some (demo_runtime\<lparr>rt_paths :=
      [(StrongId 2, demo_pair_path), (StrongId 0xF000000A, p), (StrongId 0xF000000B, q)]\<rparr>)"
    using pq demo_pair_built f
    by (simp add: rt_build_paths_def demo_runtime_topology demo_path_jobs) (simp add: demo_pair_path_def Path_new_def)
  then have "rt_paths demo_ready = [(StrongId 2, demo_pair_path), (StrongId 0xF000000A, p), (StrongId 0xF000000B, q)]"
    by (simp add: demo_ready_def)
  then show ?thesis using f by (simp add: rt_candidates_def demo_pair_path_def Path_new_def)
qed

definition demo_no_faults :: save_faults where
  "demo_no_faults = \<lparr>sf_open = False, sf_write = None, sf_remove = False, sf_rename = False\<rparr>"

lemma save_no_faults:
  assumes "rt_snapshot s = Some sn" and "snapshot_short sn"
  shows "\<exists>d'. rt_save demo_no_faults path s d = Some (Success (), d')"
  by (simp add: rt_save_def assms save_def serialize_bytes save_file_def demo_no_faults_def Let_def)

definition demo_measured :: Runtime where
  "demo_measured = snd (rt_ingest_measurement demo_measurement Runtime_new)"

lemma demo_measured_reach: "rt_reach demo_measured"
  unfolding rt_reach_def demo_measured_def
  by (rule reach_step [OF reach_init]) (simp add: rt_start_def, rule rt_step_ingest)

lemma demo_measured_eval: "rt_topology demo_measured = Topology_new" "rt_paths demo_measured = []"
    "rt_measurements demo_measured = [(StrongId 1, ms_set_path (StrongId 0) (Generation 0) demo_measurement)]"
    "rt_epoch demo_measured = StrongId 0" "rt_topology_seq demo_measured = 0"
  by (simp_all add: demo_measured_def rt_ingest_measurement_def Runtime_new_def ms_ingest_def)
     (simp add: ms_set_path_def demo_measurement_def Measurement_new_def)

lemma demo_throughput: "throughput demo_measurement = 0x42374876E8000000"
  by (simp add: throughput_def demo_measurement_def Measurement_new_def f64_1e9_def f64_le_def f64_ord_def f64_mag_def f64_eval)

lemma demo_throughput_byte: "f64_to_u64 0x42374876E8000000 = Some 100000000000"
  by (simp add: f64_eval)

lemma demo_measured_snapshot: "\<exists>sn. rt_snapshot demo_measured = Some sn \<and> sn_nodes sn = [] \<and> sn_paths sn = [] \<and>
    sn_measurements sn = [ms_set_path (StrongId 0) (Generation 0) demo_measurement] \<and> sn_reservations sn = [] \<and>
    sn_policies sn = []"
proof -
  obtain sn where sn: "rt_snapshot demo_measured = Some sn"
    using rt_snapshot_total [of demo_measured]
    by (auto simp: demo_measured_eval rt_all_paths_def ms_all_def demo_throughput demo_throughput_byte)
  from snapshot_of_fields [OF sn [unfolded rt_snapshot_def]] sn show ?thesis
    by (auto simp: demo_measured_eval ms_all_def all_nodes_def Topology_new_def List.map_filter_def)
qed

lemma demo_all_nodes: "all_nodes demo_topology = [StrongId 1, StrongId 2, StrongId 10, StrongId 11]"
  by (simp add: demo_topology_eval all_nodes_def demo_node_def Node_default_def demo_bdf_def less_eq_prod_def
      less_Bdf_def less_eq_Bdf_def bdf_cmp_less_def)

definition demo_disk :: disk where
  "demo_disk = [''s'' \<mapsto> file_bytes (stream_bytes demo_snapshot)]"

lemma demo_disk_load: "\<exists>sn. load ''s'' demo_disk = Done sn \<and> sn_paths sn = [norm_path demo_path]"
proof -
  have "length (stream_bytes demo_snapshot) < 2 ^ 64" using demo_snapshot_length by simp
  then have "load ''s'' demo_disk = deserialize (stream_bytes demo_snapshot)"
    by (simp add: load_def demo_disk_def load_body_file file_bytes_length)
  with demo_snapshot_read show ?thesis by auto
qed

definition demo_device :: "Bdf \<Rightarrow> DeviceClass \<Rightarrow> Bdf option \<Rightarrow> RawPciDevice" where
  "demo_device b k p = RawPciDevice_default\<lparr>rw_bdf := b, rw_kind := k, rw_is_bridge := (k = Dev_BRIDGE), rw_parent_bdf := p\<rparr>"

definition demo_setup :: SetupDevice where
  "demo_setup = \<lparr>su_inst = 4, su_enumerator_name = ''PCI'', su_location = [], su_busnumber = Some 1, su_address = None,
     su_hardware_id = [], su_driver = [], su_desc = [], su_class = ''Net''\<rparr>"

lemma demo_location: "parse_location_info [] = Some None"
  by (simp add: parse_location_info_def field_after_def)

lemma demo_raw: "\<exists>r. raw_device demo_setup = Some r \<and> rw_kind r = Dev_NIC \<and> rw_bdf r = Bdf 0 1 0 0 \<and> rw_parent_bdf r = None"
  by (simp add: raw_device_def device_bdf_def demo_setup_def demo_location parse_hardware_ids_def device_kind_def Let_def
      RawPciDevice_default_def classify_by_class_name_def hid_field_def)

end
