(* ===== verification/PF_CliRuns.thy ===== *)
theory PF_CliRuns
  imports PF_Cli PF_Examples
begin

text \<open>
  What the command line tool does: the fabric it builds, what \<open>topology\<close>, \<open>save\<close> and \<open>load\<close> print,
  that the coordinator it starts never returns, and that the worker leaves no handle behind.
\<close>

section \<open>The fabrics\<close>

definition cli_node :: "u64 \<Rightarrow> Bdf \<Rightarrow> DeviceClass \<Rightarrow> PciNodeId option \<Rightarrow> PciNodeId list \<Rightarrow> Node" where
  "cli_node i b k p cs = Node_default\<lparr>nd_id := StrongId i, nd_bdf := b, nd_kind := k,
     nd_generation := Generation 1, nd_provenance := Prov_SYNTHETIC, nd_parent := p, nd_children := cs\<rparr>"

definition cli_topology :: "(PciNodeId \<times> Node) list \<Rightarrow> Topology" where
  "cli_topology ns = \<lparr>tp_next_id = 1, tp_gen = Generation 0, tp_nodes = ns\<rparr>"

definition cli_state :: "u64 \<Rightarrow> (PciNodeId \<times> Node) list \<Rightarrow> Runtime" where
  "cli_state n ns = cli_runtime\<lparr>rt_topology := cli_topology ns, rt_topology_seq := n\<rparr>"

lemmas cli_eval = cli_add_def rt_add_endpoint_def topology_eval cli_state_def cli_topology_def cli_node_def
  cli_runtime_def Runtime_new_def rt_set_authority_def Topology_new_def Node_default_def

lemma cli_add_root: "cli_add 1 (Bdf 0 0 0 0) Dev_ROOT_COMPLEX (StrongId 0) cli_runtime =
    (Success (StrongId 1), cli_state 1 [(StrongId 1, cli_node 1 (Bdf 0 0 0 0) Dev_ROOT_COMPLEX None [])])"
  by (simp add: cli_eval)

lemma cli_add_bridge: "cli_add 2 (Bdf 0 1 0 0) Dev_BRIDGE (StrongId 1)
      (cli_state 1 [(StrongId 1, cli_node 1 (Bdf 0 0 0 0) Dev_ROOT_COMPLEX None [])]) =
    (Success (StrongId 2), cli_state 2
      [(StrongId 1, cli_node 1 (Bdf 0 0 0 0) Dev_ROOT_COMPLEX None [StrongId 2]),
       (StrongId 2, cli_node 2 (Bdf 0 1 0 0) Dev_BRIDGE (Some (StrongId 1)) [])])"
  by (simp add: cli_eval)

lemma cli_add_gpu: "cli_add 3 (Bdf 0 2 0 0) Dev_ACCELERATOR (StrongId 2) (cli_state 2
      [(StrongId 1, cli_node 1 (Bdf 0 0 0 0) Dev_ROOT_COMPLEX None [StrongId 2]),
       (StrongId 2, cli_node 2 (Bdf 0 1 0 0) Dev_BRIDGE (Some (StrongId 1)) [])]) =
    (Success (StrongId 3), cli_state 3
      [(StrongId 1, cli_node 1 (Bdf 0 0 0 0) Dev_ROOT_COMPLEX None [StrongId 2]),
       (StrongId 2, cli_node 2 (Bdf 0 1 0 0) Dev_BRIDGE (Some (StrongId 1)) [StrongId 3]),
       (StrongId 3, cli_node 3 (Bdf 0 2 0 0) Dev_ACCELERATOR (Some (StrongId 2)) [])])"
  by (simp add: cli_eval)

definition save_nodes :: "(PciNodeId \<times> Node) list" where
  "save_nodes = [(StrongId 1, cli_node 1 (Bdf 0 0 0 0) Dev_ROOT_COMPLEX None [StrongId 2]),
     (StrongId 2, cli_node 2 (Bdf 0 1 0 0) Dev_BRIDGE (Some (StrongId 1)) [StrongId 3]),
     (StrongId 3, cli_node 3 (Bdf 0 2 0 0) Dev_ACCELERATOR (Some (StrongId 2)) [])]"

definition topology_nodes :: "(PciNodeId \<times> Node) list" where
  "topology_nodes = [(StrongId 1, cli_node 1 (Bdf 0 0 0 0) Dev_ROOT_COMPLEX None [StrongId 2]),
     (StrongId 2, cli_node 2 (Bdf 0 1 0 0) Dev_BRIDGE (Some (StrongId 1)) [StrongId 3, StrongId 4, StrongId 5]),
     (StrongId 3, cli_node 3 (Bdf 0 2 0 0) Dev_ACCELERATOR (Some (StrongId 2)) []),
     (StrongId 4, cli_node 4 (Bdf 0 2 0 1) Dev_ACCELERATOR (Some (StrongId 2)) []),
     (StrongId 5, cli_node 5 (Bdf 0 2 0 2) Dev_NIC (Some (StrongId 2)) [])]"

lemma save_fabric_eval: "save_fabric = Some (cli_state 3 save_nodes)"
  by (simp add: save_fabric_def with_node_def cli_add_root cli_add_bridge cli_add_gpu save_nodes_def)

lemma topology_fabric_eval: "topology_fabric = Some ((StrongId 3, StrongId 5), cli_state 5 topology_nodes)"
proof -
  let ?ns = "\<lambda>cs. [(StrongId 1, cli_node 1 (Bdf 0 0 0 0) Dev_ROOT_COMPLEX None [StrongId 2]),
     (StrongId 2, cli_node 2 (Bdf 0 1 0 0) Dev_BRIDGE (Some (StrongId 1)) cs),
     (StrongId 3, cli_node 3 (Bdf 0 2 0 0) Dev_ACCELERATOR (Some (StrongId 2)) [])]"
  let ?g1 = "(StrongId 4, cli_node 4 (Bdf 0 2 0 1) Dev_ACCELERATOR (Some (StrongId 2)) [])"
  have g1: "cli_add 4 (Bdf 0 2 0 1) Dev_ACCELERATOR (StrongId 2) (cli_state 3 (?ns [StrongId 3])) =
      (Success (StrongId 4), cli_state 4 (?ns [StrongId 3, StrongId 4] @ [?g1]))"
    by (simp add: cli_eval)
  have nic: "cli_add 5 (Bdf 0 2 0 2) Dev_NIC (StrongId 2) (cli_state 4 (?ns [StrongId 3, StrongId 4] @ [?g1])) =
      (Success (StrongId 5), cli_state 5 topology_nodes)"
    by (simp add: cli_eval topology_nodes_def)
  show ?thesis
    by (simp add: topology_fabric_def with_node_def cli_add_root cli_add_bridge cli_add_gpu
        g1 [simplified] nic [simplified])
qed

section \<open>Paths of a fabric\<close>

lemma cli_state_fields [simp]:
  "rt_topology (cli_state n ns) = cli_topology ns" "rt_paths (cli_state n ns) = []"
  "rt_measurements (cli_state n ns) = []" "rt_epoch (cli_state n ns) = StrongId 1" "rt_boot (cli_state n ns) = StrongId 1"
  "rt_topology_seq (cli_state n ns) = n"
  by (simp_all add: cli_state_def cli_runtime_def rt_set_authority_def Runtime_new_def)

lemmas cli_node_eval = cli_topology_def cli_node_def Node_default_def

lemma cli_endpoints:
  "endpoints (cli_topology save_nodes) = [StrongId 3]"
  "endpoints (cli_topology topology_nodes) = [StrongId 3, StrongId 4, StrongId 5]"
  by (simp_all add: cli_node_eval save_nodes_def topology_nodes_def endpoints_def is_endpoint_kind_def less_eq_Bdf_def bdf_cmp_less_def)

lemma cli_root:
  "root_complex_of (cli_topology save_nodes) (StrongId 3) = Some (StrongId 1)"
  "root_complex_of (cli_topology topology_nodes) (StrongId 3) = Some (StrongId 1)"
  "root_complex_of (cli_topology topology_nodes) (StrongId 4) = Some (StrongId 1)"
  "root_complex_of (cli_topology topology_nodes) (StrongId 5) = Some (StrongId 1)"
  by (simp_all add: cli_node_eval save_nodes_def topology_nodes_def root_complex_of_def ancestors_def is_root_kind_def)

lemma save_jobs: "path_jobs (cli_topology save_nodes) = [(StrongId 0xF0000003, StrongId 3, StrongId 1)]"
  by (simp add: path_jobs_def cli_endpoints host_jobs_def List.map_filter_def cli_root host_path_id_def pair_jobs_def upt_rec)

lemma topology_jobs: "path_jobs (cli_topology topology_nodes) =
    [(StrongId 2, StrongId 3, StrongId 4), (StrongId 3, StrongId 3, StrongId 5), (StrongId 6, StrongId 4, StrongId 5),
     (StrongId 0xF0000003, StrongId 3, StrongId 1), (StrongId 0xF0000004, StrongId 4, StrongId 1),
     (StrongId 0xF0000005, StrongId 5, StrongId 1)]"
proof -
  have "pair_jobs [StrongId 3, StrongId 4, StrongId 5] =
      [(StrongId 2, StrongId 3, StrongId 4), (StrongId 3, StrongId 3, StrongId 5), (StrongId 6, StrongId 4, StrongId 5)]"
    by (simp add: pair_jobs_def upt_rec)
  then show ?thesis
    by (simp add: path_jobs_def cli_endpoints host_jobs_def List.map_filter_def cli_root host_path_id_def)
qed

lemma cli_state_reach: "tp_reach (cli_topology ns) \<Longrightarrow> \<exists>rt. rt_build_paths (cli_state n ns) = Some rt"
  by (simp add: rt_build_paths_def) (use run_jobs_total [OF tp_reach_inv] in blast)

definition save_path :: Path where
  "save_path = (Path_new (StrongId 0xF0000003) (Generation 1))\<lparr>pa_source := StrongId 3, pa_destination := StrongId 1,
     pa_class := PC_ACCELERATOR_TO_HOST, pa_bridge_chain := [StrongId 3, StrongId 2, StrongId 1],
     pa_locality := Loc_SAME_ROOT_COMPLEX, pa_shared := [StrongId 1], pa_confidence := f64_lit 1 2,
     pa_freshness := FreshnessRecord_new Fresh_CURRENT 0, pa_host_gen := Generation 1, pa_path_gen := Generation 1,
     pa_device_gen := Generation 1, pa_epoch := StrongId 1, pa_boot := StrongId 1\<rparr>"

lemma save_built: "build_job (cli_topology save_nodes) (StrongId 1) (StrongId 1) (StrongId 0xF0000003, StrongId 3, StrongId 1) =
    Some save_path"
proof -
  have c: "common_ancestor (cli_topology save_nodes) (StrongId 3) (StrongId 1) = Some (StrongId 1)"
    by (simp add: cli_node_eval save_nodes_def common_ancestor_def ancestors_def)
  have l: "locality (cli_topology save_nodes) (StrongId 3) (StrongId 1) = Some Loc_SAME_ROOT_COMPLEX"
    unfolding locality_def c by (simp add: cli_node_eval save_nodes_def)
  have k: "compute_path_class (cli_topology save_nodes) (StrongId 3) (StrongId 1) = PC_ACCELERATOR_TO_HOST"
    by (simp add: cli_node_eval save_nodes_def compute_path_class_def tp_node_def class_of_kinds_def
        is_endpoint_kind_def is_root_kind_def)
  have n: "path_nodes (cli_topology save_nodes) (StrongId 3) (StrongId 1) = [StrongId 3, StrongId 2, StrongId 1]"
    by (simp add: path_nodes_def c) (simp add: cli_node_eval save_nodes_def ancestors_def)
  show ?thesis
    by (simp add: build_job_def build_path_def l k c n shared_contention_node_def save_path_def
        pa_set_authority_def pa_set_endpoints_def Path_new_def)
qed

section \<open>\<open>save\<close> and \<open>load\<close>\<close>

definition save_runtime :: Runtime where
  "save_runtime = (cli_state 3 save_nodes)\<lparr>rt_paths := [(StrongId 0xF0000003, save_path)]\<rparr>"

lemma save_runtime_built: "rt_build_paths (cli_state 3 save_nodes) = Some save_runtime"
  by (simp add: rt_build_paths_def save_jobs save_built save_runtime_def) (simp add: save_path_def Path_new_def)

lemma save_command:
  "4 \<le> argc argv \<Longrightarrow> cmd_save_load argv m =
     (if argv ! 2 = ''save'' then cmd_save (argv ! 3) save_runtime m else cmd_load (argv ! 3) save_runtime m)"
  by (simp add: cmd_save_load_def save_fabric_eval save_runtime_built)

lemma save_all_nodes: "all_nodes (cli_topology save_nodes) = [StrongId 1, StrongId 2, StrongId 3]"
  by (simp add: cli_node_eval save_nodes_def all_nodes_def less_eq_prod_def less_Bdf_def less_eq_Bdf_def bdf_cmp_less_def)

lemma save_snapshot: "\<exists>sn. rt_snapshot save_runtime = Some sn \<and> sn_nodes sn = map snd save_nodes \<and>
    sn_paths sn = [save_path] \<and> sn_measurements sn = [] \<and> sn_reservations sn = [] \<and> sn_policies sn = []"
proof -
  have t: "rt_topology save_runtime = cli_topology save_nodes" "rt_measurements save_runtime = []"
    "rt_paths save_runtime = [(StrongId 0xF0000003, save_path)]"
    by (simp_all add: save_runtime_def)
  have "pa_theoretical save_path = None" by (simp add: save_path_def Path_new_def)
  then obtain sn where sn: "rt_snapshot save_runtime = Some sn"
    using rt_snapshot_total [of save_runtime] by (auto simp: rt_all_paths_def t ms_all_def)
  have "List.map_filter (tp_node (cli_topology save_nodes)) [StrongId 1, StrongId 2, StrongId 3] = map snd save_nodes"
    by (simp add: List.map_filter_def tp_node_def cli_topology_def save_nodes_def)
  with snapshot_of_fields [OF sn [unfolded rt_snapshot_def]] sn show ?thesis
    by (auto simp: t save_all_nodes ms_all_def)
qed

text \<open>Without a fault \<open>save\<close> writes its file, and no file that it wrote can be loaded again.\<close>

lemma cmd_save_fails_to_load:
  assumes "mc_faults m = demo_no_faults"
  shows "\<exists>d. cmd_save path save_runtime m =
      exits [(''saved snapshot to %s (paths=%zu)'', [PStr path, PNat 1])] 0 (m\<lparr>mc_disk := d\<rparr>) \<and>
    cmd_load path save_runtime (m\<lparr>mc_disk := d\<rparr>) =
      exits [(''load failed: %s code=%d'', [PStr ''duplicate node id'', PInt 6])] 1 (m\<lparr>mc_disk := d\<rparr>)"
proof -
  obtain sn where sn: "rt_snapshot save_runtime = Some sn" "sn_nodes sn = map snd save_nodes" "sn_paths sn = [save_path]"
    "sn_measurements sn = []" "sn_reservations sn = []" "sn_policies sn = []"
    using save_snapshot by blast
  have conf: "confidence_byte (f64_lit 1 2) \<noteq> None"
    by (simp add: confidence_byte_def f64_255_def f64_eval)
  have short: "snapshot_short sn"
    using conf by (simp add: snapshot_short_def sn save_nodes_def node_short_def cli_node_def Node_default_def Bdf_valid_def
        Provenance_valid_def Provenance_code_def enum_in_range_def kProvenanceNames_def path_short_def save_path_def Path_new_def)
  obtain c where "confidence_byte (f64_lit 1 2) = Some c" using conf by auto
  then have "path_bytes save_path = encode_path_with c save_path"
    by (simp add: path_bytes_def encode_path_def save_path_def)
  then have "length (path_bytes save_path) \<le> 200"
    by (simp add: encode_path_length) (simp add: save_path_def Path_new_def)
  then have len: "length (stream_bytes sn) \<le> 262144"
    by (simp add: stream_bytes_def sn encode_node_length save_nodes_def) (simp add: cli_node_def Node_default_def stream_magic_def)
  obtain d where d: "rt_save demo_no_faults path save_runtime (mc_disk m) = Some (Success (), d)"
    using save_no_faults [OF sn(1) short] by blast
  have "rt_load path d save_runtime = (Fail EC_DUPLICATE_IDENTITY ''duplicate node id'', save_runtime)"
    using rt_save_load_fails [OF d sn(1) short len] by (simp add: sn save_nodes_def)
  with d assms show ?thesis
    by (intro exI [of _ d]) (simp add: cmd_save_def cmd_load_def rt_path_count_def save_runtime_def ErrorCode_value_def)
qed

section \<open>\<open>topology\<close>\<close>

definition gpu_nic_path :: Path where
  "gpu_nic_path = demo_pair_path\<lparr>pa_id := StrongId 3, pa_source := StrongId 3, pa_destination := StrongId 5,
     pa_bridge_chain := [StrongId 3, StrongId 2, StrongId 5], pa_epoch := StrongId 1, pa_boot := StrongId 1\<rparr>"

lemma topology_path:
  "build_job (cli_topology topology_nodes) (StrongId 1) (StrongId 1) (StrongId 3, StrongId 3, StrongId 5) = Some gpu_nic_path"
proof -
  have c: "common_ancestor (cli_topology topology_nodes) (StrongId 3) (StrongId 5) = Some (StrongId 2)"
    by (simp add: cli_node_eval topology_nodes_def common_ancestor_def ancestors_def)
  have l: "locality (cli_topology topology_nodes) (StrongId 3) (StrongId 5) = Some Loc_SAME_SWITCH"
    unfolding locality_def c by (simp add: cli_node_eval topology_nodes_def)
  have k: "compute_path_class (cli_topology topology_nodes) (StrongId 3) (StrongId 5) = PC_ACCELERATOR_TO_NIC"
    by (simp add: cli_node_eval topology_nodes_def compute_path_class_def tp_node_def class_of_kinds_def
        is_endpoint_kind_def is_root_kind_def)
  have n: "path_nodes (cli_topology topology_nodes) (StrongId 3) (StrongId 5) = [StrongId 3, StrongId 2, StrongId 5]"
    by (simp add: path_nodes_def c) (simp add: cli_node_eval topology_nodes_def ancestors_def)
  show ?thesis
    by (simp add: build_job_def build_path_def l k c n shared_contention_node_def demo_pair_path_def gpu_nic_path_def
        pa_set_authority_def pa_set_endpoints_def Path_new_def)
qed

lemma gpu_nic_select:
  "\<exists>d. select [gpu_nic_path] (topology_request (StrongId 3) (StrongId 5)) = Some d \<and>
     de_decision d = Dec_USE_PATH \<and> de_selected d = Some (StrongId 3)"
proof -
  let ?req = "topology_request (StrongId 3) (StrongId 5)"
  have rk: "list_all rankable [gpu_nic_path]"
    by (simp add: rankable_def measured_u64_def theoretical_bps_def gpu_nic_path_def demo_pair_path_def Path_new_def f64_eval)
  have sel: "select [gpu_nic_path] ?req = Some (sel_from_pool (fold (sel_step ?req) [gpu_nic_path] sel_acc_empty) gpu_nic_path [])"
    using stable_sort_key [OF rk, of ?req]
    by (simp add: topology_request_def select_def sel_step_def sel_acc_empty_def path_auth_def path_cap_def
        path_fresh_def gpu_nic_path_def demo_pair_path_def Path_new_def freshness_rank_def FreshnessRecord_new_def)
  have "\<not> has_penalty gpu_nic_path"
    by (simp add: has_penalty_def gpu_nic_path_def demo_pair_path_def Path_new_def)
  with sel show ?thesis by (simp add: sel_from_pool_fields) (simp add: gpu_nic_path_def)
qed

lemma cli_add_reach: "cli_add i b k p rt = (r, rt') \<Longrightarrow> rt_reach rt \<Longrightarrow> rt_reach rt'"
  using rt_step_endpoint [of rt "StrongId i" b k "Generation 1" Prov_SYNTHETIC p]
  unfolding rt_reach_def cli_add_def by (metis reach_step snd_conv)

lemma cli_runtime_reach: "rt_reach cli_runtime"
  unfolding rt_reach_def cli_runtime_def
  by (rule reach_step, rule reach_init [of _ Runtime_new]) (simp_all add: rt_start_def rt_step_authority)

lemma topology_fabric_reach: "topology_fabric = Some (x, rt) \<Longrightarrow> rt_reach rt"
  by (auto simp: topology_fabric_def with_node_def split: prod.splits Result.splits
      intro!: cli_runtime_reach elim!: cli_add_reach)

lemma topology_built:
  "\<exists>rt. rt_build_paths (cli_state 5 topology_nodes) = Some rt \<and> rt_endpoint_count rt = 3 \<and> rt_path_count rt = 6 \<and>
     rt_candidates rt (StrongId 3) (StrongId 5) = [gpu_nic_path]"
proof -
  let ?t = "cli_topology topology_nodes" and ?b = "build_job (cli_topology topology_nodes) (StrongId 1) (StrongId 1)"
  have inv: "tp_inv ?t"
    using rt_reach_inv [OF topology_fabric_reach [OF topology_fabric_eval]] by (simp add: rt_inv_def)
  have total: "\<exists>p. ?b job = Some p" for job by (rule build_job_total [OF inv])
  obtain p q r u v where j: "?b (StrongId 2, StrongId 3, StrongId 4) = Some p"
    "?b (StrongId 6, StrongId 4, StrongId 5) = Some q" "?b (StrongId 0xF0000003, StrongId 3, StrongId 1) = Some r"
    "?b (StrongId 0xF0000004, StrongId 4, StrongId 1) = Some u" "?b (StrongId 0xF0000005, StrongId 5, StrongId 1) = Some v"
    using total by metis
  from j [THEN build_job_built] have f: "pa_id p = StrongId 2" "pa_destination p = StrongId 4" "pa_id q = StrongId 6"
    "pa_source q = StrongId 4" "pa_id r = StrongId 0xF0000003" "pa_destination r = StrongId 1"
    "pa_id u = StrongId 0xF0000004" "pa_destination u = StrongId 1" "pa_id v = StrongId 0xF0000005"
    "pa_destination v = StrongId 1"
    by (simp_all add: built_by_def)
  have g: "pa_id gpu_nic_path = StrongId 3" "pa_source gpu_nic_path = StrongId 3" "pa_destination gpu_nic_path = StrongId 5"
    by (simp_all add: gpu_nic_path_def)
  have b: "rt_build_paths (cli_state 5 topology_nodes) = Some ((cli_state 5 topology_nodes)\<lparr>rt_paths :=
      [(StrongId 2, p), (StrongId 3, gpu_nic_path), (StrongId 6, q), (StrongId 0xF0000003, r), (StrongId 0xF0000004, u),
       (StrongId 0xF0000005, v)]\<rparr>)"
    by (simp add: rt_build_paths_def topology_jobs j topology_path f g)
  show ?thesis
    by (rule exI, rule conjI, rule b)
       (simp add: rt_endpoint_count_def cli_endpoints rt_path_count_def rt_candidates_def f g)
qed

lemma cmd_topology_prints:
  "cmd_topology argv m = exits
     [(''synthetic topology: endpoints=%zu paths=%zu'', [PNat 3, PNat 6]),
      (''preferred path for gpu->nic: decision=%s selected=%s'', [PStr ''USE_PATH'', PNat 3])] 0 m"
proof -
  obtain rt where rt: "rt_build_paths (cli_state 5 topology_nodes) = Some rt" "rt_endpoint_count rt = 3"
    "rt_path_count rt = 6" "rt_candidates rt (StrongId 3) (StrongId 5) = [gpu_nic_path]"
    using topology_built by blast
  obtain d where d: "select [gpu_nic_path] (topology_request (StrongId 3) (StrongId 5)) = Some d"
    "de_decision d = Dec_USE_PATH" "de_selected d = Some (StrongId 3)"
    using gpu_nic_select by blast
  have s: "rt_select rt (topology_request (StrongId 3) (StrongId 5)) = Some d"
    using d(1) rt(4) by (simp add: rt_select_def) (simp add: topology_request_def)
  have n: "Decision_to_string Dec_USE_PATH = ''USE_PATH''" by code_simp
  show ?thesis by (simp add: cmd_topology_def topology_fabric_eval rt s d n)
qed

section \<open>\<open>coordinator\<close>\<close>

lemma sv_works_run: "sv_work\<^sup>*\<^sup>* s s' \<Longrightarrow> \<not> sv_stop s \<Longrightarrow> sv_main s = LoopTest \<or> sv_main s = Accepting \<Longrightarrow>
    \<not> sv_stop s' \<and> (sv_main s' = LoopTest \<or> sv_main s' = Accepting)"
proof (induction rule: rtranclp_induct)
  case (step y z)
  then show ?case using sv_work_runs [of y z] by blast
qed simp

text \<open>The command starts the accept loop, and nobody can ask it to stop.\<close>

lemma cmd_coordinator_serves:
  assumes "cmd_coordinator argv m = Some (ls, Serves s, m')" and "listen_fresh (mc_os m) (mc_listen m)"
  shows "sv_main s = LoopTest \<and> \<not> sv_stop s \<and> ls_valid (sv_listener s) \<and>
    ls = [(''coordinator started on port %u'', [PNat (unat (sv_port s))])]"
proof -
  obtain port r s1 where p: "(if argc argv \<ge> 3 then atoi_u16 (argv ! 2) else Some 0) = Some port"
    "sv_start port (mc_listen m) (Server_new\<lparr>sv_os := mc_os m\<rparr>) = (r, s1)"
    using assms(1) by (fastforce simp: cmd_coordinator_def split: option.splits)
  from p assms(1) have s: "r = Success ()" "s = snd (sv_run s1)"
    "ls = [(''coordinator started on port %u'', [PNat (unat (sv_port s1))])]"
    by (auto simp: cmd_coordinator_def exits_def split: Result.splits if_splits)
  have l: "ls_valid (sv_listener s1)"
  proof (cases "mc_listen m")
    case (Listening h)
    with p(2) assms(2) show ?thesis
      by (auto simp: sv_start_def Server_new_def TcpListener_new_def ls_assign_def ls_close_def ls_bind_def
          ls_valid_def listen_fresh_def fresh_handle_def)
  qed (use p(2) s(1) in \<open>auto simp: sv_start_def Let_def ls_bind_def split: prod.splits\<close>)
  have "sv_stop s1 = sv_stop (Server_new\<lparr>sv_os := mc_os m\<rparr>)"
    using sv_frame(3) [of port "mc_listen m" "Server_new\<lparr>sv_os := mc_os m\<rparr>"] unfolding p(2) by simp
  then have "\<not> sv_stop s1" by (simp add: Server_new_def)
  with l s show ?thesis by (simp add: sv_run_def)
qed

section \<open>\<open>worker\<close>\<close>

text \<open>A request keeps the worker's handle and its flag.\<close>

definition wk_same :: "Worker \<Rightarrow> Worker \<Rightarrow> bool" where
  "wk_same w w' = (sk_fd (wk_sock w') = sk_fd (wk_sock w) \<and> wk_connected w' = wk_connected w)"

lemma await_ack_fd: "await_ack n sk = (a, sk') \<Longrightarrow> sk_fd sk' = sk_fd sk"
proof (induction n arbitrary: sk)
  case (Suc n)
  obtain r sk1 where r: "read_frame sk = (r, sk1)" by fastforce
  have "sk_fd sk1 = sk_fd sk" using read_frame_size [OF r] by (simp add: sk_same_def)
  with Suc r show ?case by (cases r) (auto split: if_splits)
qed simp

lemma send_and_await_ack_same:
  assumes "send_and_await_ack f w = (a, w')"
  shows "wk_same w w'"
proof -
  obtain r sk where s: "write_frame f (wk_sock w) = (r, sk)" by fastforce
  have fd: "sk_fd sk = sk_fd (wk_sock w)" using send_all_result [OF s [unfolded write_frame_def]] by simp
  obtain b sk2 where "await_ack 64 sk = (b, sk2)" by fastforce
  with await_ack_fd [OF this] assms s fd show ?thesis
    by (cases r) (auto simp: send_and_await_ack_def wk_same_def)
qed

lemma wk_same_trans: "wk_same w w' \<Longrightarrow> wk_same w' w'' \<Longrightarrow> wk_same w w''"
  by (simp add: wk_same_def)

lemma register_self_same: "register_self w = (r, w') \<Longrightarrow> wk_same w w'"
  by (auto simp: register_self_def wk_same_def split: if_splits prod.splits outcome.splits
      dest!: send_and_await_ack_same)

lemma send_inventory_same: "send_inventory sn w = (r, w') \<Longrightarrow> wk_same w w'"
  by (auto simp: send_inventory_def send_body_def split: option.splits prod.splits
      dest!: send_and_await_ack_same) (simp add: wk_same_def)

lemma heartbeat_same: "heartbeat w = (r, w') \<Longrightarrow> wk_same w w'"
  by (auto simp: heartbeat_def send_ping_def split: prod.splits outcome.splits dest!: send_and_await_ack_same)

lemma heartbeats_same: "heartbeats n w = Some w' \<Longrightarrow> wk_same w w'"
proof (induction n arbitrary: w)
  case (Suc n)
  obtain r w1 where r: "heartbeat w = (r, w1)" by fastforce
  from Suc.prems r have "heartbeats n w1 = Some w'" by (cases r) auto
  with Suc.IH heartbeat_same [OF r] wk_same_trans show ?case by blast
qed (simp add: wk_same_def)

lemma worker_exits_closes:
  assumes "wk_owns w os" and "worker_exits ls code w os m = Some (ls', e, m')"
  shows "e = Exit code \<and> ls' = ls \<and> os_open (mc_os m') = os_open os - fd_of (sk_fd (wk_sock w))"
proof -
  obtain r w' os' where c: "wk_close w os = (r, w', os')" by (metis prod_cases3)
  from assms(2) have "e = Exit code" "ls' = ls" "m' = m\<lparr>mc_os := os'\<rparr>"
    unfolding worker_exits_def c exits_def by simp_all
  with wk_close_owns [OF assms(1) c] show ?thesis by simp
qed

text \<open>
  How a command that talks to the coordinator ends: it prints and exits, with all that it opened closed,
  or it waits for good with the handle of its connection open.
\<close>

definition worker_ended :: "Worker \<Rightarrow> Os \<Rightarrow> Machine \<Rightarrow> line list \<Rightarrow> command_end \<Rightarrow> Machine \<Rightarrow> bool" where
  "worker_ended w os m ls e m' = (case e of
      Exit code \<Rightarrow> os_open (mc_os m') = os_open os - fd_of (sk_fd (wk_sock w)) \<and>
        (if code = 0 then fst (ls ! 0) = ''worker id=%llu boot=%llu registered epoch=%llu''
         else code = 1 \<and> fst (ls ! 0) \<in> {''worker connect failed: %s'', ''worker register failed: %s''})
    | Waits \<Rightarrow> mc_idle m \<and> os_open (mc_os m') = os_open os \<and> wk_connected w
    | _ \<Rightarrow> False)"

lemma worker_exits_ended:
  assumes "worker_exits l c u os m = Some (ls, e, m')" and "wk_owns w os" and "wk_same w u"
    and "if c = 0 then fst (l ! 0) = ''worker id=%llu boot=%llu registered epoch=%llu''
      else c = 1 \<and> fst (l ! 0) \<in> {''worker connect failed: %s'', ''worker register failed: %s''}"
  shows "worker_ended w os m ls e m'"
proof -
  have "wk_owns u os" using assms(2,3) by (simp add: wk_owns_def wk_same_def sk_valid_def)
  from worker_exits_closes [OF this assms(1)] assms(3,4) show ?thesis by (simp add: wk_same_def worker_ended_def)
qed

lemma worker_waits_ended:
  "worker_waits l os m = Some (ls, e, m') \<Longrightarrow> mc_idle m \<Longrightarrow> wk_connected w \<Longrightarrow> worker_ended w os m ls e m'"
  by (auto simp: worker_waits_def worker_ended_def)

lemma worker_session_ended:
  assumes "worker_session a w os m = Some (ls, e, m')" and "wk_owns w os" and "wk_connected w"
  shows "worker_ended w os m ls e m'"
proof (cases "mc_idle m \<and> register_waits w")
  case True
  with assms(1,3) show ?thesis by (auto simp: worker_session_def intro: worker_waits_ended)
next
  case reg: False
  obtain r w1 where r: "register_self w = (r, w1)" by fastforce
  note s1 = register_self_same [OF r]
  let ?sn = "Snapshot_default\<lparr>sn_epoch := wk_epoch w1\<rparr>"
  obtain q w2 where q: "send_inventory ?sn w1 = (q, w2)" by fastforce
  note s2 = wk_same_trans [OF s1 send_inventory_same [OF q]]
  show ?thesis
  proof (cases r)
    case (Done u)
    note go = reg r q Done
    show ?thesis
    proof (cases "mc_idle m \<and> inventory_waits ?sn w1 \<or> q \<noteq> Undef \<and> mc_idle m \<and> heartbeats_wait 120 w2")
      case True
      with assms(1) go obtain l where "mc_idle m" "worker_waits l os m = Some (ls, e, m')"
        by (cases q) (auto simp: worker_session_def Let_def simp del: heartbeats_wait.simps split: if_splits)
      with assms(3) show ?thesis by (intro worker_waits_ended)
    next
      case False
      with assms(1) go obtain w3 where h: "heartbeats 120 w2 = Some w3" and
        e: "worker_exits [(''worker id=%llu boot=%llu registered epoch=%llu'',
          [PNat (unat (wa_id a)), PNat (unat (wa_boot a)), PNat (unat (id_value (wk_epoch w2)))])] 0 w3 os m = Some (ls, e, m')"
        by (cases q) (auto simp: worker_session_def Let_def simp del: heartbeats_wait.simps split: option.splits)
      from worker_exits_ended [OF e assms(2) wk_same_trans [OF s2 heartbeats_same [OF h]]] show ?thesis by simp
    qed
  next
    case (Fail c msg)
    with assms(1) r reg have "worker_exits [(''worker register failed: %s'', [PStr msg])] 1 w1 os m = Some (ls, e, m')"
      by (simp add: worker_session_def)
    from worker_exits_ended [OF this assms(2) s1] show ?thesis by simp
  qed (use assms(1) r reg in \<open>simp add: worker_session_def\<close>)
qed

lemma Worker_new_owns: "wk_owns (Worker_new i b g) os" "\<not> wk_connected (Worker_new i b g)"
  by (simp_all add: wk_owns_def Worker_new_def TcpSocket_new_def sk_valid_def)

lemma cmd_worker_ended:
  assumes "tries_fresh (mc_os m) (case mc_connect m of None \<Rightarrow> [] | Some ts \<Rightarrow> ts)"
    and "cmd_worker argv m = Some (ls, e, m')"
  shows "\<exists>w os. worker_ended w os m ls e m' \<and> os_open os = os_open (mc_os m) \<union> fd_of (sk_fd (wk_sock w)) \<and>
    fd_of (sk_fd (wk_sock w)) \<inter> os_open (mc_os m) = {} \<and> (wk_connected w \<longleftrightarrow> sk_valid (wk_sock w))"
proof -
  let ?a = "parse_worker_args (drop 2 argv) \<lparr>wa_id = 1, wa_boot = 1, wa_port = 0\<rparr>"
  let ?w = "Worker_new (StrongId (wa_id ?a)) (StrongId (wa_boot ?a)) 1"
  obtain r w os where c: "wk_connect (mc_connect m) ?w (mc_os m) = (r, w, os)" by (metis prod_cases3)
  note o = wk_connect_owns [OF assms(1) Worker_new_owns c]
  have disj: "fd_of (sk_fd (wk_sock w)) \<inter> os_open (mc_os m) = {}"
  proof -
    obtain q sk os1 where t: "tcp_connect (mc_connect m) (wk_sock ?w) (mc_os m) = (q, sk, os1)" by (metis prod_cases3)
    have "\<not> sk_valid (wk_sock ?w)" by (simp add: Worker_new_def)
    from connect_open [OF assms(1) this t] c t show ?thesis
      by (cases q) (auto simp: wk_connect_def)
  qed
  have same: "wk_same w w" by (simp add: wk_same_def)
  have owns: "wk_owns w os" using o by blast
  have "worker_ended w os m ls e m'"
  proof (cases r)
    case (Err code msg)
    with assms(2) c have "worker_exits [(''worker connect failed: %s'', [PStr msg])] 1 w os m = Some (ls, e, m')"
      by (simp add: cmd_worker_def Let_def)
    from worker_exits_ended [OF this owns same] show ?thesis by simp
  next
    case (Success u)
    with assms(2) c have "worker_session ?a w os m = Some (ls, e, m')" by (simp add: cmd_worker_def Let_def)
    from worker_session_ended [OF this owns] o Success show ?thesis by simp
  qed
  with o disj owns show ?thesis unfolding wk_owns_def by blast
qed

text \<open>A peer that stays connected and says nothing is waited for at the registration.\<close>

lemma cmd_worker_silent_peer:
  assumes "mc_idle m" and "mc_connect m = Some [Connected h [] []]" and "h \<noteq> invalid_fd"
  shows "\<exists>m'. cmd_worker argv m = Some ([], Waits, m')"
proof -
  let ?a = "parse_worker_args (drop 2 argv) \<lparr>wa_id = 1, wa_boot = 1, wa_port = 0\<rparr>"
  let ?w = "Worker_new (StrongId (wa_id ?a)) (StrongId (wa_boot ?a)) 1"
  let ?sk = "\<lparr>sk_fd = h, sk_in = [], sk_script = [], sk_out = []\<rparr>"
  have v: "sk_valid ?sk" using assms(3) by (simp add: sk_valid_def)
  then obtain os where w: "wk_connect (mc_connect m) ?w (mc_os m) = (Success (), ?w\<lparr>wk_sock := ?sk, wk_connected := True\<rparr>, os)"
    using assms(2) by (simp add: wk_connect_def tcp_connect_def Worker_new_def)
  have "register_waits (?w\<lparr>wk_sock := ?sk, wk_connected := True\<rparr>)"
    using v by (simp add: register_waits_def request_waits_silent)
  with w assms(1) show ?thesis by (simp add: cmd_worker_def worker_session_def worker_waits_def Let_def)
qed

end
