(* ===== verification/PF_Scenarios.thy ===== *)
theory PF_Scenarios
  imports PF_CliRuns
begin

text \<open>
  Concrete servers, machines and runs of the transfer engine for the witnesses of the properties in
  \<open>Spec2Isabelle\<close>. They model no code.
\<close>

section \<open>A server with one connection\<close>

definition demo_listening :: Server where
  "demo_listening = Server_new\<lparr>sv_listener := \<lparr>ls_fd = 7, ls_port = 0\<rparr>,
     sv_os := \<lparr>os_open = {7}, os_nonblocking = {}\<rparr>\<rparr>"

definition demo_accepted :: "bool \<Rightarrow> Server" where
  "demo_accepted idle = sv_accept idle (Accepted 9 [] []) (demo_listening\<lparr>sv_main := Accepting\<rparr>)"

lemma demo_start: "snd (sv_start 0 (Listening 7) Server_new) = demo_listening"
  by (simp add: sv_start_def Server_new_def TcpListener_new_def ls_valid_def ls_assign_def ls_close_def
      ls_bind_def demo_listening_def os_new_handle_def)

lemma demo_accepted_reach: "sv_reach (demo_accepted idle)"
proof -
  have start: "sv_step Server_new demo_listening"
    using own_start [of Server_new "Listening 7" 0] demo_start
    by (simp add: sv_step_def Server_new_def listen_fresh_def fresh_handle_def invalid_fd_def)
  have run: "sv_step demo_listening (demo_listening\<lparr>sv_main := LoopTest\<rparr>)"
    using own_run [of demo_listening]
    by (simp add: sv_step_def demo_listening_def Server_new_def sv_run_def ls_valid_def invalid_fd_def)
  have test: "sv_step (demo_listening\<lparr>sv_main := LoopTest\<rparr>) (demo_listening\<lparr>sv_main := Accepting\<rparr>)"
    using work_test [of "demo_listening\<lparr>sv_main := LoopTest\<rparr>"]
    by (simp add: sv_step_def demo_listening_def Server_new_def sv_loop_test_def)
  have accept: "sv_step (demo_listening\<lparr>sv_main := Accepting\<rparr>) (demo_accepted idle)"
    using work_accept [of "demo_listening\<lparr>sv_main := Accepting\<rparr>" "Accepted 9 [] []" idle]
    by (simp add: sv_step_def demo_accepted_def accept_fresh_def fresh_handle_def demo_listening_def invalid_fd_def)
  have "sv_reach Server_new" unfolding sv_reach_def by (rule reach_init) (simp add: sv_init_def)
  with start run test accept show ?thesis unfolding sv_reach_def by (meson reach_step)
qed

lemma demo_accepted_eval:
  "sv_main (demo_accepted idle) = LoopTest" "sv_listener (demo_accepted idle) = \<lparr>ls_fd = 7, ls_port = 0\<rparr>"
  "sv_threads (demo_accepted idle) = [conn_thread idle \<lparr>sk_fd = 9, sk_in = [], sk_script = [], sk_out = []\<rparr>]"
  "sv_stop (demo_accepted idle) = False" "os_open (sv_os (demo_accepted idle)) = {7, 9}"
  by (simp_all add: demo_accepted_def demo_listening_def Server_new_def sv_accept_def ls_accept_def ls_valid_def
      invalid_fd_def Let_def tcp_assign_def tcp_close_def insert_commute)

text \<open>The connection of a peer that closes it at once.\<close>

definition demo_served :: Server where
  "demo_served = demo_accepted False"

lemmas demo_served_reach = demo_accepted_reach [of False, folded demo_served_def]
lemmas demo_served_eval = demo_accepted_eval [of False, folded demo_served_def]

definition demo_stopped :: Server where
  "demo_stopped = sv_request_stop demo_served"

text \<open>The connection of a peer that stays and says nothing: its thread is in \<open>recv\<close>; then a stop.\<close>

definition demo_waiting :: Server where
  "demo_waiting = sv_request_stop ((demo_accepted True)\<lparr>sv_threads :=
     [(conn_thread True \<lparr>sk_fd = 9, sk_in = [], sk_script = [], sk_out = []\<rparr>)\<lparr>ct_phase := Waiting\<rparr>]\<rparr>)"

lemma demo_waiting_reach: "sv_reach demo_waiting"
proof -
  let ?t = "conn_thread True \<lparr>sk_fd = 9, sk_in = [], sk_script = [], sk_out = []\<rparr>"
  let ?s = "\<lambda>ph. (demo_accepted True)\<lparr>sv_threads := [?t\<lparr>ct_phase := ph\<rparr>]\<rparr>"
  have w: "read_waits (ct_sock ?t)" by (simp add: conn_thread_def read_waits_def recv_waits.simps [of 21] sk_valid_def invalid_fd_def)
  have 0: "demo_accepted True = ?s Spawned"
    using demo_accepted_eval(3) [of True] by (simp add: conn_thread_def)
  have step: "sv_step (?s ph) (?s ph')" if "ct_step False (?t\<lparr>ct_phase := ph\<rparr>) (sv_co (demo_accepted True)) (sv_os (demo_accepted True)) =
      Some (?t\<lparr>ct_phase := ph'\<rparr>, sv_co (demo_accepted True), sv_os (demo_accepted True))" for ph ph'
    using that work_thread [of 0 "?s ph" "?s ph'"] demo_accepted_eval(4) [of True]
    by (simp add: sv_step_def sv_thread_def sv_set_thread_def)
  have i: "ct_idle ?t" by (simp add: conn_thread_def)
  have steps: "sv_step (?s Spawned) (?s Testing)" "sv_step (?s Testing) (?s Reading)" "sv_step (?s Reading) (?s Waiting)"
    by (rule step, simp add: ct_step_def w i)+
  have stop: "sv_step (?s Waiting) demo_waiting"
    using own_stop [of "?s Waiting"] by (simp add: sv_step_def demo_waiting_def sv_alive_def demo_accepted_eval)
  have "sv_reach (?s Spawned)" by (subst 0 [symmetric]) (rule demo_accepted_reach)
  with steps stop show ?thesis unfolding sv_reach_def by (meson reach_step)
qed

lemma demo_waiting_eval: "sv_main demo_waiting = LoopTest" "sv_stop demo_waiting"
  "length (sv_threads demo_waiting) = 1" "ct_phase (sv_threads demo_waiting ! 0) = Waiting"
  by (simp_all add: demo_waiting_def sv_request_stop_def demo_accepted_eval)

text \<open>Its \<open>run\<close> returns and its destructor waits.\<close>

definition demo_joining :: Server where
  "demo_joining = sv_destroy (demo_waiting\<lparr>sv_main := Idle\<rparr>)"

lemma demo_waiting_work: "(sv_work ^^ 1) demo_waiting (demo_waiting\<lparr>sv_main := Idle\<rparr>)"
  using work_test [of demo_waiting] by (simp add: demo_waiting_eval sv_loop_test_def eq_OO)

lemma demo_joining_steps: "sv_step\<^sup>*\<^sup>* demo_waiting demo_joining"
proof -
  have "sv_step demo_waiting (demo_waiting\<lparr>sv_main := Idle\<rparr>)"
    using demo_waiting_work by (simp add: sv_step_def eq_OO)
  moreover have "sv_step (demo_waiting\<lparr>sv_main := Idle\<rparr>) demo_joining"
    using own_destroy [of "demo_waiting\<lparr>sv_main := Idle\<rparr>"] by (simp add: sv_step_def demo_joining_def)
  ultimately show ?thesis by (meson rtranclp.simps)
qed

lemma demo_waiting_rest: "\<not> sv_work (demo_waiting\<lparr>sv_main := Idle\<rparr>) u" and demo_joining_rest: "\<not> sv_work demo_joining u"
proof -
  have rest: "\<not> sv_work s u" if "sv_main s = Idle \<or> sv_main s = Joining" "length (sv_threads s) = 1"
    "ct_phase (sv_threads s ! 0) = Waiting" for s
  proof
    assume "sv_work s u"
    then show False
      by (cases rule: sv_work.cases)
         (use that in \<open>auto simp: all_finished_def list_all_length sv_thread_def sv_thread_throws_def ct_step_def split: if_splits\<close>)
  qed
  show "\<not> sv_work (demo_waiting\<lparr>sv_main := Idle\<rparr>) u" by (rule rest) (simp_all add: demo_waiting_eval)
  show "\<not> sv_work demo_joining u" by (rule rest) (simp_all add: demo_joining_def demo_waiting_eval)
qed

section \<open>A machine\<close>

definition demo_machine :: Machine where
  "demo_machine = \<lparr>mc_disk = Map.empty, mc_faults = demo_no_faults, mc_devices = None, mc_parent = (\<lambda>_. None),
     mc_listen = Listening 7, mc_connect = Some [Refused 5, Connected 5 [] []], mc_idle = False,
     mc_os = \<lparr>os_open = {3}, os_nonblocking = {}\<rparr>, mc_cuda = None,
     mc_held = \<lparr>ch_events = 0, ch_pinned = 0, ch_device = 0\<rparr>\<rparr>"

lemma demo_machine_tries:
  "tries_fresh (mc_os demo_machine) (case mc_connect demo_machine of None \<Rightarrow> [] | Some ts \<Rightarrow> ts)"
  by (simp add: demo_machine_def fresh_handle_def invalid_fd_def)

text \<open>The peer that accepts the connection and closes it at once.\<close>

lemma demo_worker_command: "\<exists>m'. cmd_worker [''pf'', ''worker''] demo_machine =
    Some ([(''worker register failed: %s'', [PStr ''connection closed''])], Exit 1, m')"
proof -
  let ?sk = "\<lparr>sk_fd = 5, sk_in = [], sk_script = [], sk_out = []\<rparr>"
  let ?w = "(Worker_new (StrongId 1) (StrongId 1) 1)\<lparr>wk_sock := ?sk, wk_connected := True\<rparr>"
  have c: "connect_tries [Refused 5, Connected 5 [] []] os =
      (?sk, fionbio 5 False (os_new_handle 5 (closesocket 5 (os_new_handle 5 os))))" for os
    by simp
  have v: "sk_valid ?sk" by (simp add: sk_valid_def invalid_fd_def)
  obtain os where w: "wk_connect (mc_connect demo_machine) (Worker_new (StrongId 1) (StrongId 1) 1) (mc_os demo_machine) =
      (Success (), ?w, os)"
    using v by (simp add: wk_connect_def tcp_connect_def demo_machine_def del: connect_tries.simps)
      (simp add: c Worker_new_def)
  let ?sk2 = "?sk\<lparr>sk_out := frame_encode (register_frame ?w)\<rparr>"
  have s: "write_frame (register_frame ?w) ?sk = (Success (), ?sk2)"
    using write_frame_accepting [OF v] by simp
  have "sk_valid ?sk2" by (simp add: sk_valid_def invalid_fd_def)
  then obtain sk3 where r: "read_frame ?sk2 = (Fail EC_PEER_LOST ''connection closed'', sk3)"
    using read_frame_end [of ?sk2] by auto
  have "await_ack 64 ?sk2 = await_ack (Suc 63) ?sk2" by simp
  also have "\<dots> = (Fail EC_PEER_LOST ''connection closed'', sk3)"
    by (simp only: await_ack.simps r prod.case outcome.case)
  finally have a: "await_ack 64 ?sk2 = (Fail EC_PEER_LOST ''connection closed'', sk3)" .
  have "send_and_await_ack (register_frame ?w) ?w =
      (Fail EC_PEER_LOST ''connection closed'', ?w\<lparr>wk_sock := sk3\<rparr>)"
    using s a by (simp add: send_and_await_ack_def)
  then have "register_self ?w = (Fail EC_PEER_LOST ''connection closed'', ?w\<lparr>wk_sock := sk3\<rparr>)"
    by (simp add: register_self_def)
  then show ?thesis
    using w by (simp add: cmd_worker_def worker_session_def worker_exits_def exits_def demo_machine_def split: prod.splits)
qed

text \<open>The same machine with a peer that accepts the connection, stays and says nothing.\<close>

definition demo_silent :: Machine where
  "demo_silent = demo_machine\<lparr>mc_connect := Some [Connected 5 [] []], mc_idle := True\<rparr>"

lemma demo_silent_tries:
  "tries_fresh (mc_os demo_silent) (case mc_connect demo_silent of None \<Rightarrow> [] | Some ts \<Rightarrow> ts)"
  by (simp add: demo_silent_def demo_machine_def fresh_handle_def invalid_fd_def)

lemma demo_silent_command: "\<exists>m'. cmd_worker [''pf'', ''worker''] demo_silent = Some ([], Waits, m')"
  by (rule cmd_worker_silent_peer [of _ 5]) (simp_all add: demo_silent_def invalid_fd_def)

section \<open>A device\<close>

definition demo_transfer :: TransferCalls where
  "demo_transfer = \<lparr>tt_create0 = True, tt_create1 = True, tt_copies = None, tt_synchronize = True, tt_elapsed = Some f64_1e9,
     tt_destroy0 = True, tt_destroy1 = True\<rparr>"

definition demo_device_calls :: DeviceCalls where
  "demo_device_calls = \<lparr>dc_count = Some 1, dc_pci_bus_id = None, dc_properties = None, dc_mem_info = None\<rparr>"

definition demo_calls :: CudaCalls where
  "demo_calls = \<lparr>cc_device = demo_device_calls, cc_mem_before = None, cc_host_alloc = True, cc_malloc = True,
     cc_error_text = [], cc_vectors = None, cc_pageable_h2d = demo_transfer, cc_pageable_d2h = demo_transfer,
     cc_pinned_h2d = demo_transfer, cc_pinned_d2h = demo_transfer, cc_copy_in = True, cc_synchronize = True,
     cc_copy_out = True, cc_got = (\<lambda>_. 0), cc_free = True, cc_free_host = True, cc_last_ok = True, cc_mem_after = None\<rparr>"

lemma demo_device_found: "\<exists>d. detect_device (cc_device demo_calls) = Success d"
  by (simp add: detect_device_def demo_calls_def demo_device_calls_def Let_def)

text \<open>A device without the memory asked for, and pinned memory that the runtime refuses to take back, or not.\<close>

definition demo_refused :: "bool \<Rightarrow> CudaCalls" where
  "demo_refused taken = demo_calls\<lparr>cc_malloc := False, cc_free_host := taken\<rparr>"

lemma demo_refused_returns: "\<exists>r h'. run_proof (demo_refused taken) 1024 8 h = Returns r h'"
  using demo_device_found by (auto simp: run_proof_def demo_refused_def demo_calls_def vector_throws_def Let_def)

end
