(* ===== verification/PF_Programs.thy ===== *)
theory PF_Programs
  imports PF_Runtime
begin

text \<open>
  Four of the programs in \<open>examples/\<close>: \<open>example06\<close> and \<open>example13\<close> (ranking and authority),
  \<open>example09\<close> (reservations) and \<open>example15\<close> with its diff of two snapshots. A program yields the
  calls of \<open>printf\<close> it makes, each with its format and arguments, or \<open>None\<close> where a library call has no
  value; \<open>printf_nl\<close> is a format that ends in a newline.
\<close>

datatype arg = Text string | Count nat | Number int | Real f64

type_synonym printed = "string \<times> arg list"

definition printf :: "string \<Rightarrow> arg list \<Rightarrow> printed" where
  "printf fmt as = (fmt, as)"

definition printf_nl :: "string \<Rightarrow> arg list \<Rightarrow> printed" where
  "printf_nl fmt as = (fmt @ [CHR 0x0A], as)"

definition flag :: "bool \<Rightarrow> arg" where
  "flag b = Count (if b then 1 else 0)"

definition id_arg :: "'t strong_id \<Rightarrow> arg" where
  "id_arg i = Count (unat (id_value i))"

definition path_ids_printed :: "PathId list \<Rightarrow> printed list" where
  "path_ids_printed is = map (\<lambda>i. printf '' path%llu'' [id_arg i]) is"

definition selected_arg :: "SelectionDecision \<Rightarrow> arg" where
  "selected_arg d = (case de_selected d of None \<Rightarrow> Count 0 | Some i \<Rightarrow> id_arg i)"

section \<open>Diff of snapshots\<close>

definition SnapshotDiff_default :: SnapshotDiff where
  "SnapshotDiff_default = \<lparr>sd_endpoints_appeared = [], sd_endpoints_disappeared = [], sd_generation_changed = [],
     sd_path_changed = [], sd_path_invalidated = [], sd_link_capability_changed = [], sd_measurement_changed = [],
     sd_reservation_changed = [], sd_policy_changed = [], sd_authority_rolled = False\<rparr>"

definition is_ep_kind :: "DeviceClass \<Rightarrow> bool" where
  "is_ep_kind k = (k = Dev_ACCELERATOR \<or> k = Dev_NIC \<or> k = Dev_STORAGE \<or> k = Dev_MEMORY \<or> k = Dev_OTHER)"

definition node_generations :: "Node list \<Rightarrow> (PciNodeId, u64) omap" where
  "node_generations ns = fold (\<lambda>n m. om_insert (nd_id n) (gen_value (nd_generation n)) m) ns []"

definition node_endpoints :: "Node list \<Rightarrow> (PciNodeId, Bdf) omap" where
  "node_endpoints ns = fold (\<lambda>n m. if is_ep_kind (nd_kind n) then om_insert (nd_id n) (nd_bdf n) m else m) ns []"

text \<open>\<open>std::set<PathId>\<close> as an ordered map to nothing.\<close>

definition path_id_set :: "Path list \<Rightarrow> (PathId, unit) omap" where
  "path_id_set ps = fold (\<lambda>p m. om_insert (pa_id p) () m) ps []"

definition not_in :: "('k::linorder, 'v) omap \<Rightarrow> ('k, 'w) omap \<Rightarrow> ('k \<times> 'w) list" where
  "not_in m m' = filter (\<lambda>kv. \<not> om_contains m (fst kv)) m'"

definition snapshot_diff :: "Snapshot \<Rightarrow> Snapshot \<Rightarrow> SnapshotDiff" where
  "snapshot_diff a b =
     (let agen = node_generations (sn_nodes a); bgen = node_generations (sn_nodes b);
          aep = node_endpoints (sn_nodes a); bep = node_endpoints (sn_nodes b);
          ap = path_id_set (sn_paths a); bp = path_id_set (sn_paths b)
      in SnapshotDiff_default
        \<lparr>sd_endpoints_appeared := map snd (not_in aep bep),
         sd_endpoints_disappeared := map snd (not_in bep aep),
         sd_generation_changed := map fst (filter (\<lambda>kv. case om_lookup agen (fst kv) of
             None \<Rightarrow> False | Some g \<Rightarrow> g \<noteq> snd kv) bgen),
         sd_path_changed := map fst (not_in ap bp) @ map fst (not_in bp ap)\<rparr>)"

section \<open>\<open>example15\<close>\<close>

definition ex15_add :: "u64 \<Rightarrow> Bdf \<Rightarrow> DeviceClass \<Rightarrow> u64 \<Rightarrow> Runtime \<Rightarrow> Runtime" where
  "ex15_add i bdf kind parent rt =
     snd (rt_add_endpoint (StrongId i) bdf kind (Generation 1) Prov_SYNTHETIC (StrongId parent) rt)"

definition ex15_fabric :: Runtime where
  "ex15_fabric =
     ex15_add 4 (Bdf 0 2 0 1) Dev_NIC 2
     (ex15_add 3 (Bdf 0 2 0 0) Dev_ACCELERATOR 2
     (ex15_add 2 (Bdf 0 1 0 0) Dev_BRIDGE 1
     (ex15_add 1 (Bdf 0 0 0 0) Dev_ROOT_COMPLEX 0
     (rt_set_authority (StrongId 1) (StrongId 1) (Generation 1) 1 Runtime_new))))"

definition snapshot_printed :: "string \<Rightarrow> Snapshot \<Rightarrow> printed" where
  "snapshot_printed title s = printf_nl (title @ '': nodes=%zu paths=%zu seq=%llu digest=%llu'')
     [Count (length (sn_nodes s)), Count (length (sn_paths s)), Count (unat (sn_sequence s)), Count (unat (sn_digest s))]"

definition diff_printed :: "SnapshotDiff \<Rightarrow> printed list" where
  "diff_printed d =
     printf_nl ''diff empty=%d endpoints_appeared=%zu endpoints_disappeared=%zu generation_changed=%zu path_changed=%zu''
       [flag (sd_empty d), Count (length (sd_endpoints_appeared d)), Count (length (sd_endpoints_disappeared d)),
        Count (length (sd_generation_changed d)), Count (length (sd_path_changed d))]
     # map (\<lambda>b. printf_nl ''  appeared endpoint: %s'' [Text (canonical b)]) (sd_endpoints_appeared d)"

text \<open>\<open>build_paths\<close> and \<open>snapshot\<close> in a row.\<close>

definition ex15_snapshot :: "Runtime \<Rightarrow> (Snapshot \<times> Runtime) option" where
  "ex15_snapshot rt = (case rt_build_paths rt of None \<Rightarrow> None
     | Some rt' \<Rightarrow> map_option (\<lambda>s. (s, rt')) (rt_snapshot rt'))"

definition example15 :: "printed list option" where
  "example15 = (case ex15_snapshot ex15_fabric of None \<Rightarrow> None
     | Some (s1, rt1) \<Rightarrow> (case ex15_snapshot (ex15_add 5 (Bdf 0 3 0 0) Dev_STORAGE 2 rt1) of None \<Rightarrow> None
       | Some (s2, rt2) \<Rightarrow> Some (snapshot_printed ''snapshot #1'' s1 # snapshot_printed ''snapshot #2'' s2 #
           diff_printed (snapshot_diff s1 s2))))"

section \<open>\<open>example09\<close>\<close>

definition ex09_request :: "u64 \<Rightarrow> u64 \<Rightarrow> Reservation" where
  "ex09_request i bytes =
     rs_set_request bytes (f64_lit 3000000000 1) 5000 5 (StrongId 90) (StrongId 91) ''synthetic''
       (rs_set_authority (StrongId 9) (StrongId 2) (StrongId 1) (StrongId 5) (StrongId 3) (Generation 1)
         (rs_set_path (StrongId 1) (Generation 1) (Reservation_new (StrongId i) (Generation 1))))"

definition code_arg :: "'a Result \<Rightarrow> arg" where
  "code_arg r = Count (nat (ErrorCode_value (res_code r)))"

definition example09 :: "printed list" where
  "example09 =
     (let reg0 = ReservationRegistry_new \<lparr>per_path_bytes = push_bit 30 8, max_duration = 60000\<rparr>;
          (r, reg1) = rg_reserve (ex09_request 1 (push_bit 30 1)) reg0;
          (r2, reg2) = rg_reserve (ex09_request 2 (push_bit 30 8)) reg1;
          acc = rg_validate_accounting reg2;
          (rel, reg3) = rg_release (StrongId 1) (StrongId 2) (Generation 1) (StrongId 5) reg2;
          (rel2, reg4) = rg_release (StrongId 1) (StrongId 2) (Generation 1) (StrongId 5) reg3;
          acc2 = rg_validate_accounting reg4
      in [printf_nl ''reserve #1 ok=%d active_count=%zu total_count=%zu''
            [flag (res_ok r), Count (rg_active_count reg1), Count (rg_total_count reg1)],
          printf_nl ''reserved_bytes(path1)=%llu'' [Count (unat (rg_reserved_bytes reg1 (StrongId 1)))],
          printf_nl ''reserve #2 (would overcommit) ok=%d code=%d msg=%s''
            [flag (res_ok r2), code_arg r2, Text (res_message r2)],
          printf_nl ''validate_accounting ok=%d'' [flag (res_ok acc)],
          printf_nl ''release #1 ok=%d reserved_bytes(path1)=%llu''
            [flag (res_ok rel), Count (unat (rg_reserved_bytes reg3 (StrongId 1)))],
          printf_nl ''release #2 (double) ok=%d code=%d msg=%s''
            [flag (res_ok rel2), code_arg rel2, Text (res_message rel2)],
          printf_nl ''validate_accounting after release ok=%d active_count=%zu''
            [flag (res_ok acc2), Count (rg_active_count reg4)]])"

section \<open>\<open>example06\<close> and \<open>example13\<close>\<close>

definition gib :: "f64 \<Rightarrow> f64" where
  "gib x = f64_mul (f64_mul (f64_mul x (f64_lit 1024 1)) (f64_lit 1024 1)) (f64_lit 1024 1)"

definition ex06_path :: "u64 \<Rightarrow> LocalityClass \<Rightarrow> PcieGen \<Rightarrow> u16 \<Rightarrow> f64 \<Rightarrow> ContentionState \<Rightarrow> f64 \<Rightarrow> Path" where
  "ex06_path i loc gen lanes measured_gib cont conf =
     (let p = pa_set_endpoints (StrongId 90) (StrongId 91) (Path_new (StrongId i) (Generation 1));
          p = p\<lparr>pa_class := PC_PEER_ENDPOINT_PATH, pa_locality := loc,
               pa_theoretical := Some (LinkEnvelope_new gen lanes)\<rparr>;
          p = pa_set_best_measured (gib measured_gib) Prov_MEASURED p;
          p = p\<lparr>pa_freshness := FreshnessRecord_new Fresh_CURRENT 0, pa_contention := cont,
               pa_contention_score := f64_mul conf (f64_lit 3 10), pa_confidence := conf\<rparr>;
          p = pa_set_authority (StrongId 7) (StrongId 3) (Generation 1) (Generation 1) (Generation 1) p
      in pa_add_capability Cap_PEER_ACCESS p)"

definition ex06_plain :: Path where
  "ex06_plain =
     (let p = pa_set_endpoints (StrongId 90) (StrongId 91) (Path_new (StrongId 4) (Generation 1));
          p = p\<lparr>pa_class := PC_PEER_ENDPOINT_PATH, pa_locality := Loc_SAME_SWITCH,
               pa_theoretical := Some (LinkEnvelope_new Gen_GEN3 8),
               pa_freshness := FreshnessRecord_new Fresh_CURRENT 0, pa_contention := Cont_IDLE,
               pa_confidence := f64_lit 5 10\<rparr>;
          p = pa_set_authority (StrongId 7) (StrongId 3) (Generation 1) (Generation 1) (Generation 1) p
      in pa_add_capability Cap_PEER_ACCESS p)"

definition ex06_candidates :: "Path list" where
  "ex06_candidates =
     [ex06_path 1 Loc_SAME_SWITCH Gen_GEN5 16 (f64_lit 55 1) Cont_IDLE (f64_lit 95 100),
      ex06_path 2 Loc_CROSS_NUMA Gen_GEN4 16 (f64_lit 25 1) Cont_MODERATE (f64_lit 7 10),
      ex06_path 3 Loc_SAME_ROOT_COMPLEX Gen_GEN4 8 (f64_lit 12 1) Cont_HIGH (f64_lit 6 10),
      ex06_plain]"

text \<open>\<open>SelectionRequest req;\<close> with the fields every example sets.\<close>

definition ex_request :: "u64 \<Rightarrow> u32 \<Rightarrow> SelectionRequest" where
  "ex_request epoch priority = \<lparr>rq_source = StrongId 90, rq_destination = StrongId 91, rq_payload_size = 0,
     rq_priority = priority, rq_required_capabilities = [Cap_PEER_ACCESS], rq_epoch = StrongId epoch,
     rq_boot = StrongId 3, rq_policy_generation = Generation 0, rq_want_reservation = False, rq_prefer_local = True\<rparr>"

definition example06 :: "printed list option" where
  "example06 =
     (case (rank ex06_candidates (ex_request 7 3), select ex06_candidates (ex_request 7 3)) of
        (Some ranked, Some d) \<Rightarrow> Some (
          [printf ''ranked order:'' []] @ path_ids_printed ranked @ [printf_nl '''' []] @
          [printf_nl ''decision=%s selected=%llu locality=%s measured=%.1f GiB/s theoretical=%.2f GiB/s''
             [Text (Decision_to_string (de_decision d)), selected_arg d, Text (LocalityClass_to_string (de_locality d)),
              Real (case de_measured d of None \<Rightarrow> 0 | Some b \<Rightarrow> f64_div b f64_two30),
              Real (case de_theoretical d of None \<Rightarrow> 0 | Some e \<Rightarrow> le_effective_gib e)],
           printf ''alternatives:'' []] @ path_ids_printed (de_alternatives d) @
          [printf_nl ([CHR 0x0A] @ ''binding_constraint: %s'') [Text (de_binding_constraint d)]])
      | _ \<Rightarrow> None)"

definition ex13_path :: "u64 \<Rightarrow> u64 \<Rightarrow> Freshness \<Rightarrow> ContentionState \<Rightarrow> Path" where
  "ex13_path i epoch fresh cont =
     (let p = pa_set_endpoints (StrongId 90) (StrongId 91) (Path_new (StrongId i) (Generation 1));
          p = p\<lparr>pa_class := PC_PEER_ENDPOINT_PATH, pa_locality := Loc_SAME_SWITCH,
               pa_theoretical := Some (LinkEnvelope_new Gen_GEN5 16)\<rparr>;
          p = pa_set_best_measured (gib (f64_lit 55 1)) Prov_MEASURED p;
          p = p\<lparr>pa_freshness := FreshnessRecord_new fresh 0, pa_contention := cont,
               pa_contention_score := f64_lit 5 10, pa_confidence := f64_lit 9 10\<rparr>;
          p = pa_set_authority (StrongId epoch) (StrongId 3) (Generation 1) (Generation 1) (Generation 1) p
      in pa_add_capability Cap_PEER_ACCESS p)"

definition ex13_candidates :: "Path list" where
  "ex13_candidates = [ex13_path 1 7 Fresh_CURRENT Cont_IDLE, ex13_path 2 7 Fresh_STALE Cont_IDLE,
     ex13_path 3 6 Fresh_CURRENT Cont_IDLE]"

definition example13 :: "printed list option" where
  "example13 =
     (case (select ex13_candidates (ex_request 7 0), select ex13_candidates (ex_request 8 0)) of
        (Some cur, Some nxt) \<Rightarrow> Some (
          [printf_nl ''request (epoch=7): decision=%s selected=%llu binding=[%s]''
             [Text (Decision_to_string (de_decision cur)), selected_arg cur, Text (de_binding_constraint cur)],
           printf_nl ''request (epoch=8, authority advanced): decision=%s binding=[%s]''
             [Text (Decision_to_string (de_decision nxt)), Text (de_binding_constraint nxt)],
           printf ''  eliminated:'' []] @ path_ids_printed (de_eliminated nxt) @
          [printf ''  (reasons): '' []] @ map (\<lambda>r. printf ([CHR 0x22] @ ''%s'' @ [CHR 0x22] @ '' '') [Text r]) (de_reasons nxt) @
          [printf_nl '''' []])
      | _ \<Rightarrow> None)"

section \<open>What the diff tells\<close>

lemma not_in_self [simp]: "not_in m m = []"
proof -
  have "om_contains m k" if "(k, v) \<in> set m" for k v
  proof -
    have "om_lookup m k \<noteq> None" using that unfolding om_lookup_None_iff by force
    then show ?thesis by (auto simp: om_contains_iff)
  qed
  then show ?thesis by (auto simp: not_in_def filter_empty_conv)
qed

lemma node_generations_wf: "om_wf (node_generations ns)"
proof -
  have "om_wf m \<Longrightarrow> om_wf (fold (\<lambda>n m. om_insert (nd_id n) (gen_value (nd_generation n)) m) ns m)" for m
    by (induction ns arbitrary: m) auto
  then show ?thesis by (simp add: node_generations_def)
qed

lemma same_generation: "om_wf m \<Longrightarrow> filter (\<lambda>kv. case om_lookup m (fst kv) of None \<Rightarrow> False | Some g \<Rightarrow> g \<noteq> snd kv) m = []"
  by (auto simp: filter_empty_conv om_in_set_lookup)

text \<open>A snapshot does not differ from itself, nor from one with the same nodes and the same path ids.\<close>

lemma snapshot_diff_same:
  assumes "sn_nodes a = sn_nodes b" and "map pa_id (sn_paths a) = map pa_id (sn_paths b)"
  shows "sd_empty (snapshot_diff a b)"
proof -
  have "path_id_set ps = fold (\<lambda>i m. om_insert i () m) (map pa_id ps) []" for ps
    by (simp add: path_id_set_def fold_map comp_def)
  then have "path_id_set (sn_paths a) = path_id_set (sn_paths b)" using assms(2) by simp
  with assms(1) show ?thesis
    by (simp add: snapshot_diff_def sd_empty_def SnapshotDiff_default_def same_generation [OF node_generations_wf])
qed

text \<open>What appears in one direction disappears in the other.\<close>

lemma snapshot_diff_dual:
  "sd_endpoints_appeared (snapshot_diff a b) = sd_endpoints_disappeared (snapshot_diff b a)"
  by (simp add: snapshot_diff_def Let_def)

lemma path_id_set_mem: "fst ` set (path_id_set ps) = pa_id ` set ps"
proof -
  have "fst ` set (fold (\<lambda>p m. om_insert (pa_id p) () m) ps m) = pa_id ` set ps \<union> fst ` set m" for m
    by (induction ps arbitrary: m) auto
  then show ?thesis by (simp add: path_id_set_def)
qed

lemma not_in_mem: "fst ` set (not_in m m') = fst ` set m' - fst ` set m"
proof -
  have "om_contains m k \<longleftrightarrow> k \<in> fst ` set m" for k
    using om_lookup_None_iff [of m k] by (auto simp: om_contains_iff)
  then show ?thesis by (auto simp: not_in_def)
qed

text \<open>The paths reported are those only one of the snapshots has.\<close>

lemma snapshot_diff_paths:
  "set (sd_path_changed (snapshot_diff a b)) =
     (pa_id ` set (sn_paths b) - pa_id ` set (sn_paths a)) \<union> (pa_id ` set (sn_paths a) - pa_id ` set (sn_paths b))"
  by (simp add: snapshot_diff_def Let_def image_set [symmetric] not_in_mem path_id_set_mem)

section \<open>What the programs print\<close>

lemma example09_prints:
  "example09 =
     [printf_nl ''reserve #1 ok=%d active_count=%zu total_count=%zu'' [flag True, Count 1, Count 1],
      printf_nl ''reserved_bytes(path1)=%llu'' [Count 1073741824],
      printf_nl ''reserve #2 (would overcommit) ok=%d code=%d msg=%s''
        [flag False, Count 16, Text ''reservation would overcommit path capacity''],
      printf_nl ''validate_accounting ok=%d'' [flag True],
      printf_nl ''release #1 ok=%d reserved_bytes(path1)=%llu'' [flag True, Count 0],
      printf_nl ''release #2 (double) ok=%d code=%d msg=%s'' [flag False, Count 18, Text ''reservation already released''],
      printf_nl ''validate_accounting after release ok=%d active_count=%zu'' [flag True, Count 0]]"
proof -
  let ?r1 = "rs_mark_active (ex09_request 1 1073741824)"
  let ?g0 = "ReservationRegistry_new \<lparr>per_path_bytes = 8589934592, max_duration = 60000\<rparr>"
  let ?g1 = "?g0\<lparr>rg_reservations := [(StrongId 1, ?r1)], rg_active_by_path := [(StrongId 1, 1073741824)]\<rparr>"
  let ?g2 = "?g0\<lparr>rg_reservations := [(StrongId 1, rs_mark_released ?r1)], rg_active_by_path := []\<rparr>"
  note ev = ex09_request_def Reservation_new_def rs_set_request_def rs_set_authority_def rs_set_path_def
    rs_mark_active_def rs_mark_released_def rs_active_def ReservationRegistry_new_def Let_def
  have a: "rg_reserve (ex09_request 1 1073741824) ?g0 = (Success ?r1, ?g1)"
    by (simp add: rg_reserve_def ev om_contains_def path_used_def)
  have b: "rg_reserve (ex09_request 2 8589934592) ?g1 = (Err EC_OVERCOMMIT ''reservation would overcommit path capacity'', ?g1)"
    by (simp add: rg_reserve_def ev om_contains_def path_used_def)
  have c: "rg_release (StrongId 1) (StrongId 2) (Generation 1) (StrongId 5) ?g1 = (Success (), ?g2)"
    by (simp add: rg_release_def ev path_used_def om_erase_def)
  have d: "rg_release (StrongId 1) (StrongId 2) (Generation 1) (StrongId 5) ?g2 =
      (Err EC_DUPLICATE_RELEASE ''reservation already released'', ?g2)"
    by (simp add: rg_release_def ev)
  have v: "rg_validate_accounting ?g1 = Success ()" "rg_validate_accounting ?g2 = Success ()"
    by (simp_all add: rg_validate_accounting_def path_used_def ev)
  have n: "rg_active_count ?g1 = 1" "rg_total_count ?g1 = 1" "rg_active_count ?g2 = 0"
    "rg_reserved_bytes ?g1 (StrongId 1) = 1073741824" "rg_reserved_bytes ?g2 (StrongId 1) = 0"
    by (simp_all add: rg_active_count_def rg_total_count_def rg_reserved_bytes_def path_used_def ev)
  show ?thesis
    by (simp add: example09_def a b c d v n code_arg_def ErrorCode_value_def res_code_def)
qed

text \<open>
  \<open>example13\<close>: with the epoch of the request the fresh path of that epoch is chosen; once the epoch
  has advanced every candidate is refused.
\<close>

lemmas ex13_eval = ex13_path_def pa_set_endpoints_def Path_new_def pa_set_best_measured_def pa_set_authority_def
  pa_add_capability_def pa_has_capability_def FreshnessRecord_new_def Let_def

lemma ex13_rankable: "rankable (ex13_path 1 7 Fresh_CURRENT Cont_IDLE)"
  by (simp add: rankable_def measured_u64_def theoretical_bps_def ex13_eval gib_def LinkEnvelope_new_def
      effective_bytes_per_sec_def effective_bytes_per_lane_def effective_gbps_per_lane_def signaling_gts_def
      encoding_ratio_def f64_1e9_def f64_eval)

lemma ex13_select:
  "\<exists>d. select ex13_candidates (ex_request 7 0) = Some d \<and> de_decision d = Dec_USE_PATH \<and> de_selected d = Some (StrongId 1)"
  "\<exists>d. select ex13_candidates (ex_request 8 0) = Some d \<and> de_decision d = Dec_REJECT \<and> de_selected d = None"
proof -
  let ?p = "ex13_path 1 7 Fresh_CURRENT Cont_IDLE"
  have rk: "list_all rankable [?p]" using ex13_rankable by simp
  note step = ex_request_def ex13_candidates_def sel_step_def sel_acc_empty_def path_auth_def path_cap_def
    path_fresh_def freshness_rank_def ex13_eval
  have adm: "sa_admissible (fold (sel_step (ex_request 7 0)) ex13_candidates sel_acc_empty) = [?p]"
    by (simp add: step)
  have "\<not> has_penalty ?p" by (simp add: has_penalty_def ex13_eval)
  with stable_sort_key [OF rk, of "ex_request 7 0"] adm
  show "\<exists>d. select ex13_candidates (ex_request 7 0) = Some d \<and> de_decision d = Dec_USE_PATH \<and> de_selected d = Some (StrongId 1)"
    by (simp add: select_def Let_def sel_from_pool_fields) (simp add: ex13_eval)
  have none: "sa_admissible (fold (sel_step (ex_request 8 0)) ex13_candidates sel_acc_empty) = []"
    "sa_deferred (fold (sel_step (ex_request 8 0)) ex13_candidates sel_acc_empty) = []"
    by (simp_all add: step)
  have "stable_sort (ex_request 8 0) [] = Some []"
    using stable_sort_key [of "[]" "ex_request 8 0"] by simp
  with none show "\<exists>d. select ex13_candidates (ex_request 8 0) = Some d \<and> de_decision d = Dec_REJECT \<and> de_selected d = None"
    by (simp add: select_def Let_def sel_empty_pool_def SelectionDecision_default_def)
qed

end
