(* ===== verification/PF_Hierarchies.thy ===== *)
theory PF_Hierarchies
  imports PF_Programs PF_Cuda "HOL-Library.Monad_Syntax"
begin

text \<open>
  The programs in \<open>examples/\<close> that build a small synthetic hierarchy and ask about it: \<open>example03\<close>
  (an accelerator and its root complex), \<open>example04\<close> (bridge ancestry), \<open>example05\<close> (a path to the
  host), \<open>example11\<close> (a shared switch) and \<open>example12\<close> (two root complexes). A step that throws or
  dereferences a null pointer ends the program, which is \<open>None\<close>.
\<close>

section \<open>Building a hierarchy\<close>

text \<open>\<open>value()\<close> of a result, with the state after the call.\<close>

definition valued :: "'a Result \<times> 's \<Rightarrow> ('a \<times> 's) option" where
  "valued x = map_option (\<lambda>v. (v, snd x)) (res_value (fst x))"

definition synthetic_root :: "u64 \<Rightarrow> Bdf \<Rightarrow> Topology \<Rightarrow> (PciNodeId \<times> Topology) option" where
  "synthetic_root i b t = valued (add_root_complex (StrongId i) b (Generation 1) Prov_SYNTHETIC t)"

definition synthetic_bridge :: "u64 \<Rightarrow> Bdf \<Rightarrow> PciNodeId \<Rightarrow> Topology \<Rightarrow> (PciNodeId \<times> Topology) option" where
  "synthetic_bridge i b parent t = valued (add_bridge (StrongId i) b (Generation 1) Prov_SYNTHETIC parent t)"

definition synthetic_endpoint :: "u64 \<Rightarrow> Bdf \<Rightarrow> DeviceClass \<Rightarrow> PciNodeId \<Rightarrow> Topology \<Rightarrow> PciNodeId Result \<times> Topology" where
  "synthetic_endpoint i b kind parent t = add_endpoint (StrongId i) b kind (Generation 1) Prov_SYNTHETIC parent t"

section \<open>Printing nodes\<close>

definition bdf_arg :: "Node \<Rightarrow> arg" where
  "bdf_arg n = Text (canonical (nd_bdf n))"

definition kind_arg :: "Node \<Rightarrow> arg" where
  "kind_arg n = Text (DeviceClass_to_string (nd_kind n))"

text \<open>\<open>for (auto nid : ids) { const Node* n = topo.node(nid); if (n) printf(...); }\<close>\<close>

definition nodes_printed :: "Topology \<Rightarrow> (Node \<Rightarrow> printed) \<Rightarrow> PciNodeId list \<Rightarrow> printed list" where
  "nodes_printed t line ids = List.map_filter (\<lambda>i. map_option line (tp_node t i)) ids"

definition bdf_printed :: "Node \<Rightarrow> printed" where
  "bdf_printed n = printf '' %s'' [bdf_arg n]"

text \<open>\<open>x ? topo.node(*x)->bdf.canonical() : other\<close>, undefined where the node is absent.\<close>

definition bdf_or :: "string \<Rightarrow> Topology \<Rightarrow> PciNodeId option \<Rightarrow> arg option" where
  "bdf_or other t x = (case x of None \<Rightarrow> Some (Text other) | Some i \<Rightarrow> map_option bdf_arg (tp_node t i))"

definition locality_arg :: "Topology \<Rightarrow> PciNodeId \<Rightarrow> PciNodeId \<Rightarrow> arg option" where
  "locality_arg t a b = map_option (\<lambda>l. Text (LocalityClass_to_string l)) (locality t a b)"

section \<open>\<open>example03\<close>\<close>

definition ex03_fabric :: "(PciNodeId \<times> Topology) option" where
  "ex03_fabric = do {
     (rc, t) \<leftarrow> synthetic_root 1 (Bdf 0 0 0 0) Topology_new;
     (sw, t) \<leftarrow> synthetic_bridge 2 (Bdf 0 1 0 0) rc t;
     (gpu, t) \<leftarrow> valued (synthetic_endpoint 100 (Bdf 0 2 0 0) Dev_ACCELERATOR sw t);
     let (nic, t) = synthetic_endpoint 101 (Bdf 0 2 0 1) Dev_NIC sw t;
     Some (gpu, t) }"

text \<open>Without \<open>PCIEFABRIC_HAVE_CUDA\<close> the argument is \<open>None\<close>.\<close>

definition cuda_printed :: "DeviceCalls option \<Rightarrow> printed" where
  "cuda_printed cuda = (case cuda of
      None \<Rightarrow> printf_nl ''CUDA unavailable (library built without CUDA)'' []
    | Some calls \<Rightarrow> (case detect_device calls of
        Err c m \<Rightarrow> printf_nl ''CUDA unavailable: %s (code=%d)'' [Text m, Number (ErrorCode_value c)]
      | Success d \<Rightarrow> printf_nl
          (''CUDA device present: '' @ squote ''%s'' @ '' ordinal=%d bdf=%s cc=%d.%d mem=%llu'')
          [Text (cd_name d), Number (cd_ordinal d), Text (canonical (cd_bdf d)), Number (cd_cc_major d),
           Number (cd_cc_minor d), Count (unat (cd_total_mem d))]))"

definition example03 :: "DeviceCalls option \<Rightarrow> printed list option" where
  "example03 cuda = do {
     (gpu, t) \<leftarrow> ex03_fabric;
     n \<leftarrow> tp_node t gpu;
     root \<leftarrow> (case root_complex_of t gpu of None \<Rightarrow> Some []
       | Some rc \<Rightarrow> map_option (\<lambda>m. [printf_nl ''  root complex of accelerator: node=%llu bdf=%s''
           [id_arg rc, bdf_arg m]]) (tp_node t rc));
     Some ([printf_nl ''built topology: %zu node(s), %zu endpoint(s)'' [Count (tp_size t), Count (length (endpoints t))],
         printf_nl ''resolved accelerator node: %llu (bdf=%s kind=%s)'' [id_arg gpu, bdf_arg n, kind_arg n]] @ root @
       [printf_nl ''  accelerator theoretical envelope (GEN5 x16): %.3f GiB/s'' [Real (effective_gib_per_sec Gen_GEN5 16)],
        cuda_printed cuda]) }"

section \<open>\<open>example04\<close>\<close>

definition ex04_fabric :: "((PciNodeId \<times> PciNodeId) \<times> Topology) option" where
  "ex04_fabric = do {
     (rc, t) \<leftarrow> synthetic_root 1 (Bdf 0 0 0 0) Topology_new;
     (b1, t) \<leftarrow> synthetic_bridge 2 (Bdf 0 1 0 0) rc t;
     (b2, t) \<leftarrow> synthetic_bridge 3 (Bdf 0 1 1 0) b1 t;
     (a, t) \<leftarrow> valued (synthetic_endpoint 50 (Bdf 0 2 0 0) Dev_ACCELERATOR b2 t);
     (b, t) \<leftarrow> valued (synthetic_endpoint 51 (Bdf 0 2 0 1) Dev_NIC b2 t);
     Some ((a, b), t) }"

definition example04 :: "printed list option" where
  "example04 = do {
     ((a, b), t) \<leftarrow> ex04_fabric;
     common \<leftarrow> (case common_ancestor t a b of None \<Rightarrow> Some []
       | Some ca \<Rightarrow> map_option (\<lambda>n. [printf_nl ''common ancestor of A and B: %s (kind=%s)'' [bdf_arg n, kind_arg n]])
           (tp_node t ca));
     loc \<leftarrow> locality_arg t a b;
     Some ([printf_nl ''ancestry of endpoint A (%zu nodes, including self):'' [Count (length (ancestors t a))]] @
       nodes_printed t (\<lambda>n. printf_nl ''  %-18s kind=%-12s'' [bdf_arg n, kind_arg n]) (ancestors t a) @
       common @
       [printf ''path_nodes A->B (%zu nodes):'' [Count (length (path_nodes t a b))]] @
       nodes_printed t bdf_printed (path_nodes t a b) @
       [printf_nl '''' [], printf_nl ''locality(A,B)=%s'' [loc]]) }"

section \<open>\<open>example05\<close>\<close>

definition ex05_fabric :: "((PciNodeId \<times> PciNodeId) \<times> Topology) option" where
  "ex05_fabric = do {
     (rc, t) \<leftarrow> synthetic_root 1 (Bdf 0 0 0 0) Topology_new;
     (sw, t) \<leftarrow> synthetic_bridge 2 (Bdf 0 1 0 0) rc t;
     (acc, t) \<leftarrow> valued (synthetic_endpoint 90 (Bdf 0 2 0 0) Dev_ACCELERATOR sw t);
     Some ((acc, rc), t) }"

definition ex05_path :: "(Path \<times> Topology) option" where
  "ex05_path = do {
     ((acc, rc), t) \<leftarrow> ex05_fabric;
     p \<leftarrow> build_path t (StrongId 1) (Generation 1) acc rc (StrongId 7) (StrongId 3);
     Some (p, t) }"

definition ex05_attach :: "Path \<Rightarrow> Path" where
  "ex05_attach p = pa_set_capabilities [Cap_PEER_ACCESS, Cap_GPUDIRECT]
     (p\<lparr>pa_theoretical := Some (LinkEnvelope_new Gen_GEN5 16), pa_freshness := FreshnessRecord_new Fresh_CURRENT 0\<rparr>)"

definition example05 :: "printed list option" where
  "example05 = do {
     (p, t) \<leftarrow> ex05_path;
     let q = ex05_attach p;
     e \<leftarrow> pa_theoretical q;
     Some ([printf_nl ''path id=%llu class=%s locality=%s hops=%u src=%llu dst=%llu''
         [id_arg (pa_id p), Text (PathClass_to_string (pa_class p)), Text (LocalityClass_to_string (pa_locality p)),
          Count (unat (hop_count p)), id_arg (pa_source p), id_arg (pa_destination p)],
        printf ''bridge chain:'' []] @ nodes_printed t bdf_printed (pa_bridge_chain p) @
       [printf_nl '''' [],
        printf_nl ''theoretical=%.3f GiB/s raw=%.3e B/s has_GPUDIRECT=%d''
          [Real (le_effective_gib e), Real (le_raw_bytes e), flag (pa_has_capability q Cap_GPUDIRECT)],
        printf_nl ''authority matches (epoch=7,boot=3)=%d  (epoch=8,boot=3)=%d''
          [flag (authority_matches q (StrongId 7) (StrongId 3)), flag (authority_matches q (StrongId 8) (StrongId 3))]]) }"

section \<open>\<open>example11\<close>\<close>

definition ex11_fabric :: "((PciNodeId \<times> PciNodeId \<times> PciNodeId) \<times> Topology) option" where
  "ex11_fabric = do {
     (rc, t) \<leftarrow> synthetic_root 1 (Bdf 0 0 0 0) Topology_new;
     (swa, t) \<leftarrow> synthetic_bridge 2 (Bdf 0 1 0 0) rc t;
     (swb, t) \<leftarrow> synthetic_bridge 3 (Bdf 0 1 1 0) rc t;
     (a, t) \<leftarrow> valued (synthetic_endpoint 10 (Bdf 0 2 0 0) Dev_ACCELERATOR swa t);
     (c, t) \<leftarrow> valued (synthetic_endpoint 12 (Bdf 0 2 0 1) Dev_NIC swa t);
     (b, t) \<leftarrow> valued (synthetic_endpoint 11 (Bdf 0 3 0 0) Dev_STORAGE swb t);
     Some ((a, b, c), t) }"

definition shared_printed :: "string \<Rightarrow> Topology \<Rightarrow> PciNodeId \<Rightarrow> PciNodeId \<Rightarrow> printed option" where
  "shared_printed what t a b = do {
     loc \<leftarrow> locality_arg t a b;
     sh \<leftarrow> bdf_or ''-'' t (shared_contention_node t a b);
     Some (printf_nl (what @ '': locality=%s shared=[%s]'') [loc, sh]) }"

definition example11 :: "printed list option" where
  "example11 = do {
     ((a, b, c), t) \<leftarrow> ex11_fabric;
     ac \<leftarrow> shared_printed ''endpoints A and C share switch'' t a c;
     ab \<leftarrow> shared_printed ''endpoints A and B share root complex'' t a b;
     Some ([ac, ab, printf ''path A->B (%zu nodes):'' [Count (length (path_nodes t a b))]] @
       nodes_printed t bdf_printed (path_nodes t a b) @ [printf_nl '''' []]) }"

section \<open>\<open>example12\<close>\<close>

definition ex12_fabric :: "((PciNodeId \<times> PciNodeId \<times> PciNodeId) \<times> Topology) option" where
  "ex12_fabric = do {
     (rc1, t) \<leftarrow> synthetic_root 1 (Bdf 0 0 0 0) Topology_new;
     (sw1, t) \<leftarrow> synthetic_bridge 2 (Bdf 0 1 0 0) rc1 t;
     (acc, t) \<leftarrow> valued (synthetic_endpoint 10 (Bdf 0 2 0 0) Dev_ACCELERATOR sw1 t);
     (rc2, t) \<leftarrow> synthetic_root 3 (Bdf 0 4 0 0) t;
     (sw2, t) \<leftarrow> synthetic_bridge 4 (Bdf 0 5 0 0) rc2 t;
     (nic, t) \<leftarrow> valued (synthetic_endpoint 11 (Bdf 0 6 0 0) Dev_NIC sw2 t);
     Some ((acc, nic, rc1), t) }"

definition example12 :: "printed list option" where
  "example12 = do {
     ((acc, nic, rc1), t) \<leftarrow> ex12_fabric;
     rca \<leftarrow> bdf_or ''-'' t (root_complex_of t acc);
     rcn \<leftarrow> bdf_or ''-'' t (root_complex_of t nic);
     ca \<leftarrow> bdf_or ''(none)'' t (common_ancestor t acc nic);
     loc \<leftarrow> locality_arg t acc nic;
     host \<leftarrow> locality_arg t acc rc1;
     Some ([printf_nl ''accelerator root complex: %s'' [rca], printf_nl ''NIC root complex:         %s'' [rcn],
         printf_nl ''cross-root common ancestor: %s'' [ca], printf_nl ''cross-root locality: %s'' [loc],
         printf ''cross-root path_nodes (%zu nodes):'' [Count (length (path_nodes t acc nic))]] @
       nodes_printed t bdf_printed (path_nodes t acc nic) @
       [printf_nl '''' [], printf_nl ''accelerator<->host locality: %s'' [host]]) }"

section \<open>What the programs print\<close>

text \<open>Bridge ancestry: four nodes from the endpoint to the root complex, three from one endpoint to the other.\<close>

lemma example04_prints:
  "example04 = Some [
     printf_nl ''ancestry of endpoint A (%zu nodes, including self):'' [Count 4],
     printf_nl ''  %-18s kind=%-12s'' [Text ''0000:02:00.0'', Text ''ACCELERATOR''],
     printf_nl ''  %-18s kind=%-12s'' [Text ''0000:01:01.0'', Text ''BRIDGE''],
     printf_nl ''  %-18s kind=%-12s'' [Text ''0000:01:00.0'', Text ''BRIDGE''],
     printf_nl ''  %-18s kind=%-12s'' [Text ''0000:00:00.0'', Text ''ROOT_COMPLEX''],
     printf_nl ''common ancestor of A and B: %s (kind=%s)'' [Text ''0000:01:01.0'', Text ''BRIDGE''],
     printf ''path_nodes A->B (%zu nodes):'' [Count 3], printf '' %s'' [Text ''0000:02:00.0''],
     printf '' %s'' [Text ''0000:01:01.0''], printf '' %s'' [Text ''0000:02:00.1''], printf_nl '''' [],
     printf_nl ''locality(A,B)=%s'' [Text ''SAME_SWITCH'']]"
  by code_simp

text \<open>A shared switch, and a path between two switches that climbs through the root complex.\<close>

lemma example11_prints:
  "example11 = Some [
     printf_nl ''endpoints A and C share switch: locality=%s shared=[%s]'' [Text ''SAME_SWITCH'', Text ''0000:01:00.0''],
     printf_nl ''endpoints A and B share root complex: locality=%s shared=[%s]''
       [Text ''SAME_ROOT_COMPLEX'', Text ''0000:00:00.0''],
     printf ''path A->B (%zu nodes):'' [Count 5], printf '' %s'' [Text ''0000:02:00.0''],
     printf '' %s'' [Text ''0000:01:00.0''], printf '' %s'' [Text ''0000:00:00.0''],
     printf '' %s'' [Text ''0000:01:01.0''], printf '' %s'' [Text ''0000:03:00.0''], printf_nl '''' []]"
  by code_simp

text \<open>Two root complexes have no common ancestor: the locality is unknown and the path empty.\<close>

lemma example12_prints:
  "example12 = Some [
     printf_nl ''accelerator root complex: %s'' [Text ''0000:00:00.0''],
     printf_nl ''NIC root complex:         %s'' [Text ''0000:04:00.0''],
     printf_nl ''cross-root common ancestor: %s'' [Text ''(none)''],
     printf_nl ''cross-root locality: %s'' [Text ''UNKNOWN''],
     printf ''cross-root path_nodes (%zu nodes):'' [Count 0], printf_nl '''' [],
     printf_nl ''accelerator<->host locality: %s'' [Text ''SAME_ROOT_COMPLEX'']]"
  by code_simp

text \<open>The accelerator of \<open>example03\<close> and its root complex.\<close>

definition ex03_topology :: Topology where
  "ex03_topology = snd (the ex03_fabric)"

lemma ex03_eval:
  "ex03_fabric = Some (StrongId 100, ex03_topology)" "tp_size ex03_topology = 4" "length (endpoints ex03_topology) = 2"
  "root_complex_of ex03_topology (StrongId 100) = Some (StrongId 1)"
  "map_option (\<lambda>n. (canonical (nd_bdf n), DeviceClass_to_string (nd_kind n))) (tp_node ex03_topology (StrongId 100)) =
     Some (''0000:02:00.0'', ''ACCELERATOR'')"
  "map_option (\<lambda>n. canonical (nd_bdf n)) (tp_node ex03_topology (StrongId 1)) = Some ''0000:00:00.0''"
  by code_simp+

lemma example03_prints:
  "example03 cuda = Some [
     printf_nl ''built topology: %zu node(s), %zu endpoint(s)'' [Count 4, Count 2],
     printf_nl ''resolved accelerator node: %llu (bdf=%s kind=%s)'' [Count 100, Text ''0000:02:00.0'', Text ''ACCELERATOR''],
     printf_nl ''  root complex of accelerator: node=%llu bdf=%s'' [Count 1, Text ''0000:00:00.0''],
     printf_nl ''  accelerator theoretical envelope (GEN5 x16): %.3f GiB/s'' [Real (effective_gib_per_sec Gen_GEN5 16)],
     cuda_printed cuda]"
  using ex03_eval(5,6) by (auto simp: example03_def ex03_eval(1-4) bdf_arg_def kind_arg_def id_arg_def)

text \<open>
  The path of \<open>example05\<close> runs from the accelerator through the switch to the root complex, and only
  the authority it was built with matches.
\<close>

definition ex05_topology :: Topology where
  "ex05_topology = snd (the ex05_fabric)"

lemma ex05_eval:
  "ex05_fabric = Some ((StrongId 90, StrongId 1), ex05_topology)"
  "locality ex05_topology (StrongId 90) (StrongId 1) = Some Loc_SAME_ROOT_COMPLEX"
  "compute_path_class ex05_topology (StrongId 90) (StrongId 1) = PC_ACCELERATOR_TO_HOST"
  "path_nodes ex05_topology (StrongId 90) (StrongId 1) = [StrongId 90, StrongId 2, StrongId 1]"
  "nodes_printed ex05_topology bdf_printed [StrongId 90, StrongId 2, StrongId 1] =
     [printf '' %s'' [Text ''0000:02:00.0''], printf '' %s'' [Text ''0000:01:00.0''], printf '' %s'' [Text ''0000:00:00.0'']]"
  by code_simp+

lemma example05_prints:
  "example05 = Some [
     printf_nl ''path id=%llu class=%s locality=%s hops=%u src=%llu dst=%llu''
       [Count 1, Text ''ACCELERATOR_TO_HOST'', Text ''SAME_ROOT_COMPLEX'', Count 2, Count 90, Count 1],
     printf ''bridge chain:'' [], printf '' %s'' [Text ''0000:02:00.0''], printf '' %s'' [Text ''0000:01:00.0''],
     printf '' %s'' [Text ''0000:00:00.0''], printf_nl '''' [],
     printf_nl ''theoretical=%.3f GiB/s raw=%.3e B/s has_GPUDIRECT=%d''
       [Real (effective_gib_per_sec Gen_GEN5 16), Real (raw_bytes_per_sec Gen_GEN5 16), flag True],
     printf_nl ''authority matches (epoch=7,boot=3)=%d  (epoch=8,boot=3)=%d'' [flag True, flag False]]"
proof -
  have names: "PathClass_to_string PC_ACCELERATOR_TO_HOST = ''ACCELERATOR_TO_HOST''"
    "LocalityClass_to_string Loc_SAME_ROOT_COMPLEX = ''SAME_ROOT_COMPLEX''" by code_simp+
  show ?thesis
    by (simp add: example05_def ex05_path_def ex05_attach_def build_path_def ex05_eval names Let_def id_arg_def
        hop_count_def pa_set_authority_def pa_set_endpoints_def Path_new_def pa_set_capabilities_def
        pa_add_capability_def pa_has_capability_def authority_matches_def LinkEnvelope_new_def)
qed

end
