(* ===== verification/PF_Walkthroughs.thy ===== *)
theory PF_Walkthroughs
  imports PF_Hierarchies PF_Persist PF_WinEnum
begin

text \<open>
  The programs in \<open>examples/\<close> that walk through one part of the library: \<open>example01\<close> (discovery),
  \<open>example02\<close> (addresses), \<open>example07\<close> (link envelopes), \<open>example08\<close> (measurements), \<open>example10\<close>
  (the explanation of a selection) and \<open>example14\<close> (saving and recovery). Where a program can end
  in two ways, the exit code stands beside what it prints; what Windows answers and how the calls
  of the file system end are arguments.
\<close>

section \<open>\<open>example01\<close>\<close>

text \<open>The kind printed is that of the class code, not the one the enumeration settled on.\<close>

definition raw_printed :: "RawPciDevice \<Rightarrow> printed option" where
  "raw_printed d = do {
     k \<leftarrow> classify_pci_class (rw_class_code d);
     Some (printf_nl ''  bdf=%-18s kind=%-10s vendor=%-6s device=%-6s class=%s bridge=%d parent=%s''
       [Text (canonical (rw_bdf d)), Text (DeviceClass_to_string k), Text (rw_vendor_id d), Text (rw_device_id d),
        Text (rw_class_code d), flag (rw_is_bridge d),
        Text (case rw_parent_bdf d of None \<Rightarrow> ''-'' | Some b \<Rightarrow> canonical b)]) }"

definition failed_printed :: "string \<Rightarrow> ErrorCode \<Rightarrow> string \<Rightarrow> printed" where
  "failed_printed what c m = printf_nl (what @ '' failed: %s (code=%d)'') [Text m, Number (ErrorCode_value c)]"

text \<open>The devices are enumerated twice, and may have changed in between.\<close>

definition example01 :: "SetupDevice list option \<Rightarrow> SetupDevice list option \<Rightarrow> (u32 \<Rightarrow> u32 option) \<Rightarrow>
    (printed list \<times> int) option" where
  "example01 devs1 devs2 par = do {
     devs \<leftarrow> enumerate_pci_devices devs1 par;
     case devs of Err c m \<Rightarrow> Some ([failed_printed ''enumerate_pci_devices()'' c m], 1)
     | Success list \<Rightarrow> do {
         lines \<leftarrow> those (map raw_printed list);
         topo \<leftarrow> build_topology_from_windows devs2 par;
         let found = printf_nl ''discovered %zu PCI device(s)'' [Count (length list)] # lines;
         case topo of Err c m \<Rightarrow> Some (found @ [failed_printed ''build_topology_from_windows()'' c m], 1)
         | Success t \<Rightarrow> Some (found @ [printf_nl ''topology: %zu node(s), %zu endpoint(s)''
             [Count (tp_size t), Count (length (endpoints t))]], 0) } }"

section \<open>\<open>example02\<close>\<close>

definition ex02_inputs :: "string list" where
  "ex02_inputs = [''01:00.0'', ''0000:03:1f.7'', ''0a:00.1'', ''ffff:ff:1f.0'']"

definition ex02_rejects :: "string list" where
  "ex02_rejects = [''zz:00.0'', ''01:00.9'', ''01:00'', ''1:0.0'', ''01:00:00'']"

definition identity_printed :: "string \<Rightarrow> printed list" where
  "identity_printed s = (case to_identity s of Err c m \<Rightarrow> []
     | Success i \<Rightarrow> [printf_nl ''    to_identity=%llu'' [id_arg i]])"

definition parse_printed :: "string \<Rightarrow> printed list" where
  "parse_printed s = (case Bdf_parse s of
      Err c m \<Rightarrow> [printf_nl (''parse '' @ squote ''%s'' @ '' FAILED: %s (code=%d)'') [Text s, Text m, Number (ErrorCode_value c)]]
    | Success b \<Rightarrow> printf_nl (''parse '' @ squote ''%-14s'' @ '' -> bdf='' @ squote ''%-8s'' @ '' canonical='' @
          squote ''%-18s'' @ '' domain=%u bus=%u dev=%u func=%u valid=%d'')
        [Text s, Text (bdf_string b), Text (canonical b), Count (unat (bdf_domain b)), Count (unat (bdf_bus b)),
         Count (unat (bdf_device b)), Count (unat (bdf_function b)), flag (Bdf_valid b)] # identity_printed s)"

definition reject_printed :: "string \<Rightarrow> printed" where
  "reject_printed s = (let r = Bdf_parse s in
     printf_nl (''reject '' @ squote ''%s'' @ '' -> ok=%d code=%d msg=%s'')
       [Text s, flag (res_ok r), code_arg r, Text (res_message r)])"

definition direct_printed :: "Bdf \<Rightarrow> printed" where
  "direct_printed b = printf_nl (''direct bdf_string='' @ squote ''%s'' @ '' canonical='' @ squote ''%s'' @ '' has_domain=%d'')
     [Text (bdf_string b), Text (canonical b), flag (has_domain b)]"

definition example02 :: "printed list" where
  "example02 = concat (map parse_printed ex02_inputs) @ map reject_printed ex02_rejects @ [direct_printed (Bdf 0 1 2 0)]"

section \<open>\<open>example07\<close>\<close>

definition envelope_printed :: "PcieGen \<Rightarrow> nat \<Rightarrow> printed list" where
  "envelope_printed g l = (let lanes = of_nat l in
     if \<not> lane_count_valid lanes then []
     else [printf_nl ''%-6s %-4u %-12.3f %-12.6e %-12.6e'' [Text (PcieGen_to_string g), Count l,
       Real (effective_gib_per_sec g lanes), Real (effective_bytes_per_sec g lanes), Real (raw_bytes_per_sec g lanes)]])"

definition example07 :: "printed list" where
  "example07 =
     [printf_nl ''%-6s %-4s %-12s %-12s %-12s'' [Text ''gen'', Text ''x'', Text ''GiB/s'', Text ''B/s'', Text ''raw B/s'']] @
     concat (map (\<lambda>g. concat (map (envelope_printed g) [1, 4, 8, 16]))
       [Gen_GEN1, Gen_GEN2, Gen_GEN3, Gen_GEN4, Gen_GEN5, Gen_GEN6]) @
     (let env = LinkEnvelope_new Gen_GEN4 16 in
      [printf_nl ''LinkEnvelope(GEN4 x16): valid=%d eff=%.3f GiB/s raw=%.3e B/s prov=%s''
         [flag (le_valid env), Real (le_effective_gib env), Real (le_raw_bytes env), Text (Provenance_to_string (le_provenance env))],
       printf_nl ''encoding ratio GEN1 (8b/10b)=%.4f  GEN5 (128b/130b)=%.4f''
         [Real (encoding_ratio Gen_GEN1), Real (encoding_ratio Gen_GEN5)]])"

section \<open>\<open>example08\<close>\<close>

definition ex08_new :: "u64 \<Rightarrow> u64 \<Rightarrow> u64 \<Rightarrow> u64 \<Rightarrow> Measurement" where
  "ex08_new gen bytes iters ns = Measurement_new (StrongId 1) (Generation gen) (StrongId 90) (StrongId 91) TC_PINNED_H2D
     Eng_SYNTHETIC bytes iters ns Prov_MEASURED"

definition ex08_measurement :: Measurement where
  "ex08_measurement = (ms_set_path (StrongId 7) (Generation 1) (ex08_new 1 (push_bit 30 1) 4 1000000))
     \<lparr>ms_sync_semantics := ''cudaSync'', ms_warmup_ops := 8, ms_backend_detail := ''synthetic''\<rparr>"

definition latest_printed :: "MeasurementStore \<Rightarrow> printed list" where
  "latest_printed s = (case ms_latest s (StrongId 90) (StrongId 91) TC_PINNED_H2D of None \<Rightarrow> []
     | Some m \<Rightarrow> [printf_nl ''latest: bytes=%llu throughput=%.3f GiB/s latency=%llu ns prov=%s''
         [Count (unat (ms_bytes m)), Real (throughput_gib m), Count (unat (ms_latency_ns m)),
          Text (Provenance_to_string (ms_provenance m))],
       printf_nl ''count_for_path(7)=%zu'' [Count (count_for_path s (StrongId 7))]])"

definition newer_printed :: "MeasurementStore \<Rightarrow> printed list" where
  "newer_printed s = (case ms_latest s (StrongId 90) (StrongId 91) TC_PINNED_H2D of None \<Rightarrow> []
     | Some m \<Rightarrow> [printf_nl ''latest after newer: gen=%llu throughput=%.3f GiB/s''
         [Count (unat (gen_value (ms_generation m))), Real (throughput_gib m)]])"

definition example08 :: "printed list" where
  "example08 =
     (let (r, s1) = ms_ingest ex08_measurement [];
          (r2, s2) = ms_ingest (ex08_new 1 (push_bit 30 2) 4 900000) s1;
          (r3, s3) = ms_ingest (ex08_new 2 (push_bit 30 2) 8 500000) s2
      in [printf_nl ''ingest #1 ok=%d'' [flag (res_ok r)]] @ latest_printed s1 @
         [printf_nl ''ingest same generation ok=%d code=%d msg=%s'' [flag (res_ok r2), code_arg r2, Text (res_message r2)],
          printf_nl ''ingest newer generation ok=%d'' [flag (res_ok r3)]] @ newer_printed s3 @
         [printf_nl ''store size=%zu'' [Count (ms_size s3)]])"

section \<open>\<open>example10\<close>\<close>

text \<open>\<open>make\<close> is the function of the same name in \<open>example13\<close>, with the arguments in another order.\<close>

definition ex10_make :: "u64 \<Rightarrow> ContentionState \<Rightarrow> Freshness \<Rightarrow> u64 \<Rightarrow> Path" where
  "ex10_make i cont fresh epoch = ex13_path i epoch fresh cont"

definition ex10_scenario_a :: "Path list" where
  "ex10_scenario_a = [ex10_make 1 Cont_IDLE Fresh_CURRENT 7, ex10_make 2 Cont_SATURATED Fresh_CURRENT 7,
     ex10_make 3 Cont_IDLE Fresh_STALE 7]"

definition ex10_scenario_b :: "Path list" where
  "ex10_scenario_b = [ex10_make 1 Cont_IDLE Fresh_CURRENT 6, ex10_make 2 Cont_IDLE Fresh_CURRENT 6]"

definition decision_printed :: "string \<Rightarrow> SelectionDecision \<Rightarrow> printed list" where
  "decision_printed label d =
     [printf_nl ''%s: decision=%s selected=%llu binding=[%s]''
        [Text label, Text (Decision_to_string (de_decision d)), selected_arg d, Text (de_binding_constraint d)],
      printf ''  reasons:'' []] @ map (\<lambda>r. printf '' [%s]'' [Text r]) (de_reasons d) @
     [printf ([CHR 0x0A] @ ''  alternatives:'') []] @ path_ids_printed (de_alternatives d) @
     [printf ([CHR 0x0A] @ ''  eliminated:'') []] @ path_ids_printed (de_eliminated d) @
     [printf ([CHR 0x0A] @ ''  ranked:'') []] @ path_ids_printed (de_reranked d) @ [printf_nl '''' []]"

definition example10 :: "printed list option" where
  "example10 = do {
     a \<leftarrow> select ex10_scenario_a (ex_request 7 0);
     b \<leftarrow> select ex10_scenario_b (ex_request 7 0);
     Some (decision_printed ''scenario A'' a @ decision_printed ''scenario B'' b) }"

section \<open>\<open>example14\<close>\<close>

definition ex14_fabric :: "((PciNodeId \<times> PciNodeId) \<times> Topology) option" where
  "ex14_fabric = do {
     (rc, t) \<leftarrow> synthetic_root 1 (Bdf 0 0 0 0) Topology_new;
     (sw, t) \<leftarrow> synthetic_bridge 2 (Bdf 0 1 0 0) rc t;
     (acc, t) \<leftarrow> valued (synthetic_endpoint 90 (Bdf 0 2 0 0) Dev_ACCELERATOR sw t);
     (nic, t) \<leftarrow> valued (synthetic_endpoint 91 (Bdf 0 2 0 1) Dev_NIC sw t);
     Some ((acc, nic), t) }"

definition ex14_path :: "Topology \<Rightarrow> PciNodeId \<Rightarrow> PciNodeId \<Rightarrow> Path option" where
  "ex14_path t acc nic = do {
     p \<leftarrow> build_path t (StrongId 1) (Generation 1) acc nic (StrongId 1) (StrongId 1);
     Some ((pa_set_best_measured (gib (f64_lit 55 1)) Prov_MEASURED
       (p\<lparr>pa_theoretical := Some (LinkEnvelope_new Gen_GEN5 16), pa_freshness := FreshnessRecord_new Fresh_CURRENT 0\<rparr>))
       \<lparr>pa_confidence := f64_lit 9 10\<rparr>) }"

definition ex14_measurement :: "PciNodeId \<Rightarrow> PciNodeId \<Rightarrow> Measurement" where
  "ex14_measurement acc nic = ms_set_path (StrongId 1) (Generation 1)
     (Measurement_new (StrongId 1) (Generation 1) acc nic TC_PINNED_H2D Eng_SYNTHETIC (push_bit 30 1) 4 1000000 Prov_MEASURED)"

definition ex14_snapshot :: "Snapshot option" where
  "ex14_snapshot = do {
     ((acc, nic), t) \<leftarrow> ex14_fabric;
     p \<leftarrow> ex14_path t acc nic;
     let s = Snapshot_default\<lparr>sn_epoch := StrongId 1, sn_paths := [p], sn_measurements := [ex14_measurement acc nic]\<rparr>;
     d \<leftarrow> semantic_digest s;
     Some (s\<lparr>sn_digest := d\<rparr>) }"

definition ex14_file :: string where
  "ex14_file = ''pf_ex_recovery.bin''"

text \<open>\<open>std::filesystem::file_size\<close> throws where there is no file.\<close>

definition file_size :: "disk \<Rightarrow> string \<Rightarrow> nat option" where
  "file_size d f = map_option length (d f)"

definition counts_printed :: "string \<Rightarrow> Snapshot \<Rightarrow> printed" where
  "counts_printed what s = printf_nl (what @ '': paths=%zu measurements=%zu digest=%llu'')
     [Count (length (sn_paths s)), Count (length (sn_measurements s)), Count (unat (sn_digest s))]"

definition recovered_printed :: "Snapshot \<Rightarrow> printed" where
  "recovered_printed rec = (let ps = sn_paths (mark_physical_revalidation_required rec) in
     printf_nl ''recovered freshness: any_CURRENT=%d any_REVALIDATION_REQUIRED=%d''
       [flag (list_ex (\<lambda>p. fr_state (pa_freshness p) = Fresh_CURRENT) ps),
        flag (list_ex (\<lambda>p. fr_state (pa_freshness p) = Fresh_REVALIDATION_REQUIRED) ps)])"

definition example14 :: "save_faults \<Rightarrow> disk \<Rightarrow> ((printed list \<times> int) \<times> disk) option" where
  "example14 f d = do {
     snap \<leftarrow> ex14_snapshot;
     (saved, d1) \<leftarrow> save f ex14_file snap d;
     n \<leftarrow> file_size d1 ex14_file;
     let before = [counts_printed ''pre-save'' snap,
       printf_nl ''persist::save ok=%d (%s) file_bytes=%llu'' [flag (res_ok saved), Text (res_message saved), Count n]];
     let removed = d1(ex14_file := None);
     case load ex14_file d1 of
       Undef \<Rightarrow> None
     | Fail c m \<Rightarrow> Some ((before @ [failed_printed ''persist::load'' c m], 1), removed)
     | Done rec \<Rightarrow> Some ((before @ [counts_printed ''post-load'' rec,
         printf_nl ''digest_preserved=%d'' [flag (sn_digest rec = sn_digest snap)], recovered_printed rec], 0), removed) }"

section \<open>What the programs print\<close>

text \<open>
  Discovery: the program fails exactly when one of its two enumerations does. A device whose class
  code Windows does not tell is printed with kind \<open>UNKNOWN\<close>, whatever the enumeration made of it.
\<close>

lemma those_eq_Some: "those (map f xs) = Some ys \<Longrightarrow> length ys = length xs"
  by (induction xs arbitrary: ys) (auto split: option.splits)

lemma example01_ends:
  assumes "example01 devs1 devs2 par = Some (out, code)"
  shows "(code = 0) = (devs1 \<noteq> None \<and> devs2 \<noteq> None)" and "code = 0 \<or> code = 1"
    and "devs1 = None \<Longrightarrow> out = [failed_printed ''enumerate_pci_devices()'' EC_WINDOWS_ERROR ''SetupDiGetClassDevs failed'']"
  using assms
  by (auto simp: example01_def enumerate_pci_devices_def build_topology_from_windows_def res_map_def
      Let_def split: bind_splits option.splits Result.splits)

lemma raw_printed_no_code:
  "rw_class_code d = [] \<Longrightarrow> \<exists>rest. raw_printed d = Some (printf_nl
     ''  bdf=%-18s kind=%-10s vendor=%-6s device=%-6s class=%s bridge=%d parent=%s''
     (Text (canonical (rw_bdf d)) # Text ''UNKNOWN'' # rest))"
proof -
  have "DeviceClass_to_string Dev_UNKNOWN = ''UNKNOWN''" by code_simp
  then show "rw_class_code d = [] \<Longrightarrow> ?thesis" by (simp add: raw_printed_def classify_pci_class_def printf_nl_def)
qed

text \<open>Addresses: every input parses to its address and packed identity, every reject is refused.\<close>

lemma ex02_parsed:
  "map Bdf_parse ex02_inputs = [Success (Bdf 0 1 0 0), Success (Bdf 0 3 31 7), Success (Bdf 0 10 0 1),
     Success (Bdf 0xFFFF 255 31 0)]"
  by code_simp

lemma ex02_identities:
  "map to_identity ex02_inputs = map (\<lambda>i. Success (StrongId i)) [0x1000000, 0x3001F07, 0xA000001, 0xFFFFFF001F00]"
proof -
  have "map to_identity ex02_inputs = map (res_map (\<lambda>b. StrongId (bdf_pack b))) (map Bdf_parse ex02_inputs)"
    by (simp add: to_identity_def res_map_def)
  then show ?thesis by (simp only: ex02_parsed) (simp add: res_map_def bdf_pack_def)
qed

lemma ex02_refused:
  "map (\<lambda>s. (res_code (Bdf_parse s), res_message (Bdf_parse s))) ex02_rejects =
     map (Pair EC_INVALID_BDF) [''bad bus'', ''out-of-range bus/device/function'', ''missing '' @ squote ''.'', ''bad bus'', ''bad domain'']"
  by code_simp

text \<open>Envelopes: one row for every generation and lane count, all of them valid.\<close>

lemma example07_rows:
  "length example07 = 27"
  "le_valid (LinkEnvelope_new Gen_GEN4 16)"
proof -
  show "length example07 = 27"
    by (simp add: example07_def envelope_printed_def lane_count_valid_def Let_def)
  have "f64_lt 0 (effective_bytes_per_sec Gen_GEN4 16)"
    by (rule effective_pos) (simp_all add: lane_count_valid_def gen_known_def)
  then show "le_valid (LinkEnvelope_new Gen_GEN4 16)"
    by (simp add: le_valid_def LinkEnvelope_new_def lane_count_valid_def)
qed

text \<open>Measurements: the second has the generation of the first and is refused, the third replaces it.\<close>

lemma example08_prints:
  "example08 =
     [printf_nl ''ingest #1 ok=%d'' [flag True],
      printf_nl ''latest: bytes=%llu throughput=%.3f GiB/s latency=%llu ns prov=%s''
        [Count 1073741824, Real (throughput_gib ex08_measurement), Count 0, Text ''MEASURED''],
      printf_nl ''count_for_path(7)=%zu'' [Count 1],
      printf_nl ''ingest same generation ok=%d code=%d msg=%s'' [flag False, Count 10, Text ''measurement generation not newer''],
      printf_nl ''ingest newer generation ok=%d'' [flag True],
      printf_nl ''latest after newer: gen=%llu throughput=%.3f GiB/s'' [Count 2, Real (throughput_gib (ex08_new 2 2147483648 8 500000))],
      printf_nl ''store size=%zu'' [Count 1]]"
proof -
  let ?n = "ex08_new 2 2147483648 8 500000"
  note ev = ex08_measurement_def ex08_new_def Measurement_new_def ms_set_path_def
  have a: "ms_ingest ex08_measurement [] = (Success (), [(StrongId 1, ex08_measurement)])"
    by (simp add: ms_ingest_def om_lookup_def ev)
  have b: "ms_ingest (ex08_new 1 2147483648 4 900000) [(StrongId 1, ex08_measurement)] =
      (Err EC_STALE_AUTHORITY ''measurement generation not newer'', [(StrongId 1, ex08_measurement)])"
    by (simp add: ms_ingest_def ev)
  have c: "ms_ingest ?n [(StrongId 1, ex08_measurement)] = (Success (), [(StrongId 1, ?n)])"
    by (simp add: ms_ingest_def ev word_le_nat_alt)
  have l: "ms_latest [(StrongId 1, m)] (StrongId 90) (StrongId 91) TC_PINNED_H2D = Some m"
    if "m = ex08_measurement \<or> m = ?n" for m
    using that by (auto simp: ms_latest_def latest_better_def ev)
  have f: "ms_bytes ex08_measurement = 1073741824" "ms_latency_ns ex08_measurement = 0"
    "ms_provenance ex08_measurement = Prov_MEASURED" "ms_path ex08_measurement = Some (StrongId 7)"
    "ms_generation ?n = Generation 2"
    by (simp_all add: ev)
  have p: "Provenance_to_string Prov_MEASURED = ''MEASURED''" by code_simp
  show ?thesis
    by (simp add: example08_def a b c l f p latest_printed_def newer_printed_def count_for_path_def ms_size_def
        code_arg_def ErrorCode_value_def)
qed

text \<open>
  The explanation of a selection: the saturated path is an alternative and the stale one eliminated.
  A rejection for stale authority names each path in its reasons, but lists none as eliminated.
\<close>

lemma example10_prints:
  "example10 = Some (
     [printf_nl ''%s: decision=%s selected=%llu binding=[%s]''
        [Text ''scenario A'', Text ''USE_PATH'', Count 1, Text ''best component-wise ranking''],
      printf ''  reasons:'' [], printf '' [%s]'' [Text ''selected best in component-wise order''],
      printf ([CHR 0x0A] @ ''  alternatives:'') [], printf '' path%llu'' [Count 2],
      printf ([CHR 0x0A] @ ''  eliminated:'') [], printf '' path%llu'' [Count 3],
      printf ([CHR 0x0A] @ ''  ranked:'') [], printf '' path%llu'' [Count 1], printf_nl '''' []] @
     [printf_nl ''%s: decision=%s selected=%llu binding=[%s]''
        [Text ''scenario B'', Text ''REJECT'', Count 0, Text ''stale authority (epoch/boot mismatch) on path 1''],
      printf ''  reasons:'' [], printf '' [%s]'' [Text ''stale authority (epoch/boot mismatch) on path 1''],
      printf '' [%s]'' [Text ''stale authority (epoch/boot mismatch) on path 2''],
      printf ([CHR 0x0A] @ ''  alternatives:'') [], printf ([CHR 0x0A] @ ''  eliminated:'') [],
      printf ([CHR 0x0A] @ ''  ranked:'') [], printf_nl '''' []])"
proof -
  let ?p = "ex13_path 1 7 Fresh_CURRENT Cont_IDLE" and ?rq = "ex_request 7 0"
  have n: "dec_string (Suc 0) = ''1''" "dec_string 2 = ''2''" by code_simp+
  note step = ex_request_def ex10_make_def sel_step_def sel_acc_empty_def path_auth_def path_cap_def path_fresh_def
    freshness_rank_def ex13_eval
  let ?a = "fold (sel_step ?rq) ex10_scenario_a sel_acc_empty" and ?b = "fold (sel_step ?rq) ex10_scenario_b sel_acc_empty"
  have a: "sa_admissible ?a = [?p]" "map pa_id (sa_deferred ?a) = [StrongId 2]" "sa_stale ?a = [StrongId 3]"
    "sa_eliminated ?a = []" by (simp_all add: ex10_scenario_a_def step)
  have b: "sa_admissible ?b = []" "sa_deferred ?b = []" "sa_stale ?b = []"
    "sa_reasons ?b = [''stale authority (epoch/boot mismatch) on path 1'', ''stale authority (epoch/boot mismatch) on path 2'']"
    by (simp_all add: ex10_scenario_b_def step n)
  have "list_all rankable [?p]" using ex13_rankable by simp
  from stable_sort_key [OF this, of ?rq] have sa: "select ex10_scenario_a ?rq = Some (sel_from_pool ?a ?p [])"
    by (simp add: select_def Let_def a)
  have "stable_sort ?rq [] = Some []" using stable_sort_key [of "[]" ?rq] by simp
  then have sb: "select ex10_scenario_b ?rq = Some (sel_empty_pool ?b)" by (simp add: select_def Let_def b)
  have pen: "\<not> has_penalty ?p" and i: "pa_id ?p = StrongId 1" by (simp_all add: has_penalty_def ex13_eval)
  have d: "Decision_to_string Dec_USE_PATH = ''USE_PATH''" "Decision_to_string Dec_REJECT = ''REJECT''" by code_simp+
  show ?thesis unfolding example10_def sa sb
    by (simp add: decision_printed_def sel_from_pool_def sel_empty_pool_def SelectionDecision_default_def Let_def
        pen i a b d selected_arg_def path_ids_printed_def id_arg_def)
qed

text \<open>
  Recovery: where the save succeeds the program reads back one path and one measurement with the
  digest they were saved with, and the path needs revalidation. Where the save leaves no file the
  program ends with an exception.
\<close>

definition ex14_topology :: Topology where
  "ex14_topology = snd (the ex14_fabric)"

lemma ex14_eval:
  "ex14_fabric = Some ((StrongId 90, StrongId 91), ex14_topology)"
  "locality ex14_topology (StrongId 90) (StrongId 91) = Some Loc_SAME_SWITCH"
  "compute_path_class ex14_topology (StrongId 90) (StrongId 91) = PC_ACCELERATOR_TO_NIC"
  "path_nodes ex14_topology (StrongId 90) (StrongId 91) = [StrongId 90, StrongId 2, StrongId 91]"
  "shared_contention_node ex14_topology (StrongId 90) (StrongId 91) = Some (StrongId 2)"
  by code_simp+

definition ex14_saved_path :: Path where
  "ex14_saved_path = the (ex14_path ex14_topology (StrongId 90) (StrongId 91))"

lemma ex14_saved_path:
  "ex14_path ex14_topology (StrongId 90) (StrongId 91) = Some ex14_saved_path"
  "pa_theoretical ex14_saved_path = Some (LinkEnvelope_new Gen_GEN5 16)"
  "pa_measured_bps ex14_saved_path = Some (gib (f64_lit 55 1))"
  "pa_measured_prov ex14_saved_path = Prov_MEASURED"
  "pa_freshness ex14_saved_path = FreshnessRecord_new Fresh_CURRENT 0" "pa_confidence ex14_saved_path = f64_lit 9 10"
  "pa_id ex14_saved_path = StrongId 1" "pa_bridge_chain ex14_saved_path = [StrongId 90, StrongId 2, StrongId 91]"
  "pa_links ex14_saved_path = []"
  by (simp_all add: ex14_saved_path_def ex14_path_def build_path_def ex14_eval pa_set_best_measured_def
      pa_set_authority_def pa_set_endpoints_def Path_new_def)

lemma ex14_rates:
  "f64_to_u64 (effective_bytes_per_sec Gen_GEN5 16) = Some 63015384615"
  "f64_to_u64 (throughput (ex14_measurement (StrongId 90) (StrongId 91))) = Some 1073741824000"
  "confidence_byte (f64_lit 9 10) = Some 229"
  by (simp_all add: effective_bytes_per_sec_def effective_bytes_per_lane_eval throughput_def ex14_measurement_def
      confidence_byte_def f64_255_def ms_set_path_def Measurement_new_def f64_1e9_def f64_le_def f64_ord_def f64_mag_def
      f64_eval)

definition ex14_content :: Snapshot where
  "ex14_content = Snapshot_default\<lparr>sn_epoch := StrongId 1, sn_paths := [ex14_saved_path],
     sn_measurements := [ex14_measurement (StrongId 90) (StrongId 91)]\<rparr>"

lemma ex14_content_fields:
  "sn_paths ex14_content = [ex14_saved_path]" "sn_nodes ex14_content = []" "sn_reservations ex14_content = []"
  "sn_measurements ex14_content = [ex14_measurement (StrongId 90) (StrongId 91)]" "sn_policies ex14_content = []"
  by (simp_all add: ex14_content_def Snapshot_default_def)

lemma ex14_digest: "\<exists>d. semantic_digest ex14_content = Some d"
  by (simp add: semantic_digest_def ex14_content_fields digest_path_def digest_measurement_def digest_rate_def
      ex14_saved_path LinkEnvelope_new_def ex14_rates Let_def)

lemma ex14_norm_digest: "semantic_digest (norm_snapshot ex14_content) = semantic_digest ex14_content"
proof -
  have g: "PcieGen_cast (PcieGen_code Gen_GEN5) = Gen_GEN5" by code_simp
  have "digest_path (norm_path ex14_saved_path) h = digest_path ex14_saved_path h" for h
    by (simp add: digest_path_def norm_path_def ex14_saved_path ex14_rates norm_path_with_def pa_set_authority_def
        pa_set_endpoints_def Path_new_def norm_envelope_def LinkEnvelope_new_def g cong: option.case_cong)
  moreover have "digest_measurement (norm_measurement m) h = digest_measurement m h" for m h
    by (simp add: digest_measurement_def norm_measurement_def throughput_def)
  ultimately show ?thesis
    by (simp add: semantic_digest_def norm_snapshot_def ex14_content_fields Snapshot_default_def split: option.split)
qed

lemma ex14_short: "snapshot_short ex14_content"
  by (simp add: snapshot_short_def ex14_content_fields path_short_def ex14_saved_path ex14_rates measurement_short_def
      ex14_measurement_def ms_set_path_def Measurement_new_def Provenance_valid_def Provenance_code_def
      enum_in_range_def kProvenanceNames_def)

lemma ex14_length: "length (stream_bytes ex14_content) = 258"
  by (simp add: stream_bytes_def ex14_content_fields path_bytes_def encode_path_def ex14_saved_path ex14_rates
      encode_path_length encode_measurement_length stream_magic_length ex14_measurement_def ms_set_path_def Measurement_new_def)

lemma serialize_digest: "serialize (s\<lparr>sn_digest := d\<rparr>) = serialize s"
  by (simp add: serialize_def)

definition ex14_recovered :: "u64 \<Rightarrow> printed list" where
  "ex14_recovered dig =
     [printf_nl ''pre-save: paths=%zu measurements=%zu digest=%llu'' [Count 1, Count 1, Count (unat dig)],
      printf_nl ''persist::save ok=%d (%s) file_bytes=%llu'' [flag True, Text [], Count 278],
      printf_nl ''post-load: paths=%zu measurements=%zu digest=%llu'' [Count 1, Count 1, Count (unat dig)],
      printf_nl ''digest_preserved=%d'' [flag True],
      printf_nl ''recovered freshness: any_CURRENT=%d any_REVALIDATION_REQUIRED=%d'' [flag False, flag True]]"

lemma example14_snapshot:
  "ex14_snapshot = map_option (\<lambda>d. ex14_content\<lparr>sn_digest := d\<rparr>) (semantic_digest ex14_content)"
  by (simp add: ex14_snapshot_def ex14_eval ex14_saved_path ex14_content_def Option.bind_map_option
      map_option_case bind_eq_Some_conv split: option.split)

lemma ex14_load:
  assumes "semantic_digest ex14_content = Some dig" and "d ex14_file = Some (file_bytes (stream_bytes ex14_content))"
  shows "load ex14_file d = Done ((norm_snapshot ex14_content)\<lparr>sn_digest := dig\<rparr>)"
proof -
  obtain r where "stream_body (Rd 0 (stream_bytes ex14_content)) = Done (norm_snapshot ex14_content, r)"
    using stream_body_read [OF ex14_short] by (auto simp: ex14_length unique_ids_def ex14_content_fields)
  with assms(1) have "deserialize (stream_bytes ex14_content) = Done ((norm_snapshot ex14_content)\<lparr>sn_digest := dig\<rparr>)"
    by (simp add: deserialize_def rd_run_def rd_open_def ex14_norm_digest)
  moreover have "length (stream_bytes ex14_content) < 2 ^ 64" by (simp add: ex14_length)
  ultimately show ?thesis
    using assms(2) load_body_file by (simp add: load_def file_bytes_length)
qed

lemma example14_recovers:
  assumes "save_file f ex14_file (file_bytes (stream_bytes ex14_content)) d = (Success (), d1)"
  shows "\<exists>dig. example14 f d = Some ((ex14_recovered dig, 0), d1(ex14_file := None))"
proof -
  obtain dig where dig: "semantic_digest ex14_content = Some dig" using ex14_digest by blast
  have d1: "d1 ex14_file = Some (file_bytes (stream_bytes ex14_content))" using save_file_success [OF assms] by simp
  have sn: "ex14_snapshot = Some (ex14_content\<lparr>sn_digest := dig\<rparr>)" by (simp add: example14_snapshot dig)
  have sv: "save f ex14_file (ex14_content\<lparr>sn_digest := dig\<rparr>) d = Some (Success (), d1)"
    using assms by (simp add: save_def serialize_digest serialize_bytes [OF ex14_short])
  have sz: "file_size d1 ex14_file = Some 278" by (simp add: file_size_def d1 file_bytes_length ex14_length)
  have ld: "load ex14_file d1 = Done ((norm_snapshot ex14_content)\<lparr>sn_digest := dig\<rparr>)" using dig d1 by (rule ex14_load)
  show ?thesis
    by (rule exI [of _ dig])
       (simp add: example14_def sn sv sz ld ex14_recovered_def counts_printed_def recovered_printed_def
         ex14_content_fields norm_snapshot_def Snapshot_default_def mark_physical_revalidation_required_def
         revalidate_path_def norm_path_def ex14_saved_path ex14_rates norm_path_with_def pa_set_authority_def
         FreshnessRecord_new_def)
qed

lemma example14_succeeds:
  assumes "\<not> sf_open f" and "sf_write f = None" and "\<not> sf_remove f" and "\<not> sf_rename f"
  shows "\<exists>dig d'. example14 f d = Some ((ex14_recovered dig, 0), d') \<and> d' ex14_file = None"
proof -
  obtain d1 where "save_file f ex14_file (file_bytes (stream_bytes ex14_content)) d = (Success (), d1)"
    using assms by (simp add: save_file_def Let_def)
  from example14_recovers [OF this] show ?thesis by auto
qed

lemma example14_without_file:
  assumes "sf_open f" and "d ex14_file = None"
  shows "example14 f d = None"
  using assms ex14_digest serialize_bytes [OF ex14_short]
  by (auto simp: example14_def example14_snapshot save_def serialize_digest save_file_def io_err_def file_size_def)

end
