(* ===== verification/PF_Benchmarks.thy ===== *)
theory PF_Benchmarks
  imports PF_Walkthroughs PF_Cli
begin

text \<open>
  The benchmarks in \<open>benchmarks/\<close>. Each reads a number of repetitions from its command line, repeats
  one operation of the library between two readings of the steady clock and prints what it counted.
  The seconds between the two readings are an argument of the model (\<open>elapsed\<close>), as are the outcomes
  of the file system's calls in \<open>bench06\<close>; \<open>None\<close> is an exception or undefined behaviour.
\<close>

section \<open>The frame of a benchmark\<close>

definition bench_count :: "u64 \<Rightarrow> u64 \<Rightarrow> string list \<Rightarrow> u64" where
  "bench_count standard limit argv =
     (let n = (if argc argv > 1 then strtoull (argv ! 1) else standard);
          n = (if n = 0 then 1 else n)
      in if n > limit then limit else n)"

definition bench_seconds :: "f64 \<Rightarrow> f64" where
  "bench_seconds elapsed = (if f64_le elapsed 0 then f64_lit 1 1000000000 else elapsed)"

text \<open>\<open>for (std::uint64_t i = 0; i < n; ++i)\<close>, and the same where the body may end the program.\<close>

primrec bench_loop :: "(u64 \<Rightarrow> 's \<Rightarrow> 's) \<Rightarrow> nat \<Rightarrow> 's \<Rightarrow> 's" where
  "bench_loop body 0 s = s"
| "bench_loop body (Suc k) s = body (of_nat k) (bench_loop body k s)"

definition bench_try :: "(u64 \<Rightarrow> 's \<Rightarrow> 's option) \<Rightarrow> nat \<Rightarrow> 's \<Rightarrow> 's option" where
  "bench_try body n s = bench_loop (\<lambda>i x. x \<bind> body i) n (Some s)"

definition per_second :: "u64 \<Rightarrow> f64 \<Rightarrow> f64" where
  "per_second n sec = f64_div (f64_of_nat (unat n)) sec"

definition mib :: f64 where
  "mib = f64_mul (f64_lit 1024 1) (f64_lit 1024 1)"

section \<open>\<open>bench01\<close>\<close>

definition bench01_inputs :: "string list" where
  "bench01_inputs = [''0000:01:00.0'', ''0000:03:1f.7'', ''0a:00.1'', ''ffff:ff:1f.0'']"

definition input_bytes :: u64 where
  "input_bytes = sum_list (map (\<lambda>s. of_nat (length s)) bench01_inputs)"

definition bench01_input :: "u64 \<Rightarrow> string" where
  "bench01_input i = bench01_inputs ! unat (i mod 4)"

definition bench01_body :: "u64 \<Rightarrow> u64 \<Rightarrow> u64" where
  "bench01_body i ok = (if res_ok (Bdf_parse (bench01_input i)) then ok + 1 else ok)"

definition bench01 :: "string list \<Rightarrow> f64 \<Rightarrow> printed list" where
  "bench01 argv elapsed =
     (let n = bench_count 200000 2000000 argv;
          ok = bench_loop bench01_body (unat n) 0;
          sec = bench_seconds elapsed;
          ops = f64_div (f64_of_nat (unat n)) sec;
          bytes_per_sec = f64_div (f64_mul (f64_of_nat (unat input_bytes)) (f64_of_nat (unat n))) sec
      in [printf_nl ''BDF parse/format   : %llu ops in %.3f s -> %.0f ops/s, %.1f MiB/s (input bytes)''
            [Count (unat ok), Real sec, Real ops, Real (f64_div bytes_per_sec mib)]])"

section \<open>\<open>bench02\<close>\<close>

text \<open>The hierarchy is built by the calls of \<open>example14\<close>.\<close>

definition bench02_fabric :: "((PciNodeId \<times> PciNodeId) \<times> Topology) option" where
  "bench02_fabric = ex14_fabric"

definition bench02_body :: "Topology \<Rightarrow> PciNodeId \<Rightarrow> PciNodeId \<Rightarrow> u64 \<Rightarrow> u64 \<Rightarrow> u64 option" where
  "bench02_body t a b i sink = do {
     p \<leftarrow> build_path t (StrongId (i mod 1000 + 1)) (Generation 1) a b (StrongId 7) (StrongId 3);
     Some (sink + ucast (hop_count p)) }"

definition bench02 :: "string list \<Rightarrow> f64 \<Rightarrow> printed list option" where
  "bench02 argv elapsed = do {
     ((a, b), t) \<leftarrow> bench02_fabric;
     let n = bench_count 20000 500000 argv;
     sink \<leftarrow> bench_try (bench02_body t a b) (unat n) 0;
     let sec = bench_seconds elapsed;
     Some [printf_nl ''path construction   : %llu paths in %.3f s -> %.0f paths/s (sink=%llu)''
       [Count (unat n), Real sec, Real (per_second n sec), Count (unat sink)]] }"

section \<open>\<open>bench03\<close>\<close>

definition bench03_make :: "u64 \<Rightarrow> LocalityClass \<Rightarrow> PcieGen \<Rightarrow> u16 \<Rightarrow> f64 \<Rightarrow> ContentionState \<Rightarrow> Path" where
  "bench03_make i loc gen lanes measured_gib cont =
     (let p = pa_set_endpoints (StrongId 90) (StrongId 91) (Path_new (StrongId i) (Generation 1));
          p = p\<lparr>pa_class := PC_PEER_ENDPOINT_PATH, pa_locality := loc,
               pa_theoretical := Some (LinkEnvelope_new gen lanes)\<rparr>;
          p = pa_set_best_measured (gib measured_gib) Prov_MEASURED p;
          p = p\<lparr>pa_freshness := FreshnessRecord_new Fresh_CURRENT 0, pa_contention := cont,
               pa_contention_score := f64_lit 5 10, pa_confidence := f64_lit 9 10\<rparr>;
          p = pa_set_authority (StrongId 7) (StrongId 3) (Generation 1) (Generation 1) (Generation 1) p
      in pa_add_capability Cap_PEER_ACCESS p)"

definition bench03_candidates :: "Path list" where
  "bench03_candidates =
     [bench03_make 1 Loc_SAME_SWITCH Gen_GEN5 16 (f64_lit 55 1) Cont_IDLE,
      bench03_make 2 Loc_CROSS_NUMA Gen_GEN4 16 (f64_lit 25 1) Cont_MODERATE,
      bench03_make 3 Loc_SAME_ROOT_COMPLEX Gen_GEN4 8 (f64_lit 12 1) Cont_HIGH,
      bench03_make 4 Loc_SAME_SWITCH Gen_GEN3 8 (f64_lit 7 1) Cont_LOW]"

text \<open>\<open>sink += d.selected ? d.selected->value() : 0\<close>, as in \<open>bench08\<close>.\<close>

definition select_body :: "Path list \<Rightarrow> SelectionRequest \<Rightarrow> u64 \<Rightarrow> u64 \<Rightarrow> u64 option" where
  "select_body candidates req i sink = do {
     d \<leftarrow> select candidates req;
     Some (sink + (case de_selected d of None \<Rightarrow> 0 | Some p \<Rightarrow> id_value p)) }"

definition bench03 :: "string list \<Rightarrow> f64 \<Rightarrow> printed list option" where
  "bench03 argv elapsed = do {
     let n = bench_count 100000 2000000 argv;
     sink \<leftarrow> bench_try (select_body bench03_candidates (ex_request 7 0)) (unat n) 0;
     let sec = bench_seconds elapsed;
     Some [printf_nl ''path ranking/select : %llu selects in %.3f s -> %.0f selects/s (sink=%llu)''
       [Count (unat n), Real sec, Real (per_second n sec), Count (unat sink)]] }"

section \<open>\<open>bench04\<close>\<close>

definition bench04_body :: "u64 \<Rightarrow> f64 \<Rightarrow> f64" where
  "bench04_body i sink = (let bps = effective_bytes_per_sec Gen_GEN5 16; env = LinkEnvelope_new Gen_GEN5 16
     in f64_add sink (f64_add bps (le_effective_bps env)))"

definition bench04 :: "string list \<Rightarrow> f64 \<Rightarrow> printed list" where
  "bench04 argv elapsed =
     (let n = bench_count 500000 5000000 argv;
          sink = bench_loop bench04_body (unat n) 0;
          sec = bench_seconds elapsed;
          total = f64_mul (f64_mul (f64_mul (f64_mul (f64_of_nat (unat n)) (f64_lit 2 1)) (f64_lit 1024 1)) (f64_lit 1024 1)) (f64_lit 1024 1)
      in [printf_nl ''theoretical envelope: %llu derivations in %.3f s -> %.0f ops/s, %.3f GiB/s aggregated''
            [Count (unat n), Real sec, Real (per_second n sec), Real (f64_div sink total)]])"

section \<open>\<open>bench05\<close>\<close>

definition bench05_registry :: ReservationRegistry where
  "bench05_registry = ReservationRegistry_new \<lparr>per_path_bytes = push_bit 30 16, max_duration = 60000\<rparr>"

definition bench05_request :: "u64 \<Rightarrow> Reservation" where
  "bench05_request i =
     rs_set_request (push_bit 30 1) (f64_lit 3000000000 1) 1000 5 (StrongId 90) (StrongId 91) ''bench''
       (rs_set_authority (StrongId 1) (StrongId 2) (StrongId 1) (StrongId 5) (StrongId 3) (Generation 1)
         (rs_set_path (StrongId 1) (Generation 1) (Reservation_new (StrongId (i + 1)) (Generation 1))))"

definition bench05_body :: "u64 \<Rightarrow> u64 \<times> ReservationRegistry \<Rightarrow> u64 \<times> ReservationRegistry" where
  "bench05_body i s = (case s of (ok, reg) \<Rightarrow>
     (case rg_reserve (bench05_request i) reg of (r, reg) \<Rightarrow>
        if \<not> res_ok r then (ok, reg)
        else (case rg_release (StrongId (i + 1)) (StrongId 2) (Generation 1) (StrongId 5) reg of (rel, reg) \<Rightarrow>
          (if res_ok rel then ok + 1 + 1 else ok + 1, reg))))"

definition bench05 :: "string list \<Rightarrow> f64 \<Rightarrow> printed list" where
  "bench05 argv elapsed =
     (let n = bench_count 50000 500000 argv;
          (ok, reg) = bench_loop bench05_body (unat n) (0, bench05_registry);
          sec = bench_seconds elapsed
      in [printf_nl ''reservation create/release: %llu pairs in %.3f s -> %.0f ops/s (ok=%llu)''
            [Count (unat n), Real sec, Real (per_second n sec), Count (unat ok)]])"

section \<open>\<open>bench06\<close>\<close>

definition bench06_fabric :: "((PciNodeId \<times> PciNodeId) \<times> Topology) option" where
  "bench06_fabric = ex14_fabric"

definition bench06_path :: "Topology \<Rightarrow> PciNodeId \<Rightarrow> PciNodeId \<Rightarrow> u64 \<Rightarrow> Path option" where
  "bench06_path t a b i = map_option (\<lambda>p. p\<lparr>pa_theoretical := Some (LinkEnvelope_new Gen_GEN5 16),
       pa_freshness := FreshnessRecord_new Fresh_CURRENT 0\<rparr>)
     (build_path t (StrongId (i + 1)) (Generation 1) a b (StrongId 1) (StrongId 1))"

definition bench06_measurement :: "PciNodeId \<Rightarrow> PciNodeId \<Rightarrow> u64 \<Rightarrow> Measurement" where
  "bench06_measurement a b i = ms_set_path (StrongId (i + 1)) (Generation 1)
     (Measurement_new (StrongId (i + 1)) (Generation 1) a b TC_PINNED_H2D Eng_SYNTHETIC (push_bit 30 1) 4 1000000 Prov_MEASURED)"

definition bench06_snapshot :: "Snapshot option" where
  "bench06_snapshot = do {
     ((a, b), t) \<leftarrow> bench06_fabric;
     let is = map of_nat [0..<8];
     ps \<leftarrow> those (map (bench06_path t a b) is);
     let s = Snapshot_default\<lparr>sn_epoch := StrongId 1, sn_paths := ps, sn_measurements := map (bench06_measurement a b) is\<rparr>;
     d \<leftarrow> semantic_digest s;
     Some (s\<lparr>sn_digest := d\<rparr>) }"

text \<open>The counters and the files; \<open>faults\<close> tells how the calls of each repetition end.\<close>

record bench06_state =
  b6_ok :: u64
  b6_bytes :: u64
  b6_disk :: disk

definition bench06_body :: "(u64 \<Rightarrow> save_faults) \<Rightarrow> string \<Rightarrow> Snapshot \<Rightarrow> u64 \<Rightarrow> bench06_state \<Rightarrow> bench06_state option" where
  "bench06_body faults file snap i s = do {
     (r, d) \<leftarrow> save (faults i) file snap (b6_disk s);
     if \<not> res_ok r then Some (s\<lparr>b6_disk := d\<rparr>)
     else case load file d of Undef \<Rightarrow> None
     | l \<Rightarrow> do {
         size \<leftarrow> file_size d file;
         Some (s\<lparr>b6_ok := (case l of Done _ \<Rightarrow> b6_ok s + 1 | _ \<Rightarrow> b6_ok s),
           b6_bytes := b6_bytes s + of_nat size, b6_disk := d\<rparr>) } }"

definition bench06 :: "(u64 \<Rightarrow> save_faults) \<Rightarrow> string \<Rightarrow> disk \<Rightarrow> string list \<Rightarrow> f64 \<Rightarrow> (printed list \<times> disk) option" where
  "bench06 faults file d argv elapsed = do {
     snap \<leftarrow> bench06_snapshot;
     let n = bench_count 200 2000 argv;
     s \<leftarrow> bench_try (bench06_body faults file snap) (unat n) \<lparr>b6_ok = 0, b6_bytes = 0, b6_disk = d\<rparr>;
     let sec = bench_seconds elapsed;
     Some ([printf_nl ''persistence save/load: %llu round-trips in %.3f s -> %.0f ops/s, %.1f MiB/s''
         [Count (unat n), Real sec, Real (per_second n sec),
          Real (f64_div (f64_div (f64_of_nat (unat (b6_bytes s))) sec) mib)]],
       (b6_disk s)(file := None)) }"

section \<open>\<open>bench07\<close>\<close>

text \<open>\<open>diff\<close> and \<open>is_ep_kind\<close> are the functions of \<open>example15\<close>.\<close>

definition bench07_diff :: "Snapshot \<Rightarrow> Snapshot \<Rightarrow> SnapshotDiff" where
  "bench07_diff a b = snapshot_diff a b"

definition bench07_first :: Runtime where
  "bench07_first =
     ex15_add 3 (Bdf 0 2 0 0) Dev_STORAGE 2
     (ex15_add 2 (Bdf 0 1 0 0) Dev_BRIDGE 1
     (ex15_add 1 (Bdf 0 0 0 0) Dev_ROOT_COMPLEX 0
     (rt_set_authority (StrongId 1) (StrongId 1) (Generation 1) 1 Runtime_new)))"

definition bench07_snapshots :: "(Snapshot \<times> Snapshot) option" where
  "bench07_snapshots = do {
     (s1, rt) \<leftarrow> ex15_snapshot bench07_first;
     (s2, rt) \<leftarrow> ex15_snapshot (ex15_add 4 (Bdf 0 2 0 1) Dev_NIC 2 rt);
     Some (s1, s2) }"

definition bench07_body :: "Snapshot \<Rightarrow> Snapshot \<Rightarrow> u64 \<Rightarrow> u64 \<Rightarrow> u64" where
  "bench07_body s1 s2 i sink = (let d = bench07_diff s1 s2 in
     sink + (if sd_empty d then 0 else of_nat (length (sd_endpoints_appeared d))))"

definition bench07 :: "string list \<Rightarrow> f64 \<Rightarrow> printed list option" where
  "bench07 argv elapsed = do {
     (s1, s2) \<leftarrow> bench07_snapshots;
     let n = bench_count 100000 2000000 argv;
     let sink = bench_loop (bench07_body s1 s2) (unat n) 0;
     let sec = bench_seconds elapsed;
     Some [printf_nl ''snapshot/diff         : %llu diffs in %.3f s -> %.0f diffs/s (sink=%llu)''
       [Count (unat n), Real sec, Real (per_second n sec), Count (unat sink)]] }"

section \<open>\<open>bench08\<close>\<close>

definition bench08_endpoint :: "PciNodeId \<Rightarrow> u64 \<Rightarrow> PciNodeId list \<times> Topology \<Rightarrow> (PciNodeId list \<times> Topology) option" where
  "bench08_endpoint sw i s = (case s of (eps, t) \<Rightarrow>
     map_option (\<lambda>(e, t). (eps @ [e], t))
       (valued (synthetic_endpoint (100 + i) (Bdf 0 2 (ucast (i AND 0x1f)) (ucast (drop_bit 5 i))) Dev_NIC sw t)))"

definition bench08_fabric :: "(PciNodeId list \<times> Topology) option" where
  "bench08_fabric = do {
     (rc, t) \<leftarrow> synthetic_root 1 (Bdf 0 0 0 0) Topology_new;
     (sw, t) \<leftarrow> synthetic_bridge 2 (Bdf 0 1 0 0) rc t;
     bench_try (bench08_endpoint sw) 16 ([], t) }"

definition bench08_pairs :: "PciNodeId list \<Rightarrow> (PciNodeId \<times> PciNodeId) list" where
  "bench08_pairs eps = concat (map (\<lambda>i. map (\<lambda>j. (eps ! i, eps ! j)) [i + 1..<16]) [0..<15])"

definition bench08_path :: "Topology \<Rightarrow> nat \<Rightarrow> PciNodeId \<times> PciNodeId \<Rightarrow> Path option" where
  "bench08_path t k e = map_option (\<lambda>p. p\<lparr>pa_freshness := FreshnessRecord_new Fresh_CURRENT 0, pa_contention := Cont_IDLE\<rparr>)
     (build_path t (StrongId (of_nat (k + 1))) (Generation 1) (fst e) (snd e) (StrongId 7) (StrongId 3))"

definition bench08_candidates :: "(PciNodeId list \<times> Path list) option" where
  "bench08_candidates = do {
     (eps, t) \<leftarrow> bench08_fabric;
     let es = bench08_pairs eps;
     ps \<leftarrow> those (map (\<lambda>k. bench08_path t k (es ! k)) [0..<length es]);
     Some (eps, ps) }"

definition bench08_request :: "PciNodeId list \<Rightarrow> SelectionRequest" where
  "bench08_request eps = (ex_request 7 0)\<lparr>rq_source := eps ! 0, rq_destination := eps ! 1, rq_required_capabilities := []\<rparr>"

definition bench08 :: "string list \<Rightarrow> f64 \<Rightarrow> printed list option" where
  "bench08 argv elapsed = do {
     (eps, candidates) \<leftarrow> bench08_candidates;
     let n = bench_count 200 5000 argv;
     sink \<leftarrow> bench_try (select_body candidates (bench08_request eps)) (unat n) 0;
     let sec = bench_seconds elapsed;
     Some [printf_nl ''synthetic path planning: %llu plans over %zu candidates in %.3f s -> %.0f plans/s (sink=%llu)''
       [Count (unat n), Count (length candidates), Real sec, Real (per_second n sec), Count (unat sink)]] }"

section \<open>The number of repetitions and the clock\<close>

lemma bench_count_range:
  assumes "1 \<le> limit"
  shows "1 \<le> bench_count standard limit argv \<and> bench_count standard limit argv \<le> limit"
proof -
  have "1 \<le> n" if "n \<noteq> 0" for n :: u64
  proof -
    have "unat n \<noteq> 0" using that by (simp only: unsigned_eq_0_iff not_False_eq_True)
    then show ?thesis by (simp add: word_le_nat_alt)
  qed
  with assms show ?thesis by (auto simp: bench_count_def Let_def not_less)
qed

text \<open>The divisor of every rate is positive, so a clock that did not advance divides by no zero.\<close>

lemma bench_seconds_pos:
  assumes "\<not> f64_is_nan elapsed"
  shows "f64_lt 0 (bench_seconds elapsed)"
proof (cases "f64_le elapsed 0")
  case True
  have "f64_lt 0 (f64_lit 1 1000000000)" unfolding f64_lt_zero_eval by (simp add: f64_ord_def f64_mag_def f64_eval)
  with True show ?thesis by (simp add: bench_seconds_def)
next
  case False
  have "\<not> f64_is_nan 0" "f64_ord 0 = 0" by (simp_all add: f64_ord_def f64_mag_def f64_eval)
  with False assms show ?thesis by (simp add: bench_seconds_def f64_le_def f64_lt_zero_eval)
qed

lemma bench_loop_const:
  assumes "\<And>i s. body i s = s + (c :: u64)"
  shows "bench_loop body n s = s + of_nat n * c"
  by (induction n) (simp_all add: assms algebra_simps)

lemma bench_try_const:
  assumes "\<And>i s. body i s = Some (s + (c :: u64))"
  shows "bench_try body n s = Some (s + of_nat n * c)"
  unfolding bench_try_def by (induction n) (simp_all add: assms algebra_simps)

lemma bench_try_Suc: "bench_try body (Suc n) s = bench_try body n s \<bind> body (of_nat n)"
  by (simp add: bench_try_def)

lemma bench_try_0 [simp]: "bench_try body 0 s = Some s"
  by (simp add: bench_try_def)

lemma those_total: "(\<And>x. x \<in> set xs \<Longrightarrow> f x \<noteq> None) \<Longrightarrow> those (map f xs) = Some (map (\<lambda>x. the (f x)) xs)"
proof (induction xs)
  case (Cons x xs)
  then obtain y where "f x = Some y" by auto
  with Cons show ?case by simp
qed simp

section \<open>\<open>bench01\<close>: four times the bytes\<close>

lemma bench01_parses: "list_all (\<lambda>s. res_ok (Bdf_parse s)) bench01_inputs"
  by code_simp

lemma mod4_less: "unat ((i :: u64) mod 4) < 4"
  using word_mod_less_divisor [of 4 i] by (simp add: word_less_nat_alt)

lemma bench01_all_parsed: "bench_loop bench01_body n 0 = of_nat n"
proof -
  have "bench01_body i s = s + 1" for i s
  proof -
    have "bench01_input i \<in> set bench01_inputs"
      unfolding bench01_input_def using mod4_less [of i] by (intro nth_mem) (simp add: bench01_inputs_def)
    with bench01_parses show ?thesis by (simp add: bench01_body_def list_all_iff)
  qed
  then show ?thesis using bench_loop_const [of bench01_body 1 n 0] by simp
qed

text \<open>
  The bytes the first \<open>n\<close> repetitions parse. The program multiplies the length of all four inputs by
  \<open>n\<close>, while a repetition parses one of them.
\<close>

definition bench01_parsed :: "nat \<Rightarrow> nat" where
  "bench01_parsed n = (\<Sum>i<n. length (bench01_inputs ! (i mod 4)))"

lemma bench01_input_nat: "n < 2 ^ 64 \<Longrightarrow> bench01_input (of_nat n) = bench01_inputs ! (n mod 4)"
  by (simp add: bench01_input_def unat_mod unat_of_nat take_bit_nat_eq_self)

lemma input_bytes_eq: "unat input_bytes = 43"
  by (simp add: input_bytes_def bench01_inputs_def)

lemma bench01_rate_fourfold: "4 * bench01_parsed (4 * k) = unat input_bytes * (4 * k)"
proof (induction k)
  case (Suc k)
  let ?f = "\<lambda>i. length (bench01_inputs ! (i mod 4))"
  have "{..<4 * Suc k} = {..<4 * k} \<union> {4 * k, 4 * k + 1, 4 * k + 2, 4 * k + 3}" by auto
  then have "bench01_parsed (4 * Suc k) = bench01_parsed (4 * k) + (?f (4 * k) + ?f (4 * k + 1) + ?f (4 * k + 2) + ?f (4 * k + 3))"
    unfolding bench01_parsed_def by (simp add: sum.union_disjoint)
  moreover have "(4 * k + 1) mod 4 = 1" "(4 * k + 2) mod 4 = 2" "(4 * k + 3) mod 4 = 3" by presburger+
  ultimately show ?case using Suc by (simp add: input_bytes_eq bench01_inputs_def)
qed (simp add: bench01_parsed_def)

section \<open>The sinks\<close>

text \<open>\<open>bench02\<close>: every path built has two hops.\<close>

lemma bench02_sink:
  "bench02_fabric = Some ((StrongId 90, StrongId 91), ex14_topology)"
  "bench_try (bench02_body ex14_topology (StrongId 90) (StrongId 91)) n 0 = Some (of_nat n * 2)"
proof -
  show "bench02_fabric = Some ((StrongId 90, StrongId 91), ex14_topology)" by (simp add: bench02_fabric_def ex14_eval)
  have "bench02_body ex14_topology (StrongId 90) (StrongId 91) i s = Some (s + 2)" for i s
    by (simp add: bench02_body_def build_path_def ex14_eval hop_count_def pa_set_authority_def pa_set_endpoints_def Path_new_def)
  then show "bench_try (bench02_body ex14_topology (StrongId 90) (StrongId 91)) n 0 = Some (of_nat n * 2)"
    using bench_try_const [of _ 2 n 0] by simp
qed

text \<open>The selections of \<open>bench03\<close> and \<open>bench08\<close> are all the same.\<close>

lemma select_body_sink:
  assumes "select candidates req = Some d"
  shows "bench_try (select_body candidates req) n 0 = Some (of_nat n * (case de_selected d of None \<Rightarrow> 0 | Some p \<Rightarrow> id_value p))"
  using bench_try_const [of "select_body candidates req" _ n 0] assms by (simp add: select_body_def)

lemmas bench03_eval = bench03_make_def pa_set_endpoints_def Path_new_def pa_set_best_measured_def pa_set_authority_def
  pa_add_capability_def pa_has_capability_def FreshnessRecord_new_def Let_def

lemma bench03_measured:
  "f64_to_u64 (gib (f64_lit 55 1)) = Some 59055800320" "f64_to_u64 (gib (f64_lit 25 1)) = Some 26843545600"
  "f64_to_u64 (gib (f64_lit 12 1)) = Some 12884901888" "f64_to_u64 (gib (f64_lit 7 1)) = Some 7516192768"
  by (simp_all add: gib_def f64_eval)

lemma bench03_theoretical:
  "\<not> f64_is_nan (effective_bytes_per_sec Gen_GEN5 16)" "\<not> f64_is_nan (effective_bytes_per_sec Gen_GEN4 16)"
  "\<not> f64_is_nan (effective_bytes_per_sec Gen_GEN4 8)" "\<not> f64_is_nan (effective_bytes_per_sec Gen_GEN3 8)"
  "\<not> f64_is_nan (f64_lit 9 10)"
  by (simp_all add: effective_bytes_per_sec_def effective_bytes_per_lane_eval f64_eval)

lemma bench03_rankable: "list_all rankable bench03_candidates"
  by (simp add: bench03_candidates_def rankable_def measured_u64_def theoretical_bps_def bench03_make_def LinkEnvelope_new_def
    pa_set_endpoints_def Path_new_def pa_set_best_measured_def pa_set_authority_def
    pa_add_capability_def bench03_measured bench03_theoretical del: One_nat_def)

definition bench03_order :: "Path list" where
  "bench03_order = map (\<lambda>i. bench03_candidates ! i) [0, 3, 2, 1]"

lemma bench03_sorted: "sort_key (rank_key (ex_request 7 0)) bench03_candidates = bench03_order"
  by (simp add: bench03_candidates_def bench03_order_def rank_key_def path_adm_def path_auth_def path_fresh_def path_cap_def
      measured_u64_def bench03_eval bench03_measured ex_request_def freshness_rank_def locality_rank_def less_eq_prod_def
      del: One_nat_def)

lemma bench03_selects: "\<exists>d. select bench03_candidates (ex_request 7 0) = Some d \<and> de_selected d = Some (StrongId 1)"
proof -
  have adm: "sa_admissible (fold (sel_step (ex_request 7 0)) bench03_candidates sel_acc_empty) = bench03_candidates"
    by (simp add: bench03_candidates_def sel_step_def sel_acc_empty_def path_auth_def path_fresh_def path_cap_def
        bench03_eval ex_request_def freshness_rank_def)
  obtain rest where "bench03_order = bench03_candidates ! 0 # rest" by (simp add: bench03_order_def)
  then have "stable_sort (ex_request 7 0) bench03_candidates = Some (bench03_candidates ! 0 # rest)"
    using stable_sort_key [OF bench03_rankable, of "ex_request 7 0"] by (simp add: bench03_sorted)
  moreover have "pa_id (bench03_candidates ! 0) = StrongId 1" by (simp add: bench03_candidates_def bench03_eval)
  ultimately show ?thesis
    using adm by (simp add: select_def Let_def sel_from_pool_fields)
qed

lemma bench03_sink: "bench_try (select_body bench03_candidates (ex_request 7 0)) n 0 = Some (of_nat n)"
  using bench03_selects select_body_sink [of bench03_candidates "ex_request 7 0"] by force

section \<open>\<open>bench05\<close>: the registry drains\<close>

lemmas bench05_eval = bench05_request_def Reservation_new_def rs_set_request_def rs_set_authority_def rs_set_path_def
  rs_mark_active_def rs_mark_released_def

text \<open>After \<open>n\<close> repetitions the registry holds \<open>n\<close> released reservations and no bytes.\<close>

lemma bench05_run:
  assumes "n < 2 ^ 64"
  shows "\<exists>reg. bench_loop bench05_body n (0, bench05_registry) = (2 * of_nat n, reg) \<and> rg_active_by_path reg = [] \<and>
    rg_limits reg = rg_limits bench05_registry \<and> om_wf (rg_reservations reg) \<and>
    fst ` set (rg_reservations reg) = (\<lambda>i. StrongId (of_nat i)) ` {1..n} \<and>
    (\<forall>k r. om_lookup (rg_reservations reg) k = Some r \<longrightarrow> rs_released r)"
  using assms
proof (induction n)
  case 0
  show ?case by (simp add: bench05_registry_def ReservationRegistry_new_def)
next
  case (Suc n)
  then obtain reg where reg: "bench_loop bench05_body n (0, bench05_registry) = (2 * of_nat n, reg)"
    "rg_active_by_path reg = []" "rg_limits reg = rg_limits bench05_registry" "om_wf (rg_reservations reg)"
    "fst ` set (rg_reservations reg) = (\<lambda>i. StrongId (of_nat i)) ` {1..n}"
    "\<And>k r. om_lookup (rg_reservations reg) k = Some r \<Longrightarrow> rs_released r" by auto
  let ?k = "StrongId (of_nat n + 1) :: ReservationId"
  let ?a = "rs_mark_active (bench05_request (of_nat n))"
  have "of_nat n + 1 \<noteq> (of_nat i :: u64)" if "i \<in> {1..n}" for i
  proof
    assume "of_nat n + 1 = (of_nat i :: u64)"
    then have "unat (of_nat (Suc n) :: u64) = unat (of_nat i :: u64)" by (simp add: add.commute)
    with that Suc.prems show False by (simp add: unat_of_nat take_bit_nat_eq_self del: of_nat_Suc)
  qed
  then have "?k \<notin> fst ` set (rg_reservations reg)" unfolding reg(5) by blast
  then have new: "om_lookup (rg_reservations reg) ?k = None" by (simp add: om_lookup_None_iff)
  let ?reg = "reg\<lparr>rg_reservations := om_insert ?k (rs_mark_released ?a) (om_insert ?k ?a (rg_reservations reg)),
    rg_active_by_path := []\<rparr>"
  have step: "bench05_body (of_nat n) (ok, reg) = (ok + 1 + 1, ?reg)" for ok
    using new reg(2,3)
    by (simp add: bench05_body_def rg_reserve_def rg_release_def om_contains_def path_used_def bench05_eval Let_def om_erase_def rs_active_def
        bench05_registry_def ReservationRegistry_new_def)
  have "bench_loop bench05_body (Suc n) (0, bench05_registry) = (2 * of_nat (Suc n), ?reg)"
    by (simp add: reg(1) step)
  moreover have "fst ` set (rg_reservations ?reg) = (\<lambda>i. StrongId (of_nat i)) ` {1..Suc n}"
    by (simp add: reg(5) atLeastAtMostSuc_conv add.commute)
  moreover have "rs_released r" if "om_lookup (rg_reservations ?reg) k = Some r" for k r
    using that reg(6) by (auto simp: rs_mark_released_def split: if_splits)
  ultimately show ?case using reg(3,4) by (intro exI [of _ ?reg]) auto
qed

section \<open>\<open>bench06\<close>: a failed save counts as a round trip\<close>

lemma bench06_paths:
  "\<exists>p. bench06_path ex14_topology (StrongId 90) (StrongId 91) i = Some p \<and> pa_theoretical p = Some (LinkEnvelope_new Gen_GEN5 16) \<and>
     pa_confidence p = f64_lit 1 2 \<and> pa_bridge_chain p = [StrongId 90, StrongId 2, StrongId 91] \<and> pa_links p = []"
  by (simp add: bench06_path_def build_path_def ex14_eval pa_set_authority_def pa_set_endpoints_def Path_new_def)

lemma bench06_rates:
  "f64_to_u64 (throughput (bench06_measurement (StrongId 90) (StrongId 91) i)) = Some 1073741824000"
  "confidence_byte (f64_lit 1 2) \<noteq> None"
  by (simp_all add: throughput_def bench06_measurement_def confidence_byte_def f64_255_def ms_set_path_def
      Measurement_new_def f64_1e9_def f64_le_def f64_ord_def f64_mag_def f64_eval)

lemma bench06_writable: "\<exists>s. bench06_snapshot = Some s \<and> snapshot_short s"
proof -
  obtain ixs :: "u64 list" where ixs_def: "ixs = map of_nat [0..<8]" by blast
  let ?ps = "map (\<lambda>i. the (bench06_path ex14_topology (StrongId 90) (StrongId 91) i)) ixs"
  let ?ms = "map (bench06_measurement (StrongId 90) (StrongId 91)) ixs"
  let ?s = "Snapshot_default\<lparr>sn_epoch := StrongId 1, sn_paths := ?ps, sn_measurements := ?ms\<rparr>"
  have ps: "those (map (bench06_path ex14_topology (StrongId 90) (StrongId 91)) ixs) = Some ?ps"
    using bench06_paths by (intro those_total) force
  have p: "pa_theoretical p = Some (LinkEnvelope_new Gen_GEN5 16) \<and> path_short p \<and> confidence_byte (pa_confidence p) \<noteq> None"
    if mem: "p \<in> set ?ps" for p
  proof -
    obtain i where i: "p = the (bench06_path ex14_topology (StrongId 90) (StrongId 91) i)" using mem by auto
    from bench06_paths [of i] i bench06_rates(2) show ?thesis by (auto simp: path_short_def)
  qed
  have m: "f64_to_u64 (throughput m) \<noteq> None \<and> measurement_short m" if "m \<in> set ?ms" for m
    using that bench06_rates(1)
    by (auto simp: measurement_short_def bench06_measurement_def ms_set_path_def Measurement_new_def Provenance_valid_def
        Provenance_code_def enum_in_range_def kProvenanceNames_def)
  have "digest_path q h \<noteq> None" if "q \<in> set ?ps" for q h
    using p [OF that] by (simp add: digest_path_def Let_def digest_rate_def LinkEnvelope_new_def ex14_rates(1))
  moreover have "digest_measurement q h \<noteq> None" if "q \<in> set ?ms" for q h
    using m [OF that] by (simp add: digest_measurement_def Let_def digest_rate_def)
  ultimately obtain d where d: "semantic_digest ?s = Some d"
    using digest_defined [of ?s] by (auto simp: Snapshot_default_def)
  have "bench06_snapshot = Some (?s\<lparr>sn_digest := d\<rparr>)"
    unfolding bench06_snapshot_def bench06_fabric_def ex14_eval(1) ixs_def [symmetric] using ps d by simp
  moreover have "snapshot_short (?s\<lparr>sn_digest := d\<rparr>)"
    using p m by (simp add: snapshot_short_def list_all_iff Snapshot_default_def del: set_map)
  ultimately show ?thesis by blast
qed

text \<open>Where no save can open its file the line printed still claims \<open>n\<close> round trips, and no file is touched.\<close>

lemma bench06_failed_saves:
  assumes "\<forall>i. sf_open (faults i)" and "bench_count 200 2000 argv = n"
  shows "bench06 faults file d argv elapsed = Some
    ([printf_nl ''persistence save/load: %llu round-trips in %.3f s -> %.0f ops/s, %.1f MiB/s''
       [Count (unat n), Real (bench_seconds elapsed), Real (per_second n (bench_seconds elapsed)),
        Real (f64_div (f64_div (f64_of_nat 0) (bench_seconds elapsed)) mib)]], d(file := None))"
proof -
  obtain s where s: "bench06_snapshot = Some s" "snapshot_short s" using bench06_writable by blast
  let ?z = "\<lparr>b6_ok = 0, b6_bytes = 0, b6_disk = d\<rparr>"
  have "bench06_body faults file s i ?z = Some ?z" for i
    using assms(1) s(2) by (simp add: bench06_body_def save_def serialize_bytes save_file_def io_err_def)
  then have "bench_try (bench06_body faults file s) k ?z = Some ?z" for k
    by (induction k) (simp_all add: bench_try_Suc)
  then show ?thesis unfolding bench06_def s(1) assms(2) by (simp add: Let_def)
qed

section \<open>\<open>bench07\<close>: one endpoint appears\<close>


lemma run_jobs_plain:
  "run_jobs t e b jobs ps = Some ps' \<Longrightarrow> \<forall>p \<in> snd ` set ps. pa_theoretical p = None \<Longrightarrow>
   \<forall>p \<in> snd ` set ps'. pa_theoretical p = None"
proof (induction jobs arbitrary: ps)
  case (Cons job jobs)
  then obtain p where p: "build_job t e b job = Some p" "run_jobs t e b jobs (om_insert (pa_id p) p ps) = Some ps'"
    by (auto split: option.splits)
  have "pa_theoretical p = None"
    using p(1) by (cases job) (auto simp: build_job_def build_path_def pa_set_authority_def pa_set_endpoints_def Path_new_def split: option.splits)
  with Cons.prems(2) have "\<forall>q \<in> snd ` set (om_insert (pa_id p) p ps). pa_theoretical q = None"
    using om_insert_mem by fastforce
  from Cons.IH [OF p(2) this] show ?case .
qed simp

lemma ex15_snapshot_total:
  assumes "rt_inv rt" and "list_all (\<lambda>p. pa_theoretical p = None) (rt_all_paths rt)" and "ms_all (rt_measurements rt) = []"
  shows "\<exists>s rt'. ex15_snapshot rt = Some (s, rt') \<and> sn_nodes s = List.map_filter (tp_node (rt_topology rt)) (all_nodes (rt_topology rt)) \<and>
    rt_inv rt' \<and> list_all (\<lambda>p. pa_theoretical p = None) (rt_all_paths rt') \<and>
    ms_all (rt_measurements rt') = [] \<and> rt_topology rt' = rt_topology rt"
proof -
  obtain ps where ps: "run_jobs (rt_topology rt) (rt_epoch rt) (rt_boot rt) (path_jobs (rt_topology rt)) (rt_paths rt) = Some ps"
    using run_jobs_total assms(1) by (force simp: rt_inv_def)
  let ?rt = "rt\<lparr>rt_paths := ps\<rparr>"
  have plain: "list_all (\<lambda>p. pa_theoretical p = None) (rt_all_paths ?rt)"
    using run_jobs_plain [OF ps] assms(2) by (simp add: rt_all_paths_def list_all_iff)
  then obtain s where s: "rt_snapshot ?rt = Some s"
    using rt_snapshot_total [of ?rt] assms(3) by (auto simp: list_all_iff)
  have b: "rt_build_paths rt = Some ?rt" by (simp add: rt_build_paths_def ps)
  have "rt_inv ?rt" by (rule rt_inv_step [OF assms(1)]) (rule rt_step_build [OF b])
  with s b plain assms(3) snapshot_of_fields show ?thesis
    by (intro exI [of _ s] exI [of _ ?rt]) (auto simp: ex15_snapshot_def rt_snapshot_def)
qed

lemma bench07_appeared:
  "map snd (not_in (node_endpoints (List.map_filter (tp_node (rt_topology bench07_first)) (all_nodes (rt_topology bench07_first))))
     (node_endpoints (let t = rt_topology (ex15_add 4 (Bdf 0 2 0 1) Dev_NIC 2 bench07_first) in List.map_filter (tp_node t) (all_nodes t)))) =
   [Bdf 0 2 0 1]"
  by code_simp

lemma ex15_add_inv: "rt_inv rt \<Longrightarrow> rt_inv (ex15_add i bdf kind parent rt)"
  unfolding ex15_add_def by (erule rt_inv_step) (rule rt_step_endpoint)

lemma ex15_add_rest:
  "rt_paths (ex15_add i bdf kind parent rt) = rt_paths rt"
  "rt_measurements (ex15_add i bdf kind parent rt) = rt_measurements rt"
  by (simp_all add: ex15_add_def rt_add_endpoint_def split_beta)

lemma ex15_add_topology:
  "rt_topology rt = rt_topology rt' \<Longrightarrow> rt_topology (ex15_add i bdf kind parent rt) = rt_topology (ex15_add i bdf kind parent rt')"
  by (simp add: ex15_add_def rt_add_endpoint_def split_beta)

lemma bench07_snapshots_diff:
  "\<exists>s1 s2. bench07_snapshots = Some (s1, s2) \<and> sd_endpoints_appeared (bench07_diff s1 s2) = [Bdf 0 2 0 1]"
proof -
  have "rt_inv (rt_set_authority (StrongId 1) (StrongId 1) (Generation 1) 1 Runtime_new)"
    by (rule rt_inv_step [OF rt_inv_new]) (rule rt_step_authority)
  then have inv: "rt_inv bench07_first" unfolding bench07_first_def by (intro ex15_add_inv)
  have "rt_all_paths bench07_first = []" "ms_all (rt_measurements bench07_first) = []"
    by (simp_all add: bench07_first_def ex15_add_rest rt_all_paths_def rt_set_authority_def Runtime_new_def ms_all_def)
  then obtain s1 rt1 where s1: "ex15_snapshot bench07_first = Some (s1, rt1)"
    "sn_nodes s1 = List.map_filter (tp_node (rt_topology bench07_first)) (all_nodes (rt_topology bench07_first))"
    "rt_inv rt1" "list_all (\<lambda>p. pa_theoretical p = None) (rt_all_paths rt1)" "ms_all (rt_measurements rt1) = []"
    "rt_topology rt1 = rt_topology bench07_first"
    using ex15_snapshot_total [OF inv] by auto
  let ?rt = "ex15_add 4 (Bdf 0 2 0 1) Dev_NIC 2 rt1"
  obtain s2 rt2 where s2: "ex15_snapshot ?rt = Some (s2, rt2)"
    "sn_nodes s2 = List.map_filter (tp_node (rt_topology ?rt)) (all_nodes (rt_topology ?rt))"
    using ex15_snapshot_total [OF ex15_add_inv [OF s1(3)], of 4 "Bdf 0 2 0 1" Dev_NIC 2] s1(4,5)
    by (auto simp: ex15_add_rest rt_all_paths_def)
  have "bench07_snapshots = Some (s1, s2)" by (simp add: bench07_snapshots_def s1(1) s2(1))
  moreover have "sd_endpoints_appeared (bench07_diff s1 s2) = [Bdf 0 2 0 1]"
    using bench07_appeared
    by (simp add: bench07_diff_def snapshot_diff_def Let_def s1(2) s2(2) ex15_add_topology [OF s1(6)])
  ultimately show ?thesis by blast
qed

text \<open>The one endpoint that appeared is counted in every repetition.\<close>

lemma bench07_sink:
  "\<exists>s1 s2. bench07_snapshots = Some (s1, s2) \<and> bench_loop (bench07_body s1 s2) n 0 = of_nat n"
proof -
  obtain s1 s2 where s: "bench07_snapshots = Some (s1, s2)" "sd_endpoints_appeared (bench07_diff s1 s2) = [Bdf 0 2 0 1]"
    using bench07_snapshots_diff by blast
  then have "bench07_body s1 s2 i sink = sink + 1" for i sink
    by (simp add: bench07_body_def sd_empty_def)
  then have "bench_loop (bench07_body s1 s2) n 0 = of_nat n" using bench_loop_const [of "bench07_body s1 s2" 1 n 0] by simp
  with s(1) show ?thesis by blast
qed

section \<open>\<open>bench08\<close>: the same plan every time\<close>

definition bench08_topology :: Topology where
  "bench08_topology = snd (the bench08_fabric)"

definition bench08_endpoints :: "PciNodeId list" where
  "bench08_endpoints = map (\<lambda>i. StrongId (of_nat (100 + i))) [0..<16]"

lemma bench08_eval:
  "map_option (\<lambda>(eps, t). (eps, list_all (\<lambda>e. tp_parent t e = Some (StrongId 2)) eps,
       tp_parent t (StrongId 2), tp_parent t (StrongId 1), map_option nd_kind (tp_node t (StrongId 2)))) bench08_fabric =
     Some (bench08_endpoints, True, Some (StrongId 1), None, Some Dev_BRIDGE)"
  by code_simp

lemma bench08_fabric_eval:
  "bench08_fabric = Some (bench08_endpoints, bench08_topology)"
  "list_all (\<lambda>e. tp_parent bench08_topology e = Some (StrongId 2)) bench08_endpoints"
  "tp_parent bench08_topology (StrongId 2) = Some (StrongId 1)" "tp_parent bench08_topology (StrongId 1) = None"
  "map_option nd_kind (tp_node bench08_topology (StrongId 2)) = Some Dev_BRIDGE"
proof -
  obtain t where t: "bench08_fabric = Some (bench08_endpoints, t)"
    "list_all (\<lambda>e. tp_parent t e = Some (StrongId 2)) bench08_endpoints" "tp_parent t (StrongId 2) = Some (StrongId 1)"
    "tp_parent t (StrongId 1) = None" "map_option nd_kind (tp_node t (StrongId 2)) = Some Dev_BRIDGE"
    using bench08_eval by auto
  moreover have "bench08_topology = t" by (simp add: bench08_topology_def t(1))
  ultimately show "bench08_fabric = Some (bench08_endpoints, bench08_topology)"
    "list_all (\<lambda>e. tp_parent bench08_topology e = Some (StrongId 2)) bench08_endpoints"
    "tp_parent bench08_topology (StrongId 2) = Some (StrongId 1)" "tp_parent bench08_topology (StrongId 1) = None"
    "map_option nd_kind (tp_node bench08_topology (StrongId 2)) = Some Dev_BRIDGE" by simp_all
qed

lemma bench08_ancestors: "e \<in> set bench08_endpoints \<Longrightarrow> ancestors bench08_topology e = [e, StrongId 2, StrongId 1]"
  using bench08_fabric_eval(2-4) by (intro chain_ancestors) (auto simp: list_all_iff)

lemma bench08_endpoint_ids:
  assumes "i < 16"
  shows "bench08_endpoints ! i = StrongId (of_nat (100 + i))" and "bench08_endpoints ! i \<in> set bench08_endpoints"
    and "bench08_endpoints ! i \<notin> {StrongId 1, StrongId 2}"
  using assms by (auto simp: bench08_endpoints_def word_unat_eq_iff unat_of_nat take_bit_nat_eq_self simp del: of_nat_add)

lemma bench08_locality:
  assumes "i < j" and "j < 16"
  shows "locality bench08_topology (bench08_endpoints ! i) (bench08_endpoints ! j) = Some Loc_SAME_SWITCH"
proof -
  let ?e = "bench08_endpoints ! i" and ?f = "bench08_endpoints ! j"
  have i: "i < 16" using assms by simp
  have "?e \<noteq> ?f"
    using assms bench08_endpoint_ids(1) [OF i] bench08_endpoint_ids(1) [OF assms(2)]
    by (auto simp: word_unat_eq_iff unat_of_nat take_bit_nat_eq_self simp del: of_nat_add)
  moreover have "ancestors bench08_topology ?e = [?e, StrongId 2, StrongId 1]"
    "ancestors bench08_topology ?f = [?f, StrongId 2, StrongId 1]"
    using bench08_ancestors bench08_endpoint_ids(2) i assms(2) by blast+
  moreover obtain n where "om_lookup (tp_nodes bench08_topology) (StrongId 2) = Some n" "nd_kind n = Dev_BRIDGE"
    using bench08_fabric_eval(5) by (auto simp: tp_node_def)
  ultimately show ?thesis
    using bench08_endpoint_ids(3) [OF i] by (simp add: locality_def common_ancestor_def)
qed

text \<open>Every candidate can be chosen, and they rank by their endpoints and ids.\<close>

definition bench08_candidate :: "Path \<Rightarrow> bool" where
  "bench08_candidate p = (rankable p \<and> is_admissible (bench08_request bench08_endpoints) p \<and>
     rank_key (bench08_request bench08_endpoints) p = (0, 0, locality_rank Loc_SAME_SWITCH, 0, - f64_ord 0,
       contention_rank Cont_IDLE, - f64_ord (f64_lit 1 2), pa_source p, pa_destination p, pa_id p))"

lemma bench08_path_candidate:
  assumes "i < j" and "j < 16"
  shows "\<exists>p. bench08_path bench08_topology k (bench08_endpoints ! i, bench08_endpoints ! j) = Some p \<and>
    bench08_candidate p \<and> pa_source p = bench08_endpoints ! i \<and> pa_destination p = bench08_endpoints ! j \<and>
    pa_id p = StrongId (of_nat (k + 1))"
proof -
  have nan: "\<not> f64_is_nan 0" "\<not> f64_is_nan (f64_lit 1 2)" by (simp_all add: f64_eval)
  show ?thesis
    by (simp add: bench08_path_def build_path_def bench08_locality [OF assms] pa_set_authority_def pa_set_endpoints_def
        Path_new_def bench08_candidate_def rankable_def rank_key_def path_adm_def path_auth_def path_fresh_def path_cap_def
        measured_u64_def theoretical_bps_def bench08_request_def ex_request_def FreshnessRecord_new_def
        freshness_rank_def sel_classes nan del: One_nat_def)
qed

lemma bench08_pairs_mem:
  "e \<in> set (bench08_pairs eps) \<Longrightarrow> \<exists>i j. i < j \<and> j < 16 \<and> e = (eps ! i, eps ! j)"
  unfolding bench08_pairs_def by clarsimp (metis Suc_le_lessD)

lemma bench08_pairs_length: "length (bench08_pairs eps) = 120"
  by (simp add: bench08_pairs_def length_concat comp_def upt_rec)

lemma bench08_pairs_hd: "bench08_pairs eps ! 0 = (eps ! 0, eps ! 1)"
  by (simp add: bench08_pairs_def upt_rec)

definition bench08_paths :: "Path list" where
  "bench08_paths = map (\<lambda>k. the (bench08_path bench08_topology k (bench08_pairs bench08_endpoints ! k))) [0..<120]"

lemma bench08_paths_at:
  assumes "k < 120"
  shows "\<exists>i j. i < j \<and> j < 16 \<and> bench08_path bench08_topology k (bench08_pairs bench08_endpoints ! k) = Some (bench08_paths ! k) \<and>
    bench08_candidate (bench08_paths ! k) \<and> pa_source (bench08_paths ! k) = bench08_endpoints ! i \<and>
    pa_destination (bench08_paths ! k) = bench08_endpoints ! j \<and> pa_id (bench08_paths ! k) = StrongId (of_nat (k + 1))"
proof -
  have "bench08_pairs bench08_endpoints ! k \<in> set (bench08_pairs bench08_endpoints)"
    using assms by (simp add: bench08_pairs_length)
  then obtain i j where ij: "i < j" "j < 16" "bench08_pairs bench08_endpoints ! k = (bench08_endpoints ! i, bench08_endpoints ! j)"
    using bench08_pairs_mem by blast
  obtain p where p: "bench08_path bench08_topology k (bench08_endpoints ! i, bench08_endpoints ! j) = Some p" "bench08_candidate p"
    "pa_source p = bench08_endpoints ! i" "pa_destination p = bench08_endpoints ! j" "pa_id p = StrongId (of_nat (k + 1))"
    using bench08_path_candidate [OF ij(1,2), of k] by blast
  have "bench08_paths ! k = p" using assms by (simp add: bench08_paths_def ij(3) p(1))
  with ij p show ?thesis by (intro exI [of _ i] exI [of _ j]) simp
qed

lemma bench08_built: "bench08_candidates = Some (bench08_endpoints, bench08_paths)" "length bench08_paths = 120"
proof -
  have "bench08_path bench08_topology k (bench08_pairs bench08_endpoints ! k) \<noteq> None" if "k \<in> set [0..<120]" for k
    using bench08_paths_at [of k] that by auto
  from those_total [of "[0..<120]" "\<lambda>k. bench08_path bench08_topology k (bench08_pairs bench08_endpoints ! k)", OF this]
  show "bench08_candidates = Some (bench08_endpoints, bench08_paths)"
    by (simp add: bench08_candidates_def bench08_fabric_eval(1) bench08_pairs_length bench08_paths_def)
qed (simp add: bench08_paths_def)

text \<open>The first path built, the one of the first two endpoints, is selected.\<close>

lemma bench08_selects:
  "\<exists>d. select bench08_paths (bench08_request bench08_endpoints) = Some d \<and> de_selected d = Some (StrongId 1)"
proof -
  let ?rq = "bench08_request bench08_endpoints" and ?p = "bench08_paths ! 0"
  have cand: "bench08_candidate p" if "p \<in> set bench08_paths" for p
    using that bench08_paths_at by (auto simp: in_set_conv_nth bench08_built(2))
  then have rk: "list_all rankable bench08_paths" by (auto simp: list_all_iff bench08_candidate_def)
  then obtain d where d: "select bench08_paths ?rq = Some d" using select_total by blast
  have p: "bench08_path bench08_topology 0 (bench08_endpoints ! 0, bench08_endpoints ! 1) = Some ?p"
    using bench08_paths_at [of 0] by (auto simp: bench08_pairs_hd)
  from bench08_path_candidate [of 0 1 0] p have p0: "pa_source ?p = StrongId 100" "pa_destination ?p = StrongId 101"
    "pa_id ?p = StrongId 1" "bench08_candidate ?p" by (auto simp: bench08_endpoint_ids)
  have mem: "?p \<in> set bench08_paths" by (simp add: bench08_built(2))
  have least: "rank_key ?rq ?p \<le> rank_key ?rq q" if mem_q: "q \<in> set bench08_paths" for q
  proof -
    obtain k where "k < 120" "q = bench08_paths ! k" using mem_q by (auto simp: in_set_conv_nth bench08_built(2))
    with bench08_paths_at [of k] obtain i j where q: "i < j" "j < 16" "k < 120" "bench08_candidate q"
      "pa_source q = bench08_endpoints ! i" "pa_destination q = bench08_endpoints ! j" "pa_id q = StrongId (of_nat (k + 1))"
      by auto
    have ids: "bench08_endpoints ! i = StrongId (of_nat (100 + i))" "bench08_endpoints ! j = StrongId (of_nat (100 + j))"
      using bench08_endpoint_ids(1) q(1,2) by simp_all
    have "(100 :: u64) \<le> of_nat (100 + i)" "(101 :: u64) \<le> of_nat (100 + j)" "(1 :: u64) \<le> of_nat (k + 1)"
      using q(1-3) by (simp_all add: word_le_nat_alt unat_of_nat take_bit_nat_eq_self del: of_nat_add of_nat_Suc)
    then show ?thesis
      using q(4-7) p0 ids by (auto simp: bench08_candidate_def less_eq_prod_def le_less)
  qed
  obtain i where "de_selected d = Some i"
    using d cand mem by (auto simp: bench08_candidate_def filter_empty_conv sel_from_pool_fields elim!: select_cases)
  moreover from select_best [OF d this] obtain b where b: "b \<in> set bench08_paths" "pa_id b = i"
    "\<forall>q \<in> set bench08_paths. is_admissible ?rq q \<longrightarrow> \<not> ranks_before ?rq q b" by blast
  have "\<not> rank_key ?rq ?p < rank_key ?rq b"
    using b mem cand ranks_before_key [of ?p b ?rq] by (auto simp: bench08_candidate_def)
  with least [OF b(1)] have "rank_key ?rq ?p = rank_key ?rq b" by simp
  from rank_key_id [OF this] b(2) p0(3) have "i = StrongId 1" by simp
  ultimately show ?thesis using d by blast
qed

lemma bench08_sink: "bench_try (select_body bench08_paths (bench08_request bench08_endpoints)) n 0 = Some (of_nat n)"
  using bench08_selects select_body_sink [of bench08_paths "bench08_request bench08_endpoints"] by force

end
