(* ===== verification/Spec2Isabelle.thy ===== *)
theory Spec2Isabelle
  imports PF_Prelude PF_Ids PF_Enums PF_Binary64 PF_Values PF_Bdf PF_Reservation PF_Link PF_Topology PF_Measurement PF_Path
    PF_Codec PF_Crc PF_Protocol PF_Snapshot PF_Persist PF_Selection PF_Runtime PF_Transport PF_Coordinator PF_Session
    PF_Sockets PF_Server PF_Worker PF_WinEnum PF_Cuda PF_Kernel PF_Cli PF_CliRuns PF_Examples PF_Scenarios PF_Programs
    PF_Hierarchies PF_Walkthroughs PF_Benchmarks
begin

text \<open>
  PCIe Fabric: a verification development of the C++ library in \<open>src/\<close> (namespace \<open>pci\<close>).

  The program. The library keeps a model of a host's PCIe hierarchy and decides over which path data
  moves. \<open>Topology\<close> holds the nodes; \<open>build_path\<close> and \<open>Runtime\<close> derive paths between endpoints
  from it; \<open>PathSelector\<close> ranks them for a request; \<open>MeasurementStore\<close> and \<open>ReservationRegistry\<close>
  keep the evidence and the capacity in use; \<open>persistence.hpp\<close> saves and loads a \<open>Snapshot\<close> of it
  all. Workers discover hardware (\<open>windows_enum.cpp\<close>) and report to a coordinator over framed TCP
  (\<open>protocol.hpp\<close>, \<open>tcp.cpp\<close>, \<open>worker.cpp\<close>, \<open>coordinator.cpp\<close>). Epochs, boots and generations
  are the fences against stale authority.

  Theories, each over those it imports, and the code they model (headers are under
  \<open>include/pciefabric\<close>):

    \<^item> \<open>PF_Prelude\<close>: machine words, \<open>Result\<close> and \<open>ErrorCode\<close> (\<open>result.hpp\<close>), \<open>std::map\<close> as an ordered
      association list (\<open>om_lookup\<close>, \<open>om_insert\<close>, \<open>om_erase\<close>), reachable states, the locales
      \<open>invariant\<close>, \<open>simulation\<close> (one machine implements another) and \<open>ranked_work\<close> (work that ends), the
      locale \<open>keyed_store\<close>.
    \<^item> \<open>PF_Ids\<close>, \<open>PF_Enums\<close>, \<open>PF_Values\<close>, \<open>PF_Link\<close>: strong ids and generations with their phantom
      tags and orders, enumerations with codes and names, checked quantities, provenance, rates and
      link envelopes (\<open>ids.hpp\<close>, \<open>enums.hpp\<close>, \<open>values.hpp\<close>, \<open>provenance.hpp\<close>, \<open>bandwidth.hpp\<close>,
      \<open>link.hpp\<close>).
    \<^item> \<open>PF_Binary64\<close>: \<open>double\<close> as 64-bit patterns with rounding to nearest even, the comparisons, the
      conversions (undefined out of range), multiplication and division.
    \<^item> \<open>PF_Bdf\<close>: addresses, their canonical text, the parser and the packed identity (\<open>bdf.hpp\<close>).
    \<^item> \<open>PF_Topology\<close>: nodes, the builder operations and queries of \<open>topology.hpp\<close>; the locale
      \<open>parent_chains\<close> proves what follows from parent chains that end.
    \<^item> \<open>PF_Path\<close>, \<open>PF_Selection\<close>: \<open>path.hpp\<close>, \<open>selection.hpp\<close>; the comparator, the sort, the decision.
    \<^item> \<open>PF_Measurement\<close>, \<open>PF_Reservation\<close>: \<open>measurement.hpp\<close> with the locale \<open>fenced_store\<close>,
      \<open>reservation.hpp\<close> with its ledger.
    \<^item> \<open>PF_Codec\<close>, \<open>PF_Crc\<close>, \<open>PF_Protocol\<close>: the byte reader and writer with the locale \<open>codec\<close>, CRC-32,
      frames and control messages (\<open>codec.hpp\<close>, \<open>protocol.hpp\<close>).
    \<^item> \<open>PF_Snapshot\<close>, \<open>PF_Persist\<close>: the digest (\<open>snapshot.hpp\<close>), the record codecs, the stream and the
      file, saving and loading over a store of files (\<open>persistence.hpp\<close>).
    \<^item> \<open>PF_Runtime\<close>: one definition per method of \<open>runtime.hpp\<close>, and the runtime as a state machine.
    \<^item> \<open>PF_Transport\<close>, \<open>PF_Sockets\<close>: frame I/O over a socket whose behaviour is a script; connect, bind,
      accept, close and the moves, over the handles that are open (\<open>tcp.hpp\<close>, \<open>tcp.cpp\<close>). At the end of its
      script a peer has closed the connection, or stays in silence: \<open>read_waits\<close> says which calls of
      \<open>read_frame\<close> then do not return.
    \<^item> \<open>PF_Coordinator\<close>, \<open>PF_Session\<close>, \<open>PF_Server\<close>, \<open>PF_Worker\<close>: the coordinator's handlers and connection
      loop, a session as the specification of a connection, the accept loop with its threads, the stop
      flag and the destructor, the worker's requests (\<open>coordinator.cpp\<close>, \<open>worker.cpp\<close>).
    \<^item> \<open>PF_WinEnum\<close>: parsing, classification and the topology built from what SetupAPI reports.
    \<^item> \<open>PF_Cuda\<close>, \<open>PF_Kernel\<close>: the transfer engine over the answers of the CUDA runtime, and its kernel with
      every interleaving of the grid's threads (\<open>cuda_engine.cu\<close>).
    \<^item> \<open>PF_Cli\<close>, \<open>PF_CliRuns\<close>: the commands of \<open>cli/main.cpp\<close> as what they print, how they end and what
      they leave behind, and what follows for the library behind them.
    \<^item> \<open>PF_Programs\<close>, \<open>PF_Hierarchies\<close>, \<open>PF_Walkthroughs\<close>: the programs of \<open>examples/\<close> as what they print
      and how they end: 06, 09, 13 and 15, with the diff of two snapshots; 03, 04, 05, 11 and 12, on
      hierarchies they build; 01, 02, 07, 08, 10 and 14. The lemmas evaluate them.
    \<^item> \<open>PF_Benchmarks\<close>: the programs of \<open>benchmarks/\<close>, their repetitions, counters and printed lines. The
      lemmas give the value each counter ends with for any number of repetitions.
    \<^item> \<open>PF_Examples\<close>, \<open>PF_Scenarios\<close>: the concrete states and messages of the witnesses; they model no code.

  Conventions. State is a record, passed and returned. A method that returns \<open>Result<T>\<close> returns a
  \<open>Result\<close>, a decoder an \<open>outcome\<close> with the third case \<open>Undef\<close>; \<open>None\<close> and \<open>Undef\<close> stand for undefined
  behaviour or an exception: a string read past its buffer, a floating-point cast out of range, a
  comparator that is no strict weak order, \<open>at\<close> on a missing key. Integers keep their width and wrap.
  A method that holds its object's lock throughout is one atomic step, so the interleavings of threads
  are the sequences of steps of \<open>rg_step\<close>, \<open>tp_step\<close>, \<open>rt_step\<close>, \<open>co_step\<close> and \<open>sv_step\<close>; a step of
  \<open>kr_step\<close> is one access of a device's thread to memory. What a call outside the sources answers
  (the operating system, SetupAPI, CUDA) is an argument, one constructor for each answer the code
  tells apart; of a new handle it is assumed, where a theorem says so, that it
  is not one that is open.
  Sockets are blocking and have no receive timeout. Where a peer stays connected and sends nothing more
  (\<open>ct_idle\<close> of a server's thread, \<open>mc_idle\<close> of the tool's machine), a \<open>recv\<close> that comes to the end of its
  script never returns: the thread is \<open>Waiting\<close> and has no step, the command ends as \<open>Waits\<close>. The loop
  \<open>handle_connection\<close> and the worker's methods taken by themselves are modelled for a peer that has
  closed the connection at the end of its script.

  What is shown. Each state machine has an invariant, by rule induction through the locale
  \<open>invariant\<close>: accounting (\<open>rg_inv\<close>, exact where no 64-bit sum wraps, \<open>rg_exact\<close>), structure
  (\<open>tp_inv\<close>, acyclic for disciplined construction, \<open>tp_built\<close>), \<open>rt_inv\<close>, \<open>co_inv\<close> and \<open>sv_inv\<close>. On these rest
  the properties below: the ledger refinement, release fencing and draining (C1 to C6), the
  connection as a session, its termination and the fences of the coordinator (C7 to C13), the server
  as an implementation of the coordinator, its handles and its end (C14 to C17), the worker's agreement
  with the coordinator (C18), the hierarchy (C19 to C22), routes and selection (C23 to C25), the runtime
  (C26, C27), persistence (C28 to C31), measurements (C32), the wire format (C33, C34), addresses (C35),
  discovery (C36), the command line tool (C37, C38) and the transfer engine (C39) with its kernel
  (C40). C5, C12, C13, C16, C17, C22, C27, C28, C29 and C36 to C39 state, wholly or in part, where the
  code does something other than it says it does. Further theorems stand beside them without a number.

  Bounds and fuel. \<open>handle_connection\<close> takes a number of rounds; C8 shows that one more than the
  events and bytes of the socket's script always suffice. The ancestor walk has the code's own guard,
  one more than the number of nodes, and \<open>rooted_iff_distinct\<close> shows that it is enough. Round trips of
  snapshots are for streams of at most 256 KiB, whose strings are at most 64 KiB long: within them no
  position test of the reader can fail. \<open>jobs_fit\<close> bounds the endpoints so that no two paths get the
  same id. A stopped server has at most \<open>sv_rank\<close> steps left, four and two for each thread, and a thread
  of the kernel's grid \<open>accesses_left\<close>, three.

  Not modelled: the arithmetic of the CUDA device, an argument of the kernel; Winsock start-up; a \<open>send\<close>
  that waits for ever for a peer that reads nothing, and the locks held meanwhile; the conversion of the
  length of a \<open>send\<close> to \<open>int\<close>, which loses something from 2 GiB on (\<open>send_loop\<close>); that
  \<open>std::filesystem::exists\<close> throws when the file's status cannot be read (\<open>save_file\<close>); the allocations of
  \<open>std::string\<close>; the layout \<open>printf\<close> gives to numbers; the
  clock, whose reading is an argument of the benchmarks; the encoding of Windows' wide characters, a
  function the reads of \<open>PF_WinEnum\<close> take; the tests, which assert on calls modelled here. The order
  \<open>std::sort\<close> gives to equal keys is kept as in the input where keys can be equal (\<open>sort_devices\<close>).
\<close>

section \<open>Reservations\<close>

text \<open>
  C1: whatever sequence of \<open>reserve\<close>, \<open>release\<close> and \<open>set_limits\<close> calls a registry has seen, with
  any arguments, \<open>validate_accounting\<close> finds no drift: the per-path counter is the sum of the
  active reservations' bytes, modulo the 64-bit width.
\<close>

theorem reservation_accounting_closes:
  assumes "rg_reach g"
  shows "rg_validate_accounting g = Success () \<and> rg_reserved_bytes g p = of_nat (ledger g p)"
  using rg_reach_inv [OF assms] rg_inv_validate by (simp add: rg_inv_def)

theorem reservation_accounting_closes_witness:
  "rg_validate_accounting demo_registry = Success () \<and>
   rg_reserved_bytes demo_registry (StrongId 7) = of_nat (ledger demo_registry (StrongId 7))"
  by (rule reservation_accounting_closes) (rule demo_registry_reached)

text \<open>
  C2: a granted reservation raises the path's ledger by its bytes and the ledger stays within the
  limit, in a registry none of whose sums has wrapped and for a request whose sum does not.
\<close>

theorem reservation_no_overcommit:
  assumes "rg_reach_fits g" and "reserve_fits g req" and "rg_reserve req g = (Success r, g')"
  shows "ledger g' (rs_path req) = ledger g (rs_path req) + unat (rs_bytes req) \<and>
    ledger g' (rs_path req) \<le> unat (per_path_bytes (rg_limits g))"
  by (rule rg_exact_no_overcommit [OF rg_reach_exact [OF assms(1)] assms(2,3)])

theorem reservation_no_overcommit_witness:
  "ledger (snd (rg_reserve (demo_request 2 30) demo_registry)) (StrongId 7) \<le> 100"
proof -
  have "rg_reserve (demo_request 2 30) demo_registry =
      (Success (rs_mark_active (demo_request 2 30)), snd (rg_reserve (demo_request 2 30) demo_registry))"
    by (simp add: demo_registry_eval Let_def path_used_def)
  from reservation_no_overcommit [OF demo_registry_fits _ this] show ?thesis
    by (simp add: demo_registry_eval Let_def path_used_def reserve_fits_def rg_reserved_bytes_def)
qed

text \<open>
  C3: in every registry that calls of its operations can produce, a release succeeds exactly when the
  registry holds an active reservation of that id, the boot, generation and epoch are those of the
  reservation, and the path's counter covers its bytes. The counter does so wherever the active
  reservations of the path together hold less than two to the 64 bytes, which is always the case if no
  sum has wrapped.
\<close>

theorem reservation_release_fenced:
  assumes "rg_reach g"
  shows "(fst (rg_release i boot gen epoch g) = Success () \<longleftrightarrow>
      (\<exists>r. rg_get g i = Some r \<and> rs_active r \<and> rs_boot r = boot \<and> rs_generation r = gen \<and> rs_epoch r = epoch \<and>
        rs_bytes r \<le> rg_reserved_bytes g (rs_path r))) \<and>
    (\<forall>r. rg_get g i = Some r \<and> rs_active r \<and> ledger g (rs_path r) < 2 ^ 64 \<longrightarrow>
      rs_bytes r \<le> rg_reserved_bytes g (rs_path r)) \<and>
    (rg_reach_fits g \<longrightarrow> ledger g p < 2 ^ 64)"
  using rg_release_iff rg_counter_covers [OF rg_reach_inv [OF assms]] rg_exact_ledger [OF rg_reach_exact] by blast

theorem reservation_release_fenced_witness:
  "fst (rg_release (StrongId 1) (StrongId 0) (Generation 1) (StrongId 0) demo_registry) = Success () \<and>
   fst (rg_release (StrongId 1) (StrongId 9) (Generation 1) (StrongId 0) demo_registry) \<noteq> Success ()"
  unfolding reservation_release_fenced [OF demo_registry_reached, THEN conjunct1]
  by (simp add: rg_get_def demo_registry_eval Let_def path_used_def rs_active_def rg_reserved_bytes_def)

text \<open>
  A reservation is released at most once: after a release every further release of the id is
  refused as a duplicate and changes nothing, whoever asks.
\<close>

theorem reservation_released_once:
  assumes "fst (rg_release i boot gen epoch g) = Success ()"
  shows "rg_release i b ge e (snd (rg_release i boot gen epoch g)) =
    (Err EC_DUPLICATE_RELEASE ''reservation already released'', snd (rg_release i boot gen epoch g))"
  by (rule release_twice [OF assms])

theorem reservation_released_once_witness:
  "fst (rg_release (StrongId 1) (StrongId 0) (Generation 1) (StrongId 0)
     (snd (rg_release (StrongId 1) (StrongId 0) (Generation 1) (StrongId 0) demo_registry))) =
   Err EC_DUPLICATE_RELEASE ''reservation already released''"
  by (subst reservation_released_once)
     (simp_all add: demo_registry_eval Let_def path_used_def rs_active_def rg_release_def)

text \<open>
  C4: in every registry that calls of its operations can produce, the registry refines the ledger of
  unbounded sums: \<open>reserve\<close> adds the bytes of a granted request to its path, \<open>release\<close> subtracts those of
  the released reservation from its path, and neither changes the ledger when it fails. \<open>reserved_bytes\<close>
  reads the ledger modulo two to the 64, and exactly where no sum has wrapped.
\<close>

theorem registry_refines_ledger:
  assumes "rg_reach g" and "rg_get g i = Some r"
  shows "ledger (snd (rg_reserve req g)) = (if res_ok (fst (rg_reserve req g))
      then ledger_add (rs_path req) (unat (rs_bytes req)) (ledger g) else ledger g) \<and>
    ledger (snd (rg_release i boot gen epoch g)) = (if res_ok (fst (rg_release i boot gen epoch g))
      then ledger_sub (rs_path r) (unat (rs_bytes r)) (ledger g) else ledger g) \<and>
    unat (rg_reserved_bytes g p) = ledger g p mod 2 ^ 64 \<and>
    (rg_reach_fits g \<longrightarrow> unat (rg_reserved_bytes g p) = ledger g p)"
proof -
  have inv: "rg_inv g" by (rule rg_reach_inv [OF assms(1)])
  then have "unat (rg_reserved_bytes g p) = ledger g p mod 2 ^ 64" by (simp add: rg_inv_def unat_of_nat)
  with reserve_ledger [of req g] release_ledger [OF inv assms(2), of boot gen epoch] rg_reach_exact [of g] show ?thesis
    unfolding rg_exact_def by blast
qed

theorem registry_refines_ledger_witness:
  "unat (rg_reserved_bytes demo_registry (StrongId 7)) = ledger demo_registry (StrongId 7) \<and>
   ledger (snd (rg_release (StrongId 1) (StrongId 0) (Generation 1) (StrongId 0) demo_registry)) =
     ledger_sub (StrongId 7) 60 (ledger demo_registry)"
proof -
  have "rg_get demo_registry (StrongId 1) = Some (rs_mark_active (demo_request 1 60))"
    by (simp add: rg_get_def demo_registry_eval Let_def path_used_def)
  note c = registry_refines_ledger [OF demo_registry_reached this]
  have "res_ok (fst (rg_release (StrongId 1) (StrongId 0) (Generation 1) (StrongId 0) demo_registry))"
    by (simp add: demo_registry_eval Let_def path_used_def rs_active_def rg_release_def)
  moreover have "rs_path (rs_mark_active (demo_request 1 60)) = StrongId 7" "unat (rs_bytes (rs_mark_active (demo_request 1 60))) = 60"
    by (simp_all add: demo_request_def Reservation_new_def rs_mark_active_def)
  ultimately show ?thesis
    using c [where req = "demo_request 1 60" and boot = "StrongId 0" and gen = "Generation 1" and epoch = "StrongId 0"
      and p = "StrongId 7"] demo_registry_fits by (elim conjE) simp
qed

text \<open>
  C5: the overcommit test is a 64-bit sum and wraps: with a limit of 100 bytes a path is given two
  active reservations of together more than two to the 64.
\<close>

theorem overcommit_by_wrap:
  "\<exists>r g. rg_reserve (demo_request 2 (- 50)) demo_registry = (Success r, g) \<and>
     2 ^ 64 < ledger g (StrongId 7) \<and> rg_reserved_bytes g (StrongId 7) = 10 \<and>
     per_path_bytes (rg_limits g) = 100"
proof -
  have res: "rg_reserve (demo_request 2 (- 50)) demo_registry =
      (Success (rs_mark_active (demo_request 2 (- 50))), snd (rg_reserve (demo_request 2 (- 50)) demo_registry))"
    by (simp add: demo_registry_eval Let_def path_used_def)
  moreover have "ledger (snd (rg_reserve (demo_request 2 (- 50)) demo_registry)) (StrongId 7) = 2 ^ 64 + 10"
    by (simp add: demo_registry_eval Let_def path_used_def ledger_def held_def rs_active_def om_sum_def)
  moreover have "rg_reserved_bytes (snd (rg_reserve (demo_request 2 (- 50)) demo_registry)) (StrongId 7) = 10"
    "per_path_bytes (rg_limits (snd (rg_reserve (demo_request 2 (- 50)) demo_registry))) = 100"
    by (simp_all add: demo_registry_eval Let_def path_used_def rg_reserved_bytes_def)
  ultimately show ?thesis by (intro exI conjI) simp_all
qed

text \<open>
  C6: a registry whose sums have not wrapped can always be emptied: releasing each listed reservation
  under its own boot, generation and epoch leaves nothing active and no path charged, and then every
  request with a new id that is within the limit is granted.
\<close>

theorem registry_drains:
  assumes "rg_reach_fits g" and "rg_get g (rs_id req) = None" and "rs_bytes req \<le> per_path_bytes (rg_limits g)"
  shows "rg_active_count (drain g) = 0 \<and> rg_active_by_path (drain g) = [] \<and>
    fst (rg_reserve req (drain g)) = Success (rs_mark_active req)"
  using drain_empty [OF rg_reach_exact [OF assms(1)]] drain_grants [OF rg_reach_exact [OF assms(1)] assms(2,3)]
  by (metis fst_conv)

theorem registry_drains_witness:
  "res_ok (fst (rg_reserve (demo_request 2 90) demo_registry)) = False \<and>
   fst (rg_reserve (demo_request 2 90) (drain demo_registry)) = Success (rs_mark_active (demo_request 2 90))"
proof -
  have "fst (rg_reserve (demo_request 2 90) (drain demo_registry)) = Success (rs_mark_active (demo_request 2 90))"
    using registry_drains [OF demo_registry_fits, of "demo_request 2 90"]
    by (simp add: demo_registry_eval Let_def path_used_def rg_get_def)
  then show ?thesis by (simp add: demo_registry_eval Let_def path_used_def)
qed

section \<open>The coordinator\<close>

text \<open>
  C7: a connection that delivers any list of frames within the payload limit, cut into chunks in any way, and
  accepts the replies, has on the coordinator the effect of handling the frames one by one, and
  receives exactly the encodings of the replies in order. It is undefined exactly when a handler is.
\<close>

theorem coordinator_session:
  assumes "sk_valid sk" and "sk_script sk = []" and "only_data (sk_in sk)"
    and "delivered (sk_in sk) = concat (map frame_encode fs)"
    and "list_all (\<lambda>f. length (fm_payload f) \<le> kMaxPayload) fs" and "sk_size sk < n"
  shows "case session fs cx s of
      None \<Rightarrow> handle_connection n sk cx s = None
    | Some (out, s') \<Rightarrow> \<exists>sk'. handle_connection n sk cx s = Some (True, sk', s') \<and>
        sk_out sk' = sk_out sk @ concat (map frame_encode out)"
  using handle_connection_session [OF assms] by (simp add: same_outcome_def)

theorem coordinator_session_witness:
  "\<exists>sk'. handle_connection 30 (demo_socket demo_chunks) Connection_new Coordinator_new =
      Some (True, sk', Coordinator_new) \<and>
    sk_out sk' = frame_encode (reply_frame Coordinator_new True ''hello'')"
proof -
  let ?sk = "demo_socket demo_chunks"
  have "case session [demo_hello] Connection_new Coordinator_new of
      None \<Rightarrow> handle_connection 30 ?sk Connection_new Coordinator_new = None
    | Some (out, s') \<Rightarrow> \<exists>sk'. handle_connection 30 ?sk Connection_new Coordinator_new = Some (True, sk', s') \<and>
        sk_out sk' = sk_out ?sk @ concat (map frame_encode out)"
    by (rule coordinator_session)
       (simp_all only: demo_socket_def TcpSocket.simps sk_size_def sk_valid_def demo_chunks_props, simp_all add: demo_hello_def invalid_fd_def)
  then show ?thesis
    by (simp add: demo_hello_def handle_frame_def) (simp add: demo_socket_def)
qed

text \<open>
  C8: the loop of a connection ends on every script of socket events: with more rounds than the
  script has events and bytes it is left because the peer is gone, or a handler is undefined.
\<close>

theorem connection_loop_ends:
  assumes "sk_valid sk" and "sk_size sk < n"
  shows "handle_connection n sk cx s = None \<or> (\<exists>sk' s'. handle_connection n sk cx s = Some (True, sk', s'))"
  by (rule rounds_enough [OF assms])

theorem connection_loop_ends_witness:
  "handle_connection 9 (demo_socket [RecvFailed, RecvNoData, RecvData [1, 2, 3]]) Connection_new Coordinator_new = None \<or>
   (\<exists>sk' s'. handle_connection 9 (demo_socket [RecvFailed, RecvNoData, RecvData [1, 2, 3]])
      Connection_new Coordinator_new = Some (True, sk', s'))"
  by (rule connection_loop_ends) (simp_all add: demo_socket_def sk_size_def sk_valid_def invalid_fd_def)

text \<open>
  C9: a connection that has not registered changes neither the coordinator nor what the connection
  remembers, whatever frame it sends, unless the frame is a registration.
\<close>

theorem unregistered_connection_inert:
  assumes "handle_frame f cx s = Some (h, cx', s')" and "cx_boot cx = None" and "cx_worker cx = None"
    and "fm_kind f \<noteq> MSG_REGISTER"
  shows "s' = s \<and> cx' = cx"
  by (rule unregistered_frame [OF assms])

theorem unregistered_connection_inert_witness:
  "\<exists>h cx' s'. handle_frame (Frame MSG_RESERVE []) Connection_new Coordinator_new = Some (h, cx', s') \<and>
     s' = Coordinator_new \<and> cx' = Connection_new"
proof -
  obtain h cx' s' where h: "handle_frame (Frame MSG_RESERVE []) Connection_new Coordinator_new = Some (h, cx', s')"
    by (simp add: handle_frame_def on_reserve_def not_registered_def Connection_new_def)
  from unregistered_connection_inert [OF h] h show ?thesis by (simp add: Connection_new_def)
qed

text \<open>
  C10: in every state the coordinator can reach, through frames with any contents on any
  connections and the owner's operations in any order, its reservation accounting closes, its
  topology is well-formed and every stored path and worker is stored under its own id.
\<close>

theorem coordinator_stays_sound:
  assumes "co_reach s"
  shows "co_validate_accounting s = Success () \<and> tp_inv (co_topology s) \<and>
    (\<forall>i p. om_lookup (co_paths s) i = Some p \<longrightarrow> pa_id p = i) \<and>
    (\<forall>i w. om_lookup (co_workers s) i = Some w \<longrightarrow> wi_id w = i)"
  using co_reach_inv [OF assms] co_accounting [OF assms] by (simp add: co_inv_def paths_inv_def)

theorem coordinator_stays_sound_witness:
  "co_validate_accounting demo_coordinator = Success () \<and>
   wi_id (new_worker (RegisterRequest 3 5 1)) = StrongId 3"
  using coordinator_stays_sound [OF demo_coordinator_reach]
  by (auto simp: demo_coordinator_def Coordinator_new_def)

text \<open>
  C11: a path enters the coordinator's store only over a registered connection, carrying the
  coordinator's epoch of that moment and the boot the connection registered.
\<close>

theorem coordinator_paths_fenced:
  assumes "handle_frame f cx s = Some (h, cx', s')" and "om_lookup (co_paths s') i = Some p"
    and "om_lookup (co_paths s) i \<noteq> Some p"
  shows "\<exists>boot. cx_boot cx = Some boot \<and> authority_matches p (co_epoch s) boot"
  by (rule frame_path_fenced [OF assms])

theorem coordinator_paths_fenced_witness:
  "\<exists>h cx' s' p. handle_frame (Frame MSG_PATH_SNAPSHOT (stream_bytes demo_snapshot)) demo_connection demo_coordinator =
      Some (h, cx', s') \<and> om_lookup (co_paths s') (StrongId 11) = Some p \<and>
    authority_matches p (co_epoch demo_coordinator) (StrongId 5)"
proof -
  let ?f = "Frame MSG_PATH_SNAPSHOT (stream_bytes demo_snapshot)"
  obtain sn where sn: "deserialize (stream_bytes demo_snapshot) = Done sn" "sn_nodes sn = []"
    "sn_paths sn = [norm_path demo_path]" using demo_snapshot_read by blast
  have paths: "co_paths demo_coordinator = []" "co_epoch demo_coordinator = StrongId 0"
    by (simp_all add: demo_coordinator_def Coordinator_new_def)
  obtain s' where h: "handle_frame ?f demo_connection demo_coordinator = Some (Reply True ''snapshot accepted'', demo_connection, s')"
    and l: "om_lookup (co_paths s') (StrongId 11) = Some (norm_path demo_path)"
    using sn demo_norm_path paths
    by (simp add: handle_frame_def on_snapshot_def with_payload_def demo_connection_def accept_path_def)
  from coordinator_paths_fenced [OF h l] paths have "authority_matches (norm_path demo_path) (co_epoch demo_coordinator) (StrongId 5)"
    by (auto simp: demo_connection_def)
  with h l show ?thesis by blast
qed

text \<open>
  C12: a registered connection releases any active reservation whose boot, generation and epoch it
  names in the message and whose bytes the path's counter covers, as it does where no 64-bit sum has
  wrapped (C3), whatever boot the connection itself registered: \<open>handle_frame\<close> does not compare the
  message with the connection.
\<close>

theorem release_ignores_connection:
  assumes "rg_get (co_reservations s) i = Some r" and "rs_active r"
    and "rs_bytes r \<le> rg_reserved_bytes (co_reservations s) (rs_path r)" and "cx_boot cx = Some boot"
  shows "\<exists>s'. handle_frame (Frame MSG_RELEASE (write_release (ReleaseRequest (id_value i) (id_value (rs_boot r))
      (gen_value (rs_generation r)) (id_value (rs_epoch r))))) cx s = Some (Reply True ''released'', cx, s') \<and>
    rg_get (co_reservations s') i = Some (rs_mark_released r)"
proof -
  obtain s' where s': "handle_frame (Frame MSG_RELEASE (write_release (ReleaseRequest (id_value i) (id_value (rs_boot r))
      (gen_value (rs_generation r)) (id_value (rs_epoch r))))) cx s = Some (Reply True ''released'', cx, s')"
    "s' = s\<lparr>co_reservations := snd (rg_release i (rs_boot r) (rs_generation r) (rs_epoch r) (co_reservations s))\<rparr>"
    using frame_release_any_boot [OF assms] by blast
  have "fst (rg_release i (rs_boot r) (rs_generation r) (rs_epoch r) (co_reservations s)) = Success ()"
    using assms(1-3) by (auto simp: rg_release_iff)
  then have "rg_get (co_reservations s') i = Some (rs_mark_released r)"
    using assms(1) s'(2)
    by (cases rule: rg_release_cases [of i "rs_boot r" "rs_generation r" "rs_epoch r" "co_reservations s"])
       (auto simp: rg_get_def release_state_def)
  with s'(1) show ?thesis by blast
qed

theorem release_ignores_connection_witness:
  "\<exists>s'. handle_frame (Frame MSG_RELEASE (write_release (ReleaseRequest 1 0 1 0))) demo_connection
      (demo_coordinator\<lparr>co_reservations := demo_registry\<rparr>) = Some (Reply True ''released'', demo_connection, s')"
proof -
  have "rg_get demo_registry (StrongId 1) = Some (rs_mark_active (demo_request 1 60))" "rg_reserved_bytes demo_registry (StrongId 7) = 60"
    by (simp_all add: rg_get_def rg_reserved_bytes_def demo_registry_eval Let_def path_used_def)
  then show ?thesis
    using release_ignores_connection [of "demo_coordinator\<lparr>co_reservations := demo_registry\<rparr>" "StrongId 1"
        "rs_mark_active (demo_request 1 60)" demo_connection "StrongId 5"]
    by (auto simp: demo_request_def Reservation_new_def rs_mark_active_def rs_active_def demo_connection_def)
qed

text \<open>
  C13: a measurement message that ends right after the length of its first string sends the
  coordinator's reader beyond the payload, for every length from 1 to 64 KiB: undefined behaviour
  that any registered peer can cause.
\<close>

theorem measurement_reads_out_of_bounds:
  assumes "Provenance_valid (Provenance_code (ms_provenance m))" and "0 < len" and "len \<le> 65536"
    and "cx_boot cx = Some boot"
  shows "handle_frame (Frame MSG_MEASUREMENT (cut_measurement m len)) cx s = None"
  by (rule frame_measurement_undefined [OF assms])

theorem measurement_reads_out_of_bounds_witness:
  "handle_frame (Frame MSG_MEASUREMENT (cut_measurement demo_measurement 100)) demo_connection demo_coordinator = None"
  by (rule measurement_reads_out_of_bounds [of _ _ _ "StrongId 5"])
     (simp_all add: demo_measurement_def Measurement_new_def Provenance_valid_def Provenance_code_def
       enum_in_range_def kProvenanceNames_def demo_connection_def)

section \<open>The server\<close>

text \<open>
  C14: the server is the coordinator's state machine whatever its threads and sockets do: in every
  state it can reach the coordinator inside is one the handlers and the owner can bring about, and
  every step of the server is a step of that machine or leaves the coordinator alone.
\<close>

theorem server_refines_coordinator:
  assumes "sv_reach s"
  shows "co_reach (sv_co s) \<and> (\<forall>s'. sv_step s s' \<longrightarrow> sv_co s' = sv_co s \<or> co_step (sv_co s) (sv_co s'))"
  using sv_reach_co [OF assms] sv_step_refines by blast

theorem server_refines_coordinator_witness:
  "co_reach (sv_co demo_served) \<and> (sv_co demo_stopped = sv_co demo_served \<or> co_step (sv_co demo_served) (sv_co demo_stopped))"
proof -
  have "sv_step demo_served demo_stopped"
    using own_stop [of demo_served] by (simp add: sv_step_def demo_stopped_def sv_alive_def demo_served_eval)
  with server_refines_coordinator [OF demo_served_reach] show ?thesis by blast
qed

text \<open>
  C15: in every state the server can reach, its listener and its connection threads hold different
  handles and these are all that is open; a thread has given up its handle exactly when it has
  ended; and when the destructor has returned nothing is open.
\<close>

theorem server_holds_its_handles:
  assumes "sv_reach s"
  shows "distinct (filter (\<lambda>h. h \<noteq> invalid_fd) (ls_fd (sv_listener s) # thread_fds (sv_threads s))) \<and>
    set (filter (\<lambda>h. h \<noteq> invalid_fd) (ls_fd (sv_listener s) # thread_fds (sv_threads s))) = os_open (sv_os s) \<and>
    list_all (\<lambda>t. (ct_phase t = Finished) = (\<not> sk_valid (ct_sock t))) (sv_threads s) \<and>
    (sv_main s = Destroyed \<longrightarrow> os_open (sv_os s) = {})"
  using sv_reach_inv [OF assms] sv_destroyed_closed [OF assms] by (simp add: sv_inv_def owns_def)

theorem server_holds_its_handles_witness:
  "distinct [7, 9 :: handle] \<and> set [7, 9] = os_open (sv_os demo_served)"
  using server_holds_its_handles [OF demo_served_reach]
  by (simp add: demo_served_eval conn_thread_def thread_fds_def invalid_fd_def)

text \<open>
  C16: what a stop does to a server. Once it is requested the server does at most four steps of its own
  and two for each of its threads. When no step is left the accept loop has returned, and every thread
  has ended or is in a \<open>recv\<close> that does not return, as its peer stays connected and sends nothing; the
  destructor, which joins the threads, has not returned then. Such a thread is there for good, whatever
  the owner does, and the destructor never returns. At most the one connection whose \<open>accept\<close> was under
  way is taken on. (No \<open>send\<close> is taken to wait for ever.)
\<close>

theorem server_stops:
  assumes "sv_reach s" and "sv_stop s" and "(sv_work ^^ n) s s'"
  shows "n \<le> 4 + 2 * length (sv_threads s) \<and>
    ((\<nexists>u. sv_work s' u) \<longrightarrow> sv_main s' \<in> {Idle, Joining, Destroyed} \<and>
       (\<forall>t \<in> set (sv_threads s'). ct_phase t = Finished \<or> ct_phase t = Waiting \<and> ct_idle t \<and> read_waits (ct_sock t)) \<and>
       (sv_main s' = Joining \<longrightarrow> (\<exists>t \<in> set (sv_threads s'). ct_phase t = Waiting))) \<and>
    (\<forall>u. sv_step\<^sup>*\<^sup>* s u \<longrightarrow> length (sv_threads u) \<le> Suc (length (sv_threads s)) \<and>
       (\<forall>i < length (sv_threads s). ct_phase (sv_threads s ! i) = Waiting \<longrightarrow>
          sv_threads u ! i = sv_threads s ! i \<and> sv_main u \<noteq> Destroyed))"
proof (intro conjI impI allI)
  show "n \<le> 4 + 2 * length (sv_threads s)"
    using svw.run_bounded [OF assms(3,2)] rank_bound [of s] by simp
  have "sv_step\<^sup>*\<^sup>* s s'" by (rule sv_works_steps [OF assms(3)])
  then have "sv_wait_ok s'" using sv_reach_wait_ok [OF sv_reach_steps [OF assms(1)]] by blast
  then show "\<forall>t \<in> set (sv_threads s'). ct_phase t = Finished \<or> ct_phase t = Waiting \<and> ct_idle t \<and> read_waits (ct_sock t)"
    if "\<nexists>u. sv_work s' u"
    using sv_rest [of s'] that by (auto simp: list_all_iff ct_at_rest_def sv_wait_ok_def ct_wait_ok_def)
  show "\<exists>t \<in> set (sv_threads s'). ct_phase t = Waiting" if "\<nexists>u. sv_work s' u" "sv_main s' = Joining"
    using sv_rest [of s'] that by (auto simp: all_finished_def list_all_iff ct_at_rest_def)
  show "sv_main s' \<in> {Idle, Joining, Destroyed}" if "\<nexists>u. sv_work s' u"
    using sv_rest [of s'] that by blast
  fix u assume u: "sv_step\<^sup>*\<^sup>* s u"
  show "length (sv_threads u) \<le> Suc (length (sv_threads s))"
    using sv_stop_steps [OF u assms(2)] by (auto simp: sv_taken_def split: if_splits)
  fix i assume i: "i < length (sv_threads s)" "ct_phase (sv_threads s ! i) = Waiting"
  show "sv_threads u ! i = sv_threads s ! i" using sv_waits_for_good [OF u i] by blast
  show "sv_main u \<noteq> Destroyed" by (rule sv_waits_not_destroyed [OF assms(1) u i])
qed

text \<open>
  A server with one connection whose peer is silent: \<open>run\<close> returns one step after the stop, the
  destructor is at rest and has not returned, and never will.
\<close>

theorem server_stops_witness:
  "(\<nexists>u. sv_work (demo_waiting\<lparr>sv_main := Idle\<rparr>) u) \<and>
   (\<nexists>u. sv_work demo_joining u) \<and> sv_main demo_joining = Joining \<and> length (sv_threads demo_joining) \<le> 2 \<and>
   (\<nexists>u. sv_step\<^sup>*\<^sup>* demo_waiting u \<and> sv_main u = Destroyed)"
proof -
  note c = server_stops [OF demo_waiting_reach demo_waiting_eval(2) demo_waiting_work]
  have d: "sv_main u \<noteq> Destroyed \<and> length (sv_threads u) \<le> 2" if u: "sv_step\<^sup>*\<^sup>* demo_waiting u" for u
  proof
    note d = c [THEN conjunct2, THEN conjunct2, rule_format, OF u]
    have "0 < length (sv_threads demo_waiting)" by (simp add: demo_waiting_eval)
    from d [THEN conjunct2, rule_format, OF this demo_waiting_eval(4)] show "sv_main u \<noteq> Destroyed" by (rule conjunct2)
    from d [THEN conjunct1] show "length (sv_threads u) \<le> 2" by (simp add: demo_waiting_eval)
  qed
  moreover have "sv_main demo_joining = Joining" by (simp add: demo_joining_def)
  ultimately show ?thesis using demo_joining_rest demo_waiting_rest demo_joining_steps by blast
qed

text \<open>
  C17: a broken connection is never given up: as often as \<open>recv\<close> fails, so often the connection's
  loop goes round, without an end and without an effect on the coordinator.
\<close>

theorem broken_connection_retried:
  assumes "sk_valid sk" and "sk_in sk = replicate n RecvFailed @ es"
  shows "handle_connection n sk cx s = Some (False, sk\<lparr>sk_in := es\<rparr>, s)"
  by (rule failing_peer_retried [OF assms])

theorem broken_connection_retried_witness:
  "handle_connection 1000 (demo_socket (replicate 1000 RecvFailed)) Connection_new Coordinator_new =
    Some (False, demo_socket [], Coordinator_new)"
  using broken_connection_retried [of "demo_socket (replicate 1000 RecvFailed)" 1000 "[]" Connection_new Coordinator_new]
  by (simp add: demo_socket_def sk_valid_def invalid_fd_def del: replicate.simps)

section \<open>The worker\<close>

text \<open>
  When a worker registers and hears the coordinator's reply, it holds the coordinator's epoch, the
  coordinator lists it under its id as connected with its boot, and the connection is bound to
  that boot and id.
\<close>

theorem worker_registers:
  assumes "handle_frame (register_frame w) cx s = Some (Reply ok msg, cx', s')"
    and "hears w (reply_frame s' ok msg)"
  shows "\<exists>w'. register_self w = (Done (), w') \<and> wk_epoch w' = co_epoch s' \<and>
    (\<exists>i. om_lookup (co_workers s') (wk_id w) = Some i \<and> wi_boot i = wk_boot w \<and> wi_connected i) \<and>
    cx_boot cx' = Some (wk_boot w) \<and> cx_worker cx' = Some (wk_id w)"
  by (rule register_exchange [OF assms])

theorem worker_registers_witness:
  "\<exists>w'. register_self (demo_worker (reply_frame demo_coordinator True ''registered'')) = (Done (), w') \<and>
     wk_epoch w' = StrongId 0"
proof -
  have "register_frame (demo_worker f) = demo_register" for f
    by (simp add: register_frame_def demo_worker_def Worker_new_def demo_register_def)
  with demo_register_frame have "handle_frame (register_frame (demo_worker f)) Connection_new Coordinator_new =
      Some (Reply True ''registered'', demo_connection, demo_coordinator)" for f by simp
  from worker_registers [OF this demo_worker_hears] show ?thesis
    by (auto simp: demo_coordinator_def Coordinator_new_def)
qed

text \<open>
  C18: over a registered connection, where the request is within the sizes the decoder accepts and the
  coordinator's reply arrives intact, a worker is told that its reservation succeeded exactly when the
  coordinator's registry granted it.
\<close>

theorem worker_reserve_agrees:
  assumes "reservation_fits r 0" and "cx_boot cx = Some boot"
    and "handle_frame (Frame MSG_RESERVE (encode_reservation r)) cx s = Some (Reply ok msg, cx', s')"
    and "hears w (reply_frame s' ok msg)" and "length msg \<le> 65536"
  shows "(\<exists>w'. wk_reserve r w = (Done r, w')) \<longleftrightarrow> res_ok (fst (rg_reserve r (co_reservations s)))"
  by (rule reserve_exchange [OF assms])

theorem worker_reserve_agrees_witness:
  "\<exists>s' w'. wk_reserve (demo_request 1 60) (demo_worker (reply_frame s' True ''reserved'')) = (Done (demo_request 1 60), w')"
proof -
  have fits: "reservation_fits (demo_request 1 60) 0"
    by (simp add: reservation_fits_def encode_reservation_length demo_request_def Reservation_new_def)
  have cx: "cx_boot demo_connection = Some (StrongId 5)" by (simp add: demo_connection_def)
  have d: "rd_run decode_reservation (encode_reservation (demo_request 1 60)) = Done (norm_reservation (demo_request 1 60))"
    using decode_reservation_encode [OF fits, of "[]"] by (simp add: rd_run_def rd_open_def)
  obtain s' where h: "handle_frame (Frame MSG_RESERVE (encode_reservation (demo_request 1 60))) demo_connection demo_coordinator =
      Some (Reply True ''reserved'', demo_connection, s')"
    using d cx by (simp add: handle_frame_def on_reserve_def with_payload_def demo_coordinator_def Coordinator_new_def
        norm_reservation_def demo_registry_eval Let_def path_used_def rs_mark_released_def rs_active_def)
  have ok: "res_ok (fst (rg_reserve (demo_request 1 60) (co_reservations demo_coordinator)))"
    by (simp add: demo_coordinator_def Coordinator_new_def demo_registry_eval Let_def path_used_def)
  from worker_reserve_agrees [OF fits cx h demo_worker_hears] ok show ?thesis by auto
qed

section \<open>The hierarchy\<close>

text \<open>
  C19: in every hierarchy the builder operations can produce, in any order and with any arguments, a
  node is stored under its own id, its parent exists, is another node and lists it as a child, its
  children exist, and no other current node has its address: \<open>find_by_bdf\<close> returns it.
\<close>

theorem hierarchy_well_formed:
  assumes "tp_reach t" and "tp_node t k = Some n"
  shows "nd_id n = k \<and> list_all (tp_contains t) (nd_children n) \<and>
    (case nd_parent n of None \<Rightarrow> True
     | Some p \<Rightarrow> p \<noteq> k \<and> (\<exists>pn. tp_node t p = Some pn \<and> k \<in> set (nd_children pn))) \<and>
    (nd_removed n \<or> find_by_bdf t (nd_bdf n) = Some k)"
proof -
  note inv = tp_reach_inv [OF assms(1)] and k = assms(2) [unfolded tp_node_def]
  have "find_by_bdf t (nd_bdf n) = Some k" if r: "\<not> nd_removed n"
  proof (cases "bdf_entry t (nd_bdf n)")
    case None
    from bdf_entry_None [OF this k] r show ?thesis by simp
  next
    case (Some kn)
    obtain k' n' where kn: "kn = (k', n')" by (cases kn)
    from bdf_entry_Some [OF inv Some [unfolded kn]] have "k' = k"
      using tp_inv_bdf [OF inv _ k _ r] by blast
    with Some kn show ?thesis by (simp add: find_by_bdf_def)
  qed
  then show ?thesis
    using tp_inv_id [OF inv k] tp_inv_parent [OF inv k] tp_inv_child [OF inv k]
    by (auto simp: list_all_iff tp_contains_def tp_node_def split: option.split)
qed

theorem hierarchy_well_formed_witness:
  "find_by_bdf demo_topology (demo_bdf 1 0) = Some (StrongId 10)"
proof -
  have "tp_node demo_topology (StrongId 10) = Some (demo_node 10 (demo_bdf 1 0) Dev_ACCELERATOR (Some (StrongId 2)) [])"
    by (simp add: demo_topology_eval tp_node_def)
  from hierarchy_well_formed [OF demo_topology_reach this] show ?thesis
    by (simp add: demo_node_def Node_default_def)
qed

text \<open>
  C20: as long as nodes are added under addresses no current node has and only successful attaches
  are made, the parent relation has no cycle: every node's \<open>ancestors\<close> are pairwise different, each
  the parent of the one before it, and end at a node without a parent.
\<close>

theorem built_hierarchy_acyclic:
  assumes "tp_built t"
  shows "distinct (ancestors t i) \<and> hd (ancestors t i) = i \<and> tp_parent t (last (ancestors t i)) = None \<and>
    successively (\<lambda>x y. tp_parent t x = Some y) (ancestors t i)"
proof -
  have c: "chain (tp_parent t) i (ancestors t i)"
    using tp_built_props [OF assms] by (auto intro: rooted_all)
  then have ne: "ancestors t i \<noteq> []" by auto
  have split: "ancestors t i = butlast (ancestors t i) @ last (ancestors t i) # []" using ne by simp
  have "chain (tp_parent t) (last (ancestors t i)) [last (ancestors t i)]"
    using chain_suffix [of "tp_parent t" i "butlast (ancestors t i)" "last (ancestors t i)" "[]"] c split by metis
  then have "tp_parent t (last (ancestors t i)) = None" by (auto split: option.splits)
  moreover have "successively (\<lambda>x y. tp_parent t x = Some y) (ancestors t i)"
    using chain_edges [of "tp_parent t" i "butlast (ancestors t i)" "last (ancestors t i)" "[]"] c split by metis
  ultimately show ?thesis using chain_distinct [OF c] chain_hd [OF c] by auto
qed

theorem built_hierarchy_acyclic_witness:
  "distinct (ancestors demo_topology (StrongId 11)) \<and> length (ancestors demo_topology (StrongId 11)) = 3"
  using built_hierarchy_acyclic [OF demo_topology_built, of "StrongId 11"]
  by (simp add: demo_topology_eval ancestors_def demo_node_def Node_default_def)

text \<open>
  C21: on a hierarchy without cycles \<open>attach\<close> succeeds exactly when both nodes exist and the child is
  not the parent or one of its ancestors, and then the hierarchy stays without cycles.
\<close>

theorem attach_refuses_cycles:
  assumes "tp_built t"
  shows "(fst (tp_attach child parent link t) = Success () \<longleftrightarrow>
      tp_contains t child \<and> tp_contains t parent \<and> child \<notin> set (ancestors t parent)) \<and>
    (fst (tp_attach child parent link t) = Success () \<longrightarrow> tp_acyclic (snd (tp_attach child parent link t)))"
  using attach_acyclic [of t child parent link] tp_built_props [OF assms] by blast

theorem attach_refuses_cycles_witness:
  "fst (tp_attach (StrongId 1) (StrongId 2) None demo_bridge) \<noteq> Success () \<and>
   fst (tp_attach (StrongId 10) (StrongId 1) None demo_topology) = Success ()"
  using attach_refuses_cycles [OF demo_bridge_built, of "StrongId 1" "StrongId 2" None]
    attach_refuses_cycles [OF demo_topology_built, of "StrongId 10" "StrongId 1" None]
  by (simp add: demo_bridge_eval demo_topology_eval ancestors_def demo_node_def Node_default_def tp_contains_def
      om_contains_def)

text \<open>
  C22: adding an endpoint under an address that is already current attaches the known node instead,
  ignores the cycle the attach reports and does not undo it: a root complex hangs below its own
  bridge, both are their own ancestors, the call reports success and \<open>validate\<close> accepts the result.
\<close>

theorem endpoint_closes_cycle:
  "\<exists>t'. add_endpoint (StrongId 20) (demo_bdf 0 0) Dev_OTHER (Generation 1) Prov_REPORTED (StrongId 2) demo_bridge =
      (Success (StrongId 1), t') \<and>
    tp_parent t' (StrongId 1) = Some (StrongId 2) \<and> tp_parent t' (StrongId 2) = Some (StrongId 1) \<and>
    ancestors t' (StrongId 1) = [StrongId 1, StrongId 2, StrongId 1] \<and> tp_validate t' = Success ()"
proof (intro exI conjI)
  show "add_endpoint (StrongId 20) (demo_bdf 0 0) Dev_OTHER (Generation 1) Prov_REPORTED (StrongId 2) demo_bridge =
      (Success (StrongId 1), demo_cycle)"
    unfolding demo_cycle_def
    by (simp add: demo_bridge_eval topology_eval demo_node_def Node_default_def demo_bdf_def)
  show "tp_parent demo_cycle (StrongId 1) = Some (StrongId 2)" "tp_parent demo_cycle (StrongId 2) = Some (StrongId 1)"
    "ancestors demo_cycle (StrongId 1) = [StrongId 1, StrongId 2, StrongId 1]"
    by (simp_all add: demo_cycle_eval tp_parent_def ancestors_def demo_node_def Node_default_def)
  have "tp_reach demo_bridge" by (rule tp_built_reach [OF demo_bridge_built])
  then have "tp_reach demo_cycle" unfolding demo_cycle_def tp_reach_def
    by (rule reach_step) (rule tp_step_endpoint)
  moreover have "current_ok demo_cycle"
    by (simp add: current_ok_def demo_cycle_eval demo_node_def Node_default_def demo_bdf_def Bdf_valid_def
        DeviceClass_valid_def DeviceClass_code_def enum_in_range_def kDeviceClassNames_def)
  ultimately show "tp_validate demo_cycle = Success ()" by (blast intro: tp_validate_ok tp_reach_inv)
qed

text \<open>
  In every hierarchy built without cycles the locality of two nodes is defined and does not
  depend on which of them is the source.
\<close>

theorem locality_defined_symmetric:
  assumes "tp_built t"
  shows "locality t a b \<noteq> None \<and> locality t a b = locality t b a"
  using tp_built_props [OF assms] locality_total [of t a b] locality_sym [of t a b] by simp

theorem locality_defined_symmetric_witness:
  "locality demo_topology (StrongId 10) (StrongId 11) = locality demo_topology (StrongId 11) (StrongId 10)"
  using locality_defined_symmetric [OF demo_topology_built, of "StrongId 10" "StrongId 11"] by simp

section \<open>Paths and selection\<close>

text \<open>
  C23: in a hierarchy built without cycles every pair of nodes has a path record; its node chain is
  empty exactly when the nodes share no ancestor, and otherwise is a route from source to destination
  that visits no node twice and moves along one parent link at a time.
\<close>

theorem path_is_a_route:
  assumes "tp_built t"
  shows "\<exists>p. build_path t i gen src dst epoch boot = Some p \<and>
    (pa_bridge_chain p = [] \<longleftrightarrow> set (ancestors t src) \<inter> set (ancestors t dst) = {}) \<and>
    (pa_bridge_chain p = [] \<or> hd (pa_bridge_chain p) = src \<and> last (pa_bridge_chain p) = dst \<and>
      distinct (pa_bridge_chain p) \<and>
      successively (\<lambda>x y. tp_parent t x = Some y \<or> tp_parent t y = Some x) (pa_bridge_chain p))"
proof -
  have t: "tp_inv t" "tp_acyclic t" using tp_built_props [OF assms] by simp_all
  obtain p where p: "build_path t i gen src dst epoch boot = Some p" using build_path_total [OF t(1)] by blast
  then have "pa_bridge_chain p = path_nodes t src dst" using build_path_fields by blast
  with p path_nodes_empty [OF t(2), of src dst] path_nodes_props [OF t(2), of src dst] show ?thesis by auto
qed

theorem path_is_a_route_witness:
  "\<exists>p. build_path demo_topology (StrongId 7) (Generation 1) (StrongId 10) (StrongId 11) (StrongId 0) (StrongId 5) = Some p \<and>
    pa_bridge_chain p = [StrongId 10, StrongId 2, StrongId 11] \<and> distinct (pa_bridge_chain p)"
proof -
  obtain p where p: "build_path demo_topology (StrongId 7) (Generation 1) (StrongId 10) (StrongId 11) (StrongId 0) (StrongId 5) = Some p"
    "pa_bridge_chain p = [] \<or> distinct (pa_bridge_chain p)"
    using path_is_a_route [OF demo_topology_built] by blast
  from build_path_fields [OF p(1)] have "pa_bridge_chain p = [StrongId 10, StrongId 2, StrongId 11]"
    by (simp add: demo_chain)
  with p show ?thesis by auto
qed

text \<open>
  C24: the selector's choice is one of the candidates, of the requester's epoch and boot, with every
  required capability, fresh and not saturated, and no other admissible candidate ranks before it.
\<close>

theorem selection_is_best:
  assumes "select cands req = Some d" and "de_selected d = Some i"
  shows "\<exists>p \<in> set cands. pa_id p = i \<and> pa_epoch p = rq_epoch req \<and> pa_boot p = rq_boot req \<and>
    list_all (pa_has_capability p) (rq_required_capabilities req) \<and> path_fresh p \<and>
    pa_contention p \<noteq> Cont_SATURATED \<and> \<not> list_ex (\<lambda>q. is_admissible req q \<and> ranks_before req q p) cands"
proof -
  obtain p where p: "p \<in> set cands" "pa_id p = i" "is_admissible req p"
    "\<forall>q \<in> set cands. is_admissible req q \<longrightarrow> \<not> ranks_before req q p"
    using select_best [OF assms] by blast
  then have "\<not> list_ex (\<lambda>q. is_admissible req q \<and> ranks_before req q p) cands" by (auto simp: list_ex_iff)
  with p show ?thesis
    by (intro bexI [of _ p]) (simp_all add: is_admissible_def path_auth_def path_cap_def)
qed

theorem selection_is_best_witness:
  "\<exists>d. select [demo_far_path, demo_path, demo_old_path] demo_select = Some d \<and> de_selected d = Some (StrongId 11) \<and>
    \<not> ranks_before demo_select demo_far_path demo_path"
proof -
  have id: "pa_id demo_path = StrongId 11" by (simp add: demo_path_def Path_new_def)
  from selection_is_best [OF demo_selection, of "StrongId 11"]
  have "\<not> list_ex (\<lambda>q. is_admissible demo_select q \<and> ranks_before demo_select q demo_path) [demo_far_path, demo_path, demo_old_path]"
    by (fastforce simp: sel_from_pool_fields id demo_far_path_def demo_old_path_def)
  then have "\<not> ranks_before demo_select demo_far_path demo_path" by (simp add: select_eval)
  then show ?thesis using demo_selection id by (simp add: sel_from_pool_fields)
qed

text \<open>
  C25: on candidates with distinct ids, representable rates and no NaN, the decision, the chosen path
  and the ranking do not depend on the order in which the candidates are given.
\<close>

theorem selection_order_independent:
  assumes "mset xs = mset ys" and "list_all rankable xs" and "distinct (map pa_id xs)"
    and "select xs req = Some d" and "select ys req = Some e"
  shows "de_decision d = de_decision e \<and> de_selected d = de_selected e \<and> de_reranked d = de_reranked e"
  by (rule select_perm [OF assms])

theorem selection_order_independent_witness:
  "\<exists>e. select [demo_path, demo_old_path, demo_far_path] demo_select = Some e \<and> de_selected e = Some (StrongId 11)"
proof -
  have id: "pa_id demo_path = StrongId 11" by (simp add: demo_path_def Path_new_def)
  have m: "mset [demo_far_path, demo_path, demo_old_path] = mset [demo_path, demo_old_path, demo_far_path]" by simp
  have dist: "distinct (map pa_id [demo_far_path, demo_path, demo_old_path])" by (simp add: demo_far_path_def demo_old_path_def id)
  have "list_all rankable [demo_path, demo_old_path, demo_far_path]" using demo_rankable by simp
  then obtain e where e: "select [demo_path, demo_old_path, demo_far_path] demo_select = Some e" using select_total by blast
  from selection_order_independent [OF m demo_rankable dist demo_selection e] e id show ?thesis
    by (simp add: sel_from_pool_fields)
qed

text \<open>
  On candidates with representable rates and no NaN the selector always answers, and what it
  answers is decided by the candidates' classes: a path is selected exactly when some candidate is
  admissible, otherwise the request is deferred when some candidate is only saturated, else rejected.
\<close>

theorem selection_answers:
  assumes "list_all rankable cands"
  shows "\<exists>d. select cands req = Some d \<and> decision_of req cands d \<and>
    (de_selected d \<noteq> None \<longleftrightarrow> list_ex (is_admissible req) cands)"
  using select_total [OF assms] select_decision_of by blast

theorem selection_answers_witness:
  "\<exists>d. select [demo_old_path] demo_select = Some d \<and> de_decision d = Dec_REJECT \<and> de_selected d = None"
proof -
  have "list_all rankable [demo_old_path]" using demo_rankable by simp
  from selection_answers [OF this, of demo_select] show ?thesis
    by (auto simp: decision_of_def select_eval)
qed

text \<open>
  When a path is selected, the decision accounts for every candidate once: it is the selected
  path, an alternative or eliminated.
\<close>

theorem selection_accounts:
  assumes "select cands req = Some d" and "de_selected d = Some i"
  shows "add_mset i (mset (de_alternatives d)) + mset (de_eliminated d) = mset (map pa_id cands)"
  by (rule select_accounts [OF assms])

theorem selection_accounts_witness:
  "\<exists>d. select [demo_far_path, demo_path, demo_old_path] demo_select = Some d \<and>
    add_mset (StrongId 11) (mset (de_alternatives d)) + mset (de_eliminated d) = {#StrongId 11, StrongId 9, StrongId 8#}"
proof -
  have id: "pa_id demo_path = StrongId 11" by (simp add: demo_path_def Path_new_def)
  show ?thesis
    using selection_accounts [OF demo_selection, of "StrongId 11"] demo_selection
    by (simp add: sel_from_pool_fields id demo_far_path_def demo_old_path_def add_mset_commute)
qed

section \<open>The runtime\<close>

text \<open>
  C26: in every state the runtime can reach, building the paths succeeds, and when the hierarchy is
  small enough for the path ids to differ it stores, for each two endpoints in address order, a fresh
  path of the runtime's authority with the hierarchy's route, locality and class.
\<close>

theorem runtime_builds_every_pair:
  assumes "rt_reach s" and "jobs_fit (rt_topology s)" and "i < j" and "j < length (endpoints (rt_topology s))"
  shows "\<exists>s' p. rt_build_paths s = Some s' \<and>
    rt_find_path s' (StrongId (of_nat i * of_nat (length (endpoints (rt_topology s))) + of_nat j + 1)) = Some p \<and>
    pa_source p = endpoints (rt_topology s) ! i \<and> pa_destination p = endpoints (rt_topology s) ! j \<and>
    authority_matches p (rt_epoch s) (rt_boot s) \<and> pa_freshness p = FreshnessRecord_new Fresh_CURRENT 0 \<and>
    pa_bridge_chain p = path_nodes (rt_topology s) (pa_source p) (pa_destination p) \<and>
    Some (pa_locality p) = locality (rt_topology s) (pa_source p) (pa_destination p) \<and>
    pa_class p = compute_path_class (rt_topology s) (pa_source p) (pa_destination p)"
proof -
  note inv = rt_reach_inv [OF assms(1)]
  obtain s' where s': "rt_build_paths s = Some s'" using rt_build_total [OF inv] by blast
  have "(StrongId (of_nat i * of_nat (length (endpoints (rt_topology s))) + of_nat j + 1),
      endpoints (rt_topology s) ! i, endpoints (rt_topology s) ! j) \<in> set (path_jobs (rt_topology s))"
    using pair_jobs_mem [OF assms(3,4)] by (simp add: path_jobs_def)
  from rt_build_job [OF inv assms(2) s' this] s' show ?thesis by (auto simp: built_by_def)
qed

theorem runtime_builds_every_pair_witness:
  "\<exists>s' p. rt_build_paths demo_runtime = Some s' \<and> rt_find_path s' (StrongId 2) = Some p \<and>
    pa_bridge_chain p = [StrongId 10, StrongId 2, StrongId 11]"
  using runtime_builds_every_pair [OF demo_runtime_reach, of 0 1]
  by (auto simp: demo_runtime_topology demo_jobs_fit demo_endpoints demo_chain)

text \<open>
  C27: the runtime builds a path from the first to the second of two endpoints only: after a build
  there is no candidate in the other direction, so every request for it is refused.
\<close>

theorem runtime_paths_one_way:
  assumes "rt_reach s" and "jobs_fit (rt_topology s)" and "rt_paths s = []" and "rt_build_paths s = Some s'"
    and "i < j" and "j < length (endpoints (rt_topology s))"
    and "rq_source req = endpoints (rt_topology s) ! j" and "rq_destination req = endpoints (rt_topology s) ! i"
  shows "\<exists>d. rt_select s' req = Some d \<and> de_decision d = Dec_REJECT \<and> de_selected d = None"
proof -
  have "rt_candidates s' (rq_source req) (rq_destination req) = []"
    unfolding assms(7,8) by (rule rt_build_one_way [OF rt_reach_inv [OF assms(1)] assms(2-6)])
  then show ?thesis using select_total [of "[]" req] select_decision_of [of "[]" req]
    by (auto simp: rt_select_def decision_of_def)
qed

theorem runtime_paths_one_way_witness:
  "\<exists>s' d. rt_build_paths demo_runtime = Some s' \<and>
    rt_select s' (demo_select\<lparr>rq_source := StrongId 11, rq_destination := StrongId 10\<rparr>) = Some d \<and> de_decision d = Dec_REJECT"
proof -
  obtain s' where s': "rt_build_paths demo_runtime = Some s'"
    using rt_build_total [OF rt_reach_inv [OF demo_runtime_reach]] by blast
  have "\<exists>d. rt_select s' (demo_select\<lparr>rq_source := StrongId 11, rq_destination := StrongId 10\<rparr>) = Some d \<and>
      de_decision d = Dec_REJECT \<and> de_selected d = None"
    by (rule runtime_paths_one_way [OF demo_runtime_reach _ _ s', of 0 1])
       (simp_all add: demo_runtime_topology demo_jobs_fit demo_endpoints)
  with s' show ?thesis by blast
qed

text \<open>
  In every reachable state, a path the runtime selects is the one stored under that id, joins the
  requested endpoints, carries the requested epoch and boot and is fresh.
\<close>

theorem runtime_selects_current:
  assumes "rt_reach s" and "rt_select s req = Some d" and "de_selected d = Some i"
  shows "\<exists>p. rt_find_path s i = Some p \<and> pa_source p = rq_source req \<and> pa_destination p = rq_destination req \<and>
    authority_matches p (rq_epoch req) (rq_boot req) \<and> path_fresh p \<and> pa_contention p \<noteq> Cont_SATURATED"
  using rt_select_sound [OF rt_reach_inv [OF assms(1)] assms(2,3)]
  by (auto simp: is_admissible_def path_auth_def authority_matches_def)

theorem runtime_selects_current_witness:
  "\<exists>d p. rt_select demo_ready (demo_select\<lparr>rq_boot := StrongId 0\<rparr>) = Some d \<and> de_selected d = Some (StrongId 2) \<and>
    rt_find_path demo_ready (StrongId 2) = Some p \<and> authority_matches p (StrongId 0) (StrongId 0) \<and> path_fresh p"
proof -
  let ?req = "demo_select\<lparr>rq_boot := StrongId 0\<rparr>"
  have rk: "list_all rankable [demo_pair_path]"
    by (simp add: rankable_def measured_u64_def theoretical_bps_def demo_pair_path_def Path_new_def f64_eval)
  have sel: "rt_select demo_ready ?req = Some (sel_from_pool (fold (sel_step ?req) [demo_pair_path] sel_acc_empty) demo_pair_path [])"
    using stable_sort_key [OF rk, of ?req]
    by (simp add: rt_select_def demo_candidates demo_select_def select_def sel_step_def sel_acc_empty_def path_auth_def path_cap_def
        path_fresh_def demo_pair_path_def Path_new_def freshness_rank_def FreshnessRecord_new_def)
  have id: "de_selected (sel_from_pool s demo_pair_path []) = Some (StrongId 2)" for s
    by (simp add: sel_from_pool_fields demo_pair_path_def Path_new_def)
  from runtime_selects_current [OF demo_ready_reach sel id] sel id show ?thesis
    by (auto simp: demo_select_def)
qed

text \<open>
  Ageing a path that was current: after \<open>k\<close> calls of \<open>age_freshness\<close> its age is \<open>k\<close> and it is
  usable by the selector exactly as long as \<open>k\<close> is at most 61.
\<close>

theorem freshness_ages:
  assumes "rt_find_path s i = Some p" and "pa_freshness p = FreshnessRecord_new Fresh_CURRENT 0" and "k < 2 ^ 64"
  shows "\<exists>q. rt_find_path ((rt_age_freshness ^^ k) s) i = Some q \<and>
    pa_freshness q = FreshnessRecord_new (aged_state k) (of_nat k) \<and> (path_fresh q \<longleftrightarrow> k \<le> 61)"
  by (rule rt_age_find [OF assms])

theorem freshness_ages_witness:
  "\<exists>q r. rt_find_path ((rt_age_freshness ^^ 61) demo_ready) (StrongId 2) = Some q \<and> path_fresh q \<and>
     rt_find_path ((rt_age_freshness ^^ 62) demo_ready) (StrongId 2) = Some r \<and> \<not> path_fresh r"
proof -
  have "demo_pair_path \<in> set (rt_candidates demo_ready (StrongId 10) (StrongId 11))" by (simp add: demo_candidates)
  then have f: "rt_find_path demo_ready (StrongId 2) = Some demo_pair_path"
    unfolding rt_candidates_mem [OF rt_reach_inv [OF demo_ready_reach]] by (simp add: demo_pair_path_def Path_new_def)
  have c: "pa_freshness demo_pair_path = FreshnessRecord_new Fresh_CURRENT 0" by (simp add: demo_pair_path_def)
  show ?thesis using freshness_ages [OF f c, of 61] freshness_ages [OF f c, of 62] by auto
qed

section \<open>Persistence\<close>



text \<open>
  C29: saving a runtime of two or more nodes writes a file that cannot be loaded: the encoder of a
  node leaves out its id, every decoded node has id 0 and the reader refuses the second as a
  duplicate. The runtime that tries to load it is left as it was.
\<close>

theorem snapshot_loses_nodes:
  assumes "rt_save f path s d = Some (Success (), d')" and "rt_snapshot s = Some sn"
    and "snapshot_short sn" and "length (stream_bytes sn) \<le> 262144" and "2 \<le> length (sn_nodes sn)"
  shows "rt_load path d' s' = (Fail EC_DUPLICATE_IDENTITY ''duplicate node id'', s')"
  by (rule rt_save_load_fails [OF assms])

theorem snapshot_loses_nodes_witness:
  "\<exists>d'. rt_save demo_no_faults ''s'' demo_runtime Map.empty = Some (Success (), d') \<and>
    rt_load ''s'' d' Runtime_new = (Fail EC_DUPLICATE_IDENTITY ''duplicate node id'', Runtime_new)"
proof -
  have ms: "rt_measurements demo_runtime = []" by (simp add: demo_runtime_def rt_discover_def Runtime_new_def)
  obtain sn where sn0: "rt_snapshot demo_runtime = Some sn"
    using rt_snapshot_total [of demo_runtime] by (auto simp: demo_runtime_topology rt_all_paths_def ms ms_all_def)
  have nodes: "List.map_filter (tp_node demo_topology) (all_nodes demo_topology) =
      [demo_node 1 (demo_bdf 0 0) Dev_ROOT_COMPLEX None [StrongId 2],
       demo_node 2 (demo_bdf 0 1) Dev_BRIDGE (Some (StrongId 1)) [StrongId 10, StrongId 11],
       demo_node 10 (demo_bdf 1 0) Dev_ACCELERATOR (Some (StrongId 2)) [],
       demo_node 11 (demo_bdf 1 1) Dev_NIC (Some (StrongId 2)) []]"
    unfolding demo_all_nodes by (simp add: demo_topology_eval tp_node_def List.map_filter_def)
  from snapshot_of_fields [OF sn0 [unfolded rt_snapshot_def]] nodes
  have sn: "sn_nodes sn = [demo_node 1 (demo_bdf 0 0) Dev_ROOT_COMPLEX None [StrongId 2],
       demo_node 2 (demo_bdf 0 1) Dev_BRIDGE (Some (StrongId 1)) [StrongId 10, StrongId 11],
       demo_node 10 (demo_bdf 1 0) Dev_ACCELERATOR (Some (StrongId 2)) [],
       demo_node 11 (demo_bdf 1 1) Dev_NIC (Some (StrongId 2)) []]"
    "sn_paths sn = []" "sn_measurements sn = []" "sn_reservations sn = []" "sn_policies sn = []"
    by (simp_all add: demo_runtime_topology ms ms_all_def)
  have short: "snapshot_short sn"
    by (simp add: snapshot_short_def sn node_short_def demo_node_def Node_default_def demo_bdf_def Bdf_valid_def
        Provenance_valid_def Provenance_code_def enum_in_range_def kProvenanceNames_def)
  have len: "length (stream_bytes sn) \<le> 262144"
    by (simp add: stream_bytes_def sn encode_node_length) (simp add: demo_node_def Node_default_def)
  obtain d' where d': "rt_save demo_no_faults ''s'' demo_runtime Map.empty = Some (Success (), d')"
    using save_no_faults [OF sn0 short] by blast
  from snapshot_loses_nodes [OF d' sn0 short len] d' show ?thesis by (auto simp: sn)
qed

text \<open>
  C30: whatever fails while a snapshot is saved, the file keeps its old content, has the complete new
  content, or is gone with the complete new content left in the temporary file; and saving reports
  success exactly when no step failed.
\<close>

theorem save_never_corrupts:
  "(snd (save_file f path data d) path = d path \<or> snd (save_file f path data d) path = Some data \<or>
     snd (save_file f path data d) path = None \<and> snd (save_file f path data d) (tmp_name path) = Some data) \<and>
   (fst (save_file f path data d) = Success () \<longleftrightarrow>
     \<not> sf_open f \<and> sf_write f = None \<and> \<not> (d path \<noteq> None \<and> sf_remove f) \<and> \<not> sf_rename f)"
proof (rule conjI)
  show "snd (save_file f path data d) path = d path \<or> snd (save_file f path data d) path = Some data \<or>
     snd (save_file f path data d) path = None \<and> snd (save_file f path data d) (tmp_name path) = Some data"
    by (rule save_file_contents [of f path data d "fst (save_file f path data d)"]) simp
  show "fst (save_file f path data d) = Success () \<longleftrightarrow>
     \<not> sf_open f \<and> sf_write f = None \<and> \<not> (d path \<noteq> None \<and> sf_remove f) \<and> \<not> sf_rename f"
    by (auto simp: save_file_def Let_def io_err_def tmp_name_def split: option.split)
qed

text \<open>
  C31: after a snapshot has been loaded the selector chooses nothing, whatever the request: every
  loaded path needs physical revalidation first.
\<close>

theorem loaded_paths_unusable:
  assumes "rt_load path d s = (Done sn, s')" and "rt_select s' req = Some dec"
  shows "de_selected dec = None"
proof (cases "de_selected dec")
  case (Some i)
  obtain p where p: "p \<in> set (rt_candidates s' (rq_source req) (rq_destination req))" "is_admissible req p"
    using select_best [OF assms(2) [unfolded rt_select_def] Some] by blast
  then have "p \<in> set (rt_all_paths s')" by (auto simp: rt_candidates_def rt_all_paths_def)
  with rt_load_unusable [OF assms(1)] p(2) show ?thesis by (auto simp: is_admissible_def)
qed simp

theorem loaded_paths_unusable_witness:
  "\<exists>sn s' dec. rt_load ''s'' demo_disk Runtime_new = (Done sn, s') \<and> rt_all_paths s' \<noteq> [] \<and>
     rt_select s' (demo_select\<lparr>rq_source := StrongId 0, rq_destination := StrongId 0\<rparr>) = Some dec \<and> de_selected dec = None"
proof -
  let ?req = "demo_select\<lparr>rq_source := StrongId 0, rq_destination := StrongId 0\<rparr>"
  obtain sn s' where l: "rt_load ''s'' demo_disk Runtime_new = (Done sn, s')" "rt_all_paths s' = [revalidate_path (norm_path demo_path)]"
    using demo_disk_load by (auto simp: rt_load_def rt_install_def mark_physical_revalidation_required_def
        rt_all_paths_def restore_paths_def)
  have "list_all rankable (rt_candidates s' (rq_source ?req) (rq_destination ?req))"
    using l(2) by (auto simp: rt_candidates_def rt_all_paths_def rankable_def measured_u64_def theoretical_bps_def
        list_all_iff revalidate_path_def norm_path_def norm_path_with_def demo_path_def Path_new_def demo_confidence
        pa_set_authority_def pa_set_endpoints_def confidence_of_byte_def f64_eval f64_255_def)
  then obtain dec where dec: "rt_select s' ?req = Some dec" using select_total unfolding rt_select_def by blast
  from loaded_paths_unusable [OF l(1) dec] l dec show ?thesis by auto
qed

section \<open>Measurements\<close>

text \<open>
  C32: after any sequence of calls of \<open>ingest\<close> on an empty store, the measurement held under an id that was
  offered has the greatest generation offered for it, whatever the order of arrival.
\<close>

theorem newest_measurement_kept:
  assumes "i \<in> ms_id ` set ms"
  shows "map_option ms_generation (ms_get (ingest_all ms []) i) =
    Some (Max (ms_generation ` {m \<in> set ms. ms_id m = i}))"
  by (rule ingest_all_newest) (use assms in auto)

theorem newest_measurement_kept_witness:
  "map_option ms_generation (ms_get (ingest_all [demo_measurement\<lparr>ms_generation := Generation 5\<rparr>, demo_measurement] [])
     (StrongId 1)) = Some (Generation 5)"
proof -
  have g: "ms_generation demo_measurement = Generation 2" "ms_id demo_measurement = StrongId 1"
    by (simp_all add: demo_measurement_def Measurement_new_def)
  have "{m. (m = demo_measurement\<lparr>ms_generation := Generation 5\<rparr> \<or> m = demo_measurement) \<and> ms_id m = StrongId 1} =
      {demo_measurement\<lparr>ms_generation := Generation 5\<rparr>, demo_measurement}" using g by auto
  then show ?thesis
    by (subst newest_measurement_kept) (simp_all add: g max_def)
qed

section \<open>The wire format\<close>

text \<open>
  C33: a buffer decodes to a frame exactly when it is that frame's encoding and the payload is within
  the limit: decoding inverts encoding and accepts nothing else.
\<close>

theorem frame_codec_exact:
  "frame_decode buf = Done f \<longleftrightarrow> buf = frame_encode f \<and> length (fm_payload f) \<le> kMaxPayload"
  using frame_decode_encode frame_decode_sound by blast

text \<open>
  C34: a frame whose payload is altered in a run of at most four consecutive bytes is refused with a
  checksum error.
\<close>

theorem frame_burst_detected:
  assumes "fm_payload f = pre @ b @ post" and "length (fm_payload f) \<le> kMaxPayload"
    and "length b = length b'" and "length b \<le> 4" and "b \<noteq> b'"
  shows "frame_decode (take 21 (frame_encode f) @ pre @ b' @ post) = Fail EC_PROTOCOL_CHECKSUM ''crc mismatch''"
proof -
  have "length (frame_encode f) - length (fm_payload f) = 21"
    by (simp add: frame_encode_length kHeaderSize_def)
  with frame_decode_corrupt [OF assms] show ?thesis by simp
qed

theorem frame_burst_detected_witness:
  "frame_decode (take 21 (frame_encode (Frame MSG_HELLO [1, 2, 3])) @ [1] @ [7] @ [3]) =
     Fail EC_PROTOCOL_CHECKSUM ''crc mismatch''"
  by (rule frame_burst_detected [of _ _ "[2]"]) (simp_all add: kMaxPayload_def)

section \<open>Addresses\<close>

text \<open>
  C35: the canonical form of a valid address parses back to it, and two valid addresses have the same
  identity only if they are equal.
\<close>

theorem address_round_trip:
  assumes "Bdf_valid b" and "Bdf_valid c"
  shows "Bdf_parse (canonical b) = Success b \<and>
    (to_identity (canonical b) = to_identity (canonical c) \<longleftrightarrow> b = c)"
  using parse_canonical [OF assms(1)] to_identity_canonical [OF assms(1)] to_identity_canonical [OF assms(2)]
    bdf_pack_inj [of b c] by auto

theorem address_round_trip_witness:
  "Bdf_parse (canonical (Bdf 0 0x3a 31 7)) = Success (Bdf 0 0x3a 31 7) \<and>
   to_identity (canonical (Bdf 0 0x3a 31 7)) \<noteq> to_identity (canonical (Bdf 0 0 0 0))"
  using address_round_trip [of "Bdf 0 0x3a 31 7" "Bdf 0 0 0 0"] by (simp add: Bdf_valid_def)

section \<open>Discovery\<close>

text \<open>
  When discovery reports devices with distinct valid addresses, a device whose parent comes
  before it in address order is a node directly below its parent's node.
\<close>

theorem discovery_links_parents:
  assumes "ds = xs @ d # ys" and "distinct (map rw_bdf ds)" and "list_all (\<lambda>d. Bdf_valid (rw_bdf d)) ds"
    and "length ds + 2 < 2 ^ 64" and "rw_parent_bdf d = Some b" and "b \<in> rw_bdf ` set xs"
  shows "\<exists>i p. node_of (build_topology ds) (rw_bdf d) i \<and> node_of (build_topology ds) b p \<and>
    tp_parent (build_topology ds) i = Some p"
  by (rule discovery_parent [OF assms])

theorem discovery_links_parents_witness:
  "\<exists>i p. node_of (build_topology [demo_device (demo_bdf 0 1) Dev_BRIDGE None,
        demo_device (demo_bdf 1 0) Dev_ACCELERATOR (Some (demo_bdf 0 1))]) (demo_bdf 1 0) i \<and>
     tp_parent (build_topology [demo_device (demo_bdf 0 1) Dev_BRIDGE None,
        demo_device (demo_bdf 1 0) Dev_ACCELERATOR (Some (demo_bdf 0 1))]) i = Some p"
  using discovery_links_parents [of _ "[demo_device (demo_bdf 0 1) Dev_BRIDGE None]"
      "demo_device (demo_bdf 1 0) Dev_ACCELERATOR (Some (demo_bdf 0 1))" "[]" "demo_bdf 0 1", OF refl]
  by (auto simp: demo_device_def RawPciDevice_default_def demo_bdf_def Bdf_valid_def)

text \<open>
  C36: a hierarchy discovered on Windows passes \<open>validate\<close>, but no node of it has a root complex:
  discovery never classifies a device as a root complex or root port, so the runtime builds no path
  between an endpoint and the host.
\<close>

theorem discovery_without_root:
  assumes "build_topology_from_windows devs get_parent = Some (Success t)"
  shows "tp_validate t = Success () \<and> root_complex_of t i = None \<and> path_jobs t = pair_jobs (endpoints t)"
proof -
  obtain z where z: "enumerate_pci_devices devs get_parent = Some z" "res_map build_topology z = Success t"
    using assms by (auto simp: build_topology_from_windows_def)
  then obtain rs where rs: "enumerate_pci_devices devs get_parent = Some (Success rs)" "t = build_topology rs"
    by (cases z) (auto simp: res_map_def)
  have ok: "win_ok t" unfolding rs(2) by (rule build_topology_ok) (use enumerate_reported [OF rs(1)] in blast)
  have "tp_inv t" unfolding rs(2) by (rule tp_reach_inv [OF build_topology_reach])
  with ok win_ok_validate win_ok_no_root win_ok_no_host_jobs show ?thesis by (simp add: path_jobs_def)
qed

theorem discovery_without_root_witness:
  "\<exists>t. build_topology_from_windows (Some [demo_setup]) Map.empty = Some (Success t) \<and> length (tp_nodes t) = 1 \<and>
     path_jobs t = pair_jobs (endpoints t)"
proof -
  obtain r where r: "raw_device demo_setup = Some r" "rw_kind r = Dev_NIC" "rw_bdf r = Bdf 0 1 0 0" "rw_parent_bdf r = None" using demo_raw by blast
  have e: "su_enumerator_name demo_setup = ''PCI''" by (simp add: demo_setup_def)
  have b: "build_topology_from_windows (Some [demo_setup]) Map.empty = Some (Success (build_topology [r]))"
    by (simp add: build_topology_from_windows_def enumerate_pci_devices_def e r sort_devices_def resolve_parent_def res_map_def)
  have "length (tp_nodes (build_topology [r])) = 1"
    by (simp add: build_topology_def win_step_def win_start_def win_parent_def r Bdf_valid_def Let_def topology_eval Topology_new_def)
  with discovery_without_root [OF b, of "StrongId 1"] b show ?thesis by simp
qed

section \<open>The command line tool\<close>

text \<open>
  C37: \<open>pf save <path>\<close> and \<open>pf load <path>\<close>, called as their usage line says, only print that line.
  With the word repeated \<open>save\<close> writes its file, and \<open>load\<close> refuses every file \<open>save\<close> has written.
\<close>

theorem tool_cannot_load_what_it_saves:
  assumes "mc_faults m = \<lparr>sf_open = False, sf_write = None, sf_remove = False, sf_rename = False\<rparr>"
  shows "cli_main [pf, ''save'', path] m = Some ([(''usage: pf save|load <path>'', [])], Exit 1, m) \<and>
    cli_main [pf, ''load'', path] m = Some ([(''usage: pf save|load <path>'', [])], Exit 1, m) \<and>
    (\<exists>d. cli_main [pf, ''save'', ''save'', path] m =
        Some ([(''saved snapshot to %s (paths=%zu)'', [PStr path, PNat 1])], Exit 0, m\<lparr>mc_disk := d\<rparr>) \<and>
      cli_main [pf, ''load'', ''load'', path] (m\<lparr>mc_disk := d\<rparr>) =
        Some ([(''load failed: %s code=%d'', [PStr ''duplicate node id'', PInt 6])], Exit 1, m\<lparr>mc_disk := d\<rparr>))"
proof -
  obtain d where "cmd_save path save_runtime m =
      exits [(''saved snapshot to %s (paths=%zu)'', [PStr path, PNat 1])] 0 (m\<lparr>mc_disk := d\<rparr>)"
    "cmd_load path save_runtime (m\<lparr>mc_disk := d\<rparr>) =
      exits [(''load failed: %s code=%d'', [PStr ''duplicate node id'', PInt 6])] 1 (m\<lparr>mc_disk := d\<rparr>)"
    using cmd_save_fails_to_load [of m path] assms by (auto simp: demo_no_faults_def)
  then show ?thesis
    by (intro conjI exI [of _ d])
       (simp_all add: cli_main_def argc_def save_command exits_def, simp_all add: cmd_save_load_def argc_def exits_def)
qed

theorem tool_cannot_load_what_it_saves_witness:
  "cli_main [''pf'', ''save'', ''f''] demo_machine = Some ([(''usage: pf save|load <path>'', [])], Exit 1, demo_machine) \<and>
   (\<exists>d. cli_main [''pf'', ''load'', ''load'', ''f''] (demo_machine\<lparr>mc_disk := d\<rparr>) =
      Some ([(''load failed: %s code=%d'', [PStr ''duplicate node id'', PInt 6])], Exit 1, demo_machine\<lparr>mc_disk := d\<rparr>))"
  using tool_cannot_load_what_it_saves [of demo_machine "''pf''" "''f''"] unfolding demo_machine_def demo_no_faults_def
  by (simp only: Machine.simps simp_thms) blast

text \<open>
  C38: how \<open>pf worker\<close> ends, where that is defined (an acknowledgement that is cut off is read beyond its
  end). However the connection, the registration and the exchange that follows go, it exits with all its
  handles closed, with 0 exactly where it has reported its registration and with 1 where it has reported
  a failure. Or it does not end: nothing bounds the wait for an answer, so with a peer that stays connected
  and stops talking it stays in \<open>recv\<close>, with the one handle of its connection open.
\<close>

theorem worker_command_closes:
  assumes "tries_fresh (mc_os m) (case mc_connect m of None \<Rightarrow> [] | Some ts \<Rightarrow> ts)"
    and "cmd_worker argv m = Some (ls, e, m')"
  shows "(\<exists>code. e = Exit code \<and> os_open (mc_os m') = os_open (mc_os m) \<and>
      (if code = 0 then fst (ls ! 0) = ''worker id=%llu boot=%llu registered epoch=%llu''
       else code = 1 \<and> fst (ls ! 0) \<in> {''worker connect failed: %s'', ''worker register failed: %s''})) \<or>
    (e = Waits \<and> mc_idle m \<and> (\<exists>h. h \<noteq> invalid_fd \<and> h \<notin> os_open (mc_os m) \<and> os_open (mc_os m') = insert h (os_open (mc_os m))))"
proof -
  obtain w os where w: "worker_ended w os m ls e m'" "os_open os = os_open (mc_os m) \<union> fd_of (sk_fd (wk_sock w))"
    "fd_of (sk_fd (wk_sock w)) \<inter> os_open (mc_os m) = {}" "wk_connected w \<longleftrightarrow> sk_valid (wk_sock w)"
    using cmd_worker_ended [OF assms] by blast
  show ?thesis
  proof (cases e)
    case (Exit code)
    with w show ?thesis by (auto simp: worker_ended_def)
  next
    case Waits
    with w have "fd_of (sk_fd (wk_sock w)) = {sk_fd (wk_sock w)}" "sk_fd (wk_sock w) \<noteq> invalid_fd"
      by (auto simp: worker_ended_def fd_of_def sk_valid_def)
    with Waits w show ?thesis by (auto simp: worker_ended_def intro!: exI [of _ "sk_fd (wk_sock w)"])
  qed (use w(1) in \<open>simp_all add: worker_ended_def\<close>)
qed

text \<open>A peer that closes the connection at once, and one that stays and says nothing.\<close>

theorem worker_command_closes_witness:
  "(\<exists>m'. cmd_worker [''pf'', ''worker''] demo_machine =
      Some ([(''worker register failed: %s'', [PStr ''connection closed''])], Exit 1, m') \<and> os_open (mc_os m') = {3}) \<and>
   (\<exists>m' h. cmd_worker [''pf'', ''worker''] demo_silent = Some ([], Waits, m') \<and> h \<noteq> 3 \<and> os_open (mc_os m') = {3, h})"
proof
  obtain m' where m': "cmd_worker [''pf'', ''worker''] demo_machine =
      Some ([(''worker register failed: %s'', [PStr ''connection closed''])], Exit 1, m')"
    using demo_worker_command by blast
  note c = worker_command_closes [OF demo_machine_tries m']
  have o: "os_open (mc_os demo_machine) = {3}" by (simp add: demo_machine_def)
  from c have "os_open (mc_os m') = {3}" unfolding o by (elim disjE exE conjE) simp_all
  with m' show "\<exists>m'. cmd_worker [''pf'', ''worker''] demo_machine =
      Some ([(''worker register failed: %s'', [PStr ''connection closed''])], Exit 1, m') \<and> os_open (mc_os m') = {3}" by blast
  obtain u where u: "cmd_worker [''pf'', ''worker''] demo_silent = Some ([], Waits, u)"
    using demo_silent_command by blast
  note c = worker_command_closes [OF demo_silent_tries u]
  have o: "os_open (mc_os demo_silent) = {3}" by (simp add: demo_silent_def demo_machine_def)
  from c obtain h where "h \<notin> {3}" "os_open (mc_os u) = insert h {3}" unfolding o by (elim disjE exE conjE) simp_all
  with u show "\<exists>m' h. cmd_worker [''pf'', ''worker''] demo_silent = Some ([], Waits, m') \<and> h \<noteq> 3 \<and> os_open (mc_os m') = {3, h}"
    by (intro exI [of _ u] exI [of _ h]) auto
qed

text \<open>
  \<open>pf coordinator\<close> with no port prints the port 0, whichever port the system chose, and its accept
  loop runs for good: nobody requests a stop.
\<close>

theorem coordinator_command_serves:
  assumes "cli_main [pf, ''coordinator''] m = Some (ls, Serves s, m')" and "listen_fresh (mc_os m) (mc_listen m)"
    and "sv_work\<^sup>*\<^sup>* s s'"
  shows "ls = [(''coordinator started on port %u'', [PNat 0])] \<and> (sv_main s' = LoopTest \<or> sv_main s' = Accepting)"
proof -
  have c: "cmd_coordinator [pf, ''coordinator''] m = Some (ls, Serves s, m')"
    using assms(1) by (simp add: cli_main_def argc_def)
  note s = cmd_coordinator_serves [OF c assms(2)]
  have "ls = [(''coordinator started on port %u'', [PNat 0])]"
    using c sv_start_port [of 0 "mc_listen m" "Server_new\<lparr>sv_os := mc_os m\<rparr>"]
    by (auto simp: cmd_coordinator_def argc_def exits_def split: prod.splits Result.splits)
  with s sv_works_run [OF assms(3)] show ?thesis by blast
qed

section \<open>The transfer engine\<close>

text \<open>
  C39: whatever the calls of the CUDA runtime answer, those that release something included, a run of
  the proof that returns has handed every event and all the memory it got to the call that releases it:
  what it leaves behind is exactly what such a call refuses to take back, whose failure the code
  ignores, and nothing if none does. A run left by an exception after the allocations keeps the pinned
  and the device memory. A run is undefined only where its bytes are no whole floats or the number of
  blocks overflows.
\<close>

theorem cuda_run_releases:
  "case run_proof c bytes iters h of
     Returns r h' \<Rightarrow>
       ch_pinned h' = ch_pinned h + of_bool (got_pinned c \<and> \<not> cc_free_host c) \<and>
       ch_device h' = ch_device h + of_bool (got_device c \<and> \<not> cc_free c) \<and>
       ch_events h' = ch_events h + (if got_device c then events_left c 4 else 0) \<and>
       (releases_succeed c \<longrightarrow> h' = h)
   | Throws h' \<Rightarrow> h' = (if vector_throws c 0 then h else events_more (events_left c (transfers_made c))
       (h\<lparr>ch_pinned := ch_pinned h + 1, ch_device := ch_device h + 1\<rparr>))
   | Undefined \<Rightarrow> \<not> within_vector (or_default (256 * 1024 * 1024) bytes) \<or>
       2 ^ 31 \<le> int_of_u64 (of_nat (float_count (or_default (256 * 1024 * 1024) bytes))) + 255"
proof (cases "run_proof c bytes iters h")
  case (Returns r h')
  note held = run_proof_releases [OF Returns]
  moreover have "h' = h" if "releases_succeed c"
    using held that releases_leave_nothing [OF that] by (cases h, cases h') (simp add: releases_succeed_def)
  ultimately show ?thesis unfolding Returns proof_end.case by blast
next
  case (Throws h')
  from run_proof_throws [OF Throws] show ?thesis unfolding Throws proof_end.case .
next
  case Undefined
  from run_proof_undefined [OF Undefined] show ?thesis unfolding Undefined proof_end.case .
qed

text \<open>A device that has no memory left, and pinned memory that \<open>cudaFreeHost\<close> refuses: that one stays.\<close>

theorem cuda_run_releases_witness:
  "(\<exists>r h'. run_proof (demo_refused False) 1024 8 (mc_held demo_machine) = Returns r h' \<and> ch_pinned h' = 1 \<and>
      ch_device h' = 0 \<and> ch_events h' = 0) \<and>
   (\<exists>r. run_proof (demo_refused True) 1024 8 (mc_held demo_machine) = Returns r (mc_held demo_machine))"
proof
  have g: "got_pinned (demo_refused False)" "\<not> got_device (demo_refused False)" "\<not> cc_free_host (demo_refused False)"
    using demo_device_found by (auto simp: got_pinned_def got_device_def demo_refused_def demo_calls_def)
  obtain r h' where "run_proof (demo_refused False) 1024 8 (mc_held demo_machine) = Returns r h'"
    using demo_refused_returns by blast
  with g cuda_run_releases [where c = "demo_refused False" and bytes = 1024 and iters = 8 and h = "mc_held demo_machine"]
  show "\<exists>r h'. run_proof (demo_refused False) 1024 8 (mc_held demo_machine) = Returns r h' \<and> ch_pinned h' = 1 \<and>
      ch_device h' = 0 \<and> ch_events h' = 0"
    by (simp add: demo_machine_def)
  have s: "releases_succeed (demo_refused True)"
    by (simp add: releases_succeed_def demo_refused_def demo_calls_def demo_transfer_def)
  obtain r h' where "run_proof (demo_refused True) 1024 8 (mc_held demo_machine) = Returns r h'"
    using demo_refused_returns by blast
  with s cuda_run_releases [where c = "demo_refused True" and bytes = 1024 and iters = 8 and h = "mc_held demo_machine"]
  show "\<exists>r. run_proof (demo_refused True) 1024 8 (mc_held demo_machine) = Returns r (mc_held demo_machine)"
    by simp
qed

text \<open>
  A number of bytes that is no multiple of four, with a device and memory for it, is copied from
  beyond the end of the vector that holds the pattern.
\<close>

theorem cuda_run_reads_out_of_bounds:
  assumes "detect_device (cc_device c) = Success dev" and "cc_host_alloc c" and "cc_malloc c"
    and "\<not> vector_throws c 0" and "\<not> 4 dvd unat bytes"
  shows "run_proof c bytes iters h = Undefined"
  by (rule run_proof_out_of_bounds [OF assms])

theorem cuda_run_reads_out_of_bounds_witness:
  "run_proof demo_calls 1001 8 (mc_held demo_machine) = Undefined"
proof -
  obtain d where "detect_device (cc_device demo_calls) = Success d" using demo_device_found by blast
  then show ?thesis
    by (rule cuda_run_reads_out_of_bounds) (simp_all add: demo_calls_def vector_throws_def)
qed

text \<open>
  C40: the launch of the kernel by \<open>run_proof\<close> ends and verifies, for a buffer small enough that the
  number of blocks does not overflow (\<open>n + 255 < 2 ^ 31\<close> floats) and a device whose arithmetic is exact
  on the integers of the pattern. Whatever the order \<open>ks\<close> in which the threads of the grid make their
  accesses, each thread \<open>k\<close> makes at most three and none is undefined; where no thread can move any
  more all have ended, every float of the buffer has been replaced once, and each compares equal to the
  reference.
\<close>

theorem kernel_ends_verified:
  assumes "kr_trace muladd (proof_launch d_buf bytes)
      (Some (launched (proof_launch d_buf bytes) (filled_buffer d_buf bytes m))) ks S"
    and "float_count bytes + 255 < 2 ^ 31" and "exact_on_pattern muladd"
  shows "count_list ks k \<le> 3 \<and> length ks \<le> 3 * (la_blocks (proof_launch d_buf bytes) * 256) \<and> S \<noteq> None \<and>
    ((\<forall>S'. \<not> kr_step muladd (proof_launch d_buf bytes) S S') \<longrightarrow> kr_finished (the S) \<and>
       kr_memory (the S) = kernel_image muladd (proof_launch d_buf bytes) (filled_buffer d_buf bytes m) \<and>
       kernel_matches (float_count bytes) (\<lambda>i. the (kr_memory (the S) (d_buf + int i))))"
proof -
  note fields = proof_launch_fields [OF assms(2), of d_buf] and run = kr_trace_run [OF assms(1)]
  have "la_threads (proof_launch d_buf bytes) = 256" by (simp add: proof_launch_def Let_def)
  then have n: "length ks \<le> 3 * (la_blocks (proof_launch d_buf bytes) * 256)" using kernel_run_bounded [OF run] by simp
  have k: "count_list ks k \<le> 3" by (rule order_trans [OF kr_trace_accesses [OF assms(1)] launched_accesses])
  have reach: "reachable (kr_start (proof_launch d_buf bytes) (filled_buffer d_buf bytes m)) (kr_step muladd (proof_launch d_buf bytes)) S"
    by (rule kernel_run_reaches [OF run fields(3)])
  then obtain s where S: "S = Some s" using kernel_never_undefined by blast
  have "kr_finished s \<and> kr_memory s = kernel_image muladd (proof_launch d_buf bytes) (filled_buffer d_buf bytes m) \<and>
      kernel_matches (float_count bytes) (\<lambda>i. the (kr_memory s (d_buf + int i)))"
    if "\<forall>S'. \<not> kr_step muladd (proof_launch d_buf bytes) (Some s) S'"
    using kernel_end_matches [OF assms(3,2) reach [unfolded S] kernel_at_rest] kernel_at_rest that by blast
  then show ?thesis unfolding S option.sel using n k by blast
qed

text \<open>A run over two floats, to its end.\<close>

theorem kernel_ends_verified_witness:
  "\<exists>ks s. kr_trace integer_muladd (proof_launch 0 8) (Some (launched (proof_launch 0 8) (filled_buffer 0 8 Map.empty))) ks (Some s) \<and>
     count_list ks 1 \<le> 3 \<and> kr_finished s \<and> kr_memory s 1 = Some (f32_of_nat 3)"
proof -
  let ?l = "proof_launch 0 8" and ?m = "filled_buffer 0 8 Map.empty"
  have b: "float_count 8 + 255 < 2 ^ 31" by (simp add: float_count_def)
  obtain ks S where t: "kr_trace integer_muladd ?l (Some (launched ?l ?m)) ks S" and e: "\<forall>S'. \<not> kr_step integer_muladd ?l S S'"
    using kernel_trace_to_rest by blast
  note c = kernel_ends_verified [OF t b integer_muladd_exact, of 1]
  then obtain s where S: "S = Some s" by blast
  have "la_y ?l = 0" "la_a ?l = f32_of_nat 2" by (simp_all add: proof_launch_def Let_def)
  moreover have "la_n ?l = 2" using proof_launch_fields(1) [OF b, of 0] by (simp add: float_count_def)
  moreover have "integer_muladd (f32_of_nat 2) (f32_of_nat 1) (f32_of_nat 1) = f32_of_nat 3"
    using integer_muladd_exact by (auto simp: exact_on_pattern_def dest: spec [of _ 1])
  ultimately have "kernel_image integer_muladd ?l ?m 1 = Some (f32_of_nat 3)"
    by (simp add: kernel_image_def filled_buffer_def float_count_def)
  with c e t S show ?thesis by (intro exI [of _ ks] exI [of _ s]) simp
qed

text \<open>
  A run whose repetitions have no positive low half as an \<open>int\<close> copies nothing and still reports its
  transfers as done, with a throughput.
\<close>

theorem cuda_run_counts_copies_not_made:
  assumes "int_of_u64 iters \<le> 0" and "tt_create0 c" and "tt_create1 c" and "tt_synchronize c"
  shows "copies_made (tt_copies c) (int_of_u64 iters) = 0 \<and> ts_ok (fst (run_transfer cls c bytes iters h)) \<and>
    ts_iters (fst (run_transfer cls c bytes iters h)) = iters"
  using transfer_without_copies [OF assms] by simp

theorem cuda_run_counts_copies_not_made_witness:
  "ts_iters (fst (run_transfer TC_PINNED_H2D demo_transfer 4096 (2 ^ 32) h)) = 2 ^ 32 \<and>
   copies_made (tt_copies demo_transfer) (int_of_u64 (2 ^ 32)) = 0"
proof -
  have "int_of_u64 (2 ^ 32) \<le> 0" by (simp add: int_of_u64_def)
  then show ?thesis
    using cuda_run_counts_copies_not_made [of "2 ^ 32" demo_transfer TC_PINNED_H2D 4096 h]
    by (simp add: demo_transfer_def)
qed


end
